theory Spec2Isabelle
  imports Main
begin

section \<open>Syntax trees\<close>

text \<open>
  The plugin (\<^verbatim>\<open>src/lib.js\<close>) works on Babel syntax trees: plain objects with a
  \<^verbatim>\<open>type\<close> string, scalar properties and node-valued properties. A node is
  modelled as its type, its scalar properties and the list of its node-valued
  properties in visiting order; an array-valued property contributes one entry per
  element under the same key, and absent (null) values contribute none.
\<close>

datatype attr = Str string | Bool bool

datatype node = Node (ntype: string) (attrs: "(string \<times> attr) list") (kids: "(string \<times> node) list")

definition child :: "node \<Rightarrow> string \<Rightarrow> node option" where
  "child n k = map_of (kids n) k"

definition childs :: "node \<Rightarrow> string \<Rightarrow> node list" where
  "childs n k = map snd (filter (\<lambda>kc. fst kc = k) (kids n))"

definition strAttr :: "node \<Rightarrow> string \<Rightarrow> string option" where
  "strAttr n k = (case map_of (attrs n) k of Some (Str s) \<Rightarrow> Some s | _ \<Rightarrow> None)"

definition boolAttr :: "node \<Rightarrow> string \<Rightarrow> bool" where
  "boolAttr n k = (case map_of (attrs n) k of Some (Bool b) \<Rightarrow> b | _ \<Rightarrow> False)"

subsection \<open>Validators of the types package\<close>

definition isIdentifier :: "node \<Rightarrow> bool" where
  "isIdentifier n = (ntype n = ''Identifier'')"

definition isIdentifierNamed :: "string \<Rightarrow> node \<Rightarrow> bool" where
  "isIdentifierNamed nm n = (isIdentifier n \<and> strAttr n ''name'' = Some nm)"

definition isCallExpression :: "node \<Rightarrow> bool" where
  "isCallExpression n = (ntype n = ''CallExpression'')"

definition isVariableDeclarator :: "node \<Rightarrow> bool" where
  "isVariableDeclarator n = (ntype n = ''VariableDeclarator'')"

definition isVariableDeclaration :: "node \<Rightarrow> bool" where
  "isVariableDeclaration n = (ntype n = ''VariableDeclaration'')"

definition isBlockStatement :: "node \<Rightarrow> bool" where
  "isBlockStatement n = (ntype n = ''BlockStatement'')"

definition isExpressionStatement :: "node \<Rightarrow> bool" where
  "isExpressionStatement n = (ntype n = ''ExpressionStatement'')"

definition isImportDeclaration :: "node \<Rightarrow> bool" where
  "isImportDeclaration n = (ntype n = ''ImportDeclaration'')"

definition isStringLiteral :: "node \<Rightarrow> bool" where
  "isStringLiteral n = (ntype n = ''StringLiteral'')"

definition isProgram :: "node \<Rightarrow> bool" where
  "isProgram n = (ntype n = ''Program'')"

definition isArrowFunctionExpression :: "node \<Rightarrow> bool" where
  "isArrowFunctionExpression n = (ntype n = ''ArrowFunctionExpression'')"

definition isFunction :: "node \<Rightarrow> bool" where
  "isFunction n = (ntype n \<in> set [''FunctionDeclaration'', ''FunctionExpression'',
     ''ObjectMethod'', ''ArrowFunctionExpression'', ''ClassMethod'', ''ClassPrivateMethod''])"

definition isFunctionParent :: "node \<Rightarrow> bool" where
  "isFunctionParent n = (isFunction n \<or> ntype n \<in> set [''StaticBlock'', ''TSModuleBlock''])"

definition isPattern :: "node \<Rightarrow> bool" where
  "isPattern n = (ntype n \<in> set [''AssignmentPattern'', ''ArrayPattern'', ''ObjectPattern''])"

definition isLiteral :: "node \<Rightarrow> bool" where
  "isLiteral n = (ntype n \<in> set [''StringLiteral'', ''NumericLiteral'', ''NullLiteral'',
     ''BooleanLiteral'', ''RegExpLiteral'', ''TemplateLiteral'', ''BigIntLiteral'',
     ''DecimalLiteral''])"

subsection \<open>Builders of the types package\<close>

definition t_identifier :: "string \<Rightarrow> node" where
  "t_identifier nm = Node ''Identifier'' [(''name'', Str nm)] []"

definition t_callExpression :: "node \<Rightarrow> node list \<Rightarrow> node" where
  "t_callExpression callee args =
     Node ''CallExpression'' [] ((''callee'', callee) # map (Pair ''arguments'') args)"

definition t_arrowFunctionExpression :: "node list \<Rightarrow> node \<Rightarrow> node" where
  "t_arrowFunctionExpression ps body =
     Node ''ArrowFunctionExpression'' [] (map (Pair ''params'') ps @ [(''body'', body)])"

definition t_variableDeclarator :: "node \<Rightarrow> node option \<Rightarrow> node" where
  "t_variableDeclarator ident init =
     Node ''VariableDeclarator'' []
       ((''id'', ident) # (case init of None \<Rightarrow> [] | Some e \<Rightarrow> [(''init'', e)]))"

definition t_variableDeclaration :: "string \<Rightarrow> node list \<Rightarrow> node" where
  "t_variableDeclaration k ds =
     Node ''VariableDeclaration'' [(''kind'', Str k)] (map (Pair ''declarations'') ds)"

definition t_returnStatement :: "node option \<Rightarrow> node" where
  "t_returnStatement arg =
     Node ''ReturnStatement'' [] (case arg of None \<Rightarrow> [] | Some e \<Rightarrow> [(''argument'', e)])"

definition t_blockStatement :: "node list \<Rightarrow> node" where
  "t_blockStatement ss = Node ''BlockStatement'' [] (map (Pair ''body'') ss)"

definition t_functionExpression :: "node option \<Rightarrow> node list \<Rightarrow> node \<Rightarrow> node" where
  "t_functionExpression ident ps body =
     Node ''FunctionExpression'' []
       ((case ident of None \<Rightarrow> [] | Some i \<Rightarrow> [(''id'', i)])
        @ map (Pair ''params'') ps @ [(''body'', body)])"

definition t_functionDeclaration :: "node \<Rightarrow> node list \<Rightarrow> node \<Rightarrow> node" where
  "t_functionDeclaration ident ps body =
     Node ''FunctionDeclaration'' [] ((''id'', ident) # map (Pair ''params'') ps @ [(''body'', body)])"

definition t_thisExpression :: node where
  "t_thisExpression = Node ''ThisExpression'' [] []"

definition t_memberExpression :: "node \<Rightarrow> node \<Rightarrow> bool \<Rightarrow> node" where
  "t_memberExpression obj prop computed =
     Node ''MemberExpression'' [(''computed'', Bool computed)] [(''object'', obj), (''property'', prop)]"

definition t_binaryExpression :: "string \<Rightarrow> node \<Rightarrow> node \<Rightarrow> node" where
  "t_binaryExpression op l r = Node ''BinaryExpression'' [(''operator'', Str op)] [(''left'', l), (''right'', r)]"

definition t_logicalExpression :: "string \<Rightarrow> node \<Rightarrow> node \<Rightarrow> node" where
  "t_logicalExpression op l r = Node ''LogicalExpression'' [(''operator'', Str op)] [(''left'', l), (''right'', r)]"

definition t_numericLiteral :: "string \<Rightarrow> node" where
  "t_numericLiteral raw = Node ''NumericLiteral'' [(''value'', Str raw)] []"

definition t_stringLiteral :: "string \<Rightarrow> node" where
  "t_stringLiteral v = Node ''StringLiteral'' [(''value'', Str v)] []"

definition t_expressionStatement :: "node \<Rightarrow> node" where
  "t_expressionStatement e = Node ''ExpressionStatement'' [] [(''expression'', e)]"

definition t_importDeclaration :: "node \<Rightarrow> node" where
  "t_importDeclaration source = Node ''ImportDeclaration'' [] [(''source'', source)]"

definition t_ifStatement :: "node \<Rightarrow> node \<Rightarrow> node" where
  "t_ifStatement test consequent = Node ''IfStatement'' [] [(''test'', test), (''consequent'', consequent)]"

definition t_staticBlock :: "node list \<Rightarrow> node" where
  "t_staticBlock ss = Node ''StaticBlock'' [] (map (Pair ''body'') ss)"

definition t_classBody :: "node list \<Rightarrow> node" where
  "t_classBody ms = Node ''ClassBody'' [] (map (Pair ''body'') ms)"

definition t_classExpression :: "node option \<Rightarrow> node \<Rightarrow> node" where
  "t_classExpression ident body =
     Node ''ClassExpression'' [] ((case ident of None \<Rightarrow> [] | Some i \<Rightarrow> [(''id'', i)]) @ [(''body'', body)])"

definition t_program :: "node list \<Rightarrow> node" where
  "t_program ss = Node ''Program'' [] (map (Pair ''body'') ss)"

section \<open>Purity analysis: nullary calls\<close>

text \<open>\<^verbatim>\<open>isNullaryCall\<close>, \<^verbatim>\<open>exprContainsNullaryCall\<close> and \<^verbatim>\<open>isPureEnoughInit\<close>
  (lib.js 39-63). The walk visits every node-valued property of every node and stops
  at the first nullary call; its result is the flag \<^verbatim>\<open>bad\<close>.\<close>

definition isNullaryCall :: "node \<Rightarrow> bool" where
  "isNullaryCall n = (isCallExpression n \<and> length (childs n ''arguments'') = 0)"

fun exprContainsNullaryCall :: "node \<Rightarrow> bool" where
  "exprContainsNullaryCall (Node t a ks) =
     (if isNullaryCall (Node t a ks) then True
      else list_ex (\<lambda>kc. exprContainsNullaryCall (snd kc)) ks)"

definition isPureEnoughInit :: "node option \<Rightarrow> bool" where
  "isPureEnoughInit n =
     (case n of None \<Rightarrow> False
      | Some x \<Rightarrow> if exprContainsNullaryCall x then False else True)"

text \<open>Every node of a subtree, the root included, in document order.\<close>

fun subnodes :: "node \<Rightarrow> node list" where
  "subnodes (Node t a ks) = Node t a ks # concat (map (\<lambda>kc. subnodes (snd kc)) ks)"

section \<open>Paths and traversal\<close>

text \<open>
  A path is a node together with the key under which its parent holds it and the
  chain of its ancestors, nearest first. \<^verbatim>\<open>path.traverse(visitor)\<close> of the
  traversal package calls the visitor on every node strictly below \<^verbatim>\<open>path.node\<close>,
  parents before children, in key order; the node of the path itself is not visited.
\<close>

record path =
  node :: node
  key :: string
  parents :: "node list"

fun descend :: "node list \<Rightarrow> node \<Rightarrow> path list" where
  "descend anc (Node t a ks) =
     concat (map (\<lambda>kc. \<lparr>node = snd kc, key = fst kc, parents = Node t a ks # anc\<rparr>
                          # descend (Node t a ks # anc) (snd kc)) ks)"

definition traverse :: "'a path_scheme \<Rightarrow> path list" where
  "traverse p = descend (parents p) (node p)"

definition get :: "'a path_scheme \<Rightarrow> string \<Rightarrow> path option" where
  "get p k = (case child (node p) k of None \<Rightarrow> None
              | Some c \<Rightarrow> Some \<lparr>node = c, key = k, parents = node p # parents p\<rparr>)"

definition nameOf :: "node \<Rightarrow> string" where
  "nameOf n = (case strAttr n ''name'' of Some s \<Rightarrow> s | None \<Rightarrow> ''undefined'')"

text \<open>\<^verbatim>\<open>t.isReferenced(node, parent, grandparent)\<close> of the types package: whether the
  child held under key \<open>k\<close> of \<open>parent\<close> stands in a position that reads a binding.\<close>

definition isReferenced :: "string \<Rightarrow> node \<Rightarrow> node option \<Rightarrow> bool" where
  "isReferenced k parent grand = (let ty = ntype parent in
     if ty \<in> set [''MemberExpression'', ''OptionalMemberExpression''] then
       (if k = ''property'' then boolAttr parent ''computed'' else k = ''object'')
     else if ty = ''JSXMemberExpression'' then k = ''object''
     else if ty = ''VariableDeclarator'' then k = ''init''
     else if ty = ''ArrowFunctionExpression'' then k = ''body''
     else if ty = ''PrivateName'' then False
     else if ty \<in> set [''ClassMethod'', ''ClassPrivateMethod'', ''ObjectMethod''] then
       (if k = ''key'' then boolAttr parent ''computed'' else False)
     else if ty = ''ObjectProperty'' then
       (if k = ''key'' then boolAttr parent ''computed''
        else (case grand of None \<Rightarrow> True | Some g \<Rightarrow> ntype g \<noteq> ''ObjectPattern''))
     else if ty \<in> set [''ClassProperty'', ''ClassAccessorProperty''] then
       (if k = ''key'' then boolAttr parent ''computed'' else True)
     else if ty = ''ClassPrivateProperty'' then k \<noteq> ''key''
     else if ty \<in> set [''ClassDeclaration'', ''ClassExpression''] then k = ''superClass''
     else if ty = ''AssignmentExpression'' then k = ''right''
     else if ty = ''AssignmentPattern'' then k = ''right''
     else if ty \<in> set [''LabeledStatement'', ''CatchClause'', ''RestElement'',
                       ''BreakStatement'', ''ContinueStatement'', ''FunctionDeclaration'',
                       ''FunctionExpression'', ''ExportNamespaceSpecifier'',
                       ''ExportDefaultSpecifier''] then False
     else if ty = ''ExportSpecifier'' then
       (if (case grand of None \<Rightarrow> False | Some g \<Rightarrow> child g ''source'' \<noteq> None) then False
        else k = ''local'')
     else if ty \<in> set [''ImportDefaultSpecifier'', ''ImportNamespaceSpecifier'',
                       ''ImportSpecifier'', ''ImportAttribute'', ''JSXAttribute'',
                       ''ObjectPattern'', ''ArrayPattern'', ''MetaProperty''] then False
     else if ty = ''ObjectTypeProperty'' then k \<noteq> ''key''
     else if ty = ''TSEnumMember'' then k \<noteq> ''id''
     else if ty = ''TSPropertySignature'' then
       (if k = ''key'' then boolAttr parent ''computed'' else True)
     else True)"

text \<open>\<^verbatim>\<open>path.isReferencedIdentifier()\<close>; a path met by a traversal always has a parent.\<close>

definition isReferencedIdentifier :: "'a path_scheme \<Rightarrow> bool" where
  "isReferencedIdentifier p =
     (isIdentifier (node p) \<and>
      (case parents p of [] \<Rightarrow> False
       | par # rest \<Rightarrow> isReferenced (key p) par (case rest of [] \<Rightarrow> None | g # _ \<Rightarrow> Some g)))"

section \<open>Purity analysis: frame-sensitive references\<close>

text \<open>\<^verbatim>\<open>containsFrameSensitiveThings\<close> (lib.js 65-96). The four visitors set the flag
  \<^verbatim>\<open>bad\<close> and stop the traversal; \<open>frameSensitive\<close> is the disjunction of their
  conditions on one visited path.\<close>

definition isThisExpression :: "node \<Rightarrow> bool" where
  "isThisExpression n = (ntype n = ''ThisExpression'')"

definition isSuper :: "node \<Rightarrow> bool" where
  "isSuper n = (ntype n = ''Super'')"

definition isNewTarget :: "node \<Rightarrow> bool" where
  "isNewTarget n =
     (ntype n = ''MetaProperty'' \<and>
      (case child n ''meta'' of None \<Rightarrow> False | Some m \<Rightarrow> isIdentifierNamed ''new'' m) \<and>
      (case child n ''property'' of None \<Rightarrow> False | Some m \<Rightarrow> isIdentifierNamed ''target'' m))"

definition frameSensitive :: "path \<Rightarrow> bool" where
  "frameSensitive q =
     (isThisExpression (node q)
      \<or> (isIdentifier (node q) \<and> nameOf (node q) = ''arguments'' \<and> isReferencedIdentifier q)
      \<or> isSuper (node q)
      \<or> isNewTarget (node q))"

definition containsFrameSensitiveThings :: "'a path_scheme \<Rightarrow> bool" where
  "containsFrameSensitiveThings anyPath = list_ex frameSensitive (traverse anyPath)"

definition isPureEnoughDecl :: "'a path_scheme \<Rightarrow> bool" where
  "isPureEnoughDecl declPath =
     (case get declPath ''init'' of
        None \<Rightarrow> False
      | Some initPath \<Rightarrow>
          if \<not> isPureEnoughInit (Some (node initPath)) then False
          else if containsFrameSensitiveThings initPath then False
          else True)"

section \<open>Free variables\<close>

text \<open>\<^verbatim>\<open>freeVarsOfNode\<close> and \<^verbatim>\<open>freeVarsOfDecl\<close> (lib.js 106-120). The names are
  collected in a \<^verbatim>\<open>Set\<close>, which keeps the first insertion of each name.\<close>

definition setAdd :: "'a list \<Rightarrow> 'a \<Rightarrow> 'a list" where
  "setAdd s x = (if x \<in> set s then s else s @ [x])"

definition freeVarsOfNode :: "'a path_scheme \<Rightarrow> string list" where
  "freeVarsOfNode nodePath =
     foldl setAdd [] (map (\<lambda>q. nameOf (node q)) (filter isReferencedIdentifier (traverse nodePath)))"

definition freeVarsOfDecl :: "'a path_scheme \<Rightarrow> string list" where
  "freeVarsOfDecl declPath =
     (case get declPath ''init'' of None \<Rightarrow> [] | Some initPath \<Rightarrow> freeVarsOfNode initPath)"

section \<open>Scopes and bindings\<close>

text \<open>
  The scope facility is the traversal package's \<^verbatim>\<open>Scope\<close>: every scope has an
  identity (\<^verbatim>\<open>uid\<close>), the node that opens it (\<^verbatim>\<open>block\<close>, the node of
  \<^verbatim>\<open>scope.path\<close>), its own bindings, the global names and generated names recorded on
  it, and a parent link. A scope is given together with its ancestors, so the parent
  chain is finite; two scopes of one chain are the same object exactly when they are
  equal.
\<close>

datatype binding_kind = Var | Let | Const | Module | Hoisted | Param | Local | Unknown

record binding =
  kind :: binding_kind
  referencePaths :: nat

datatype scope = Scope (uid: nat) (block: node) (bindings: "(string \<times> binding) list")
  (globals: "string list") (uids: "string list") (parent: "scope option")

datatype error = NoProgram | TypeError

fun chain :: "scope \<Rightarrow> scope list" where
  "chain (Scope u b bs gs us par) =
     Scope u b bs gs us par # (case par of None \<Rightarrow> [] | Some p \<Rightarrow> chain p)"

definition getOwnBinding :: "scope \<Rightarrow> string \<Rightarrow> binding option" where
  "getOwnBinding s n = map_of (bindings s) n"

definition hasOwnBinding :: "scope \<Rightarrow> string \<Rightarrow> bool" where
  "hasOwnBinding s n = (getOwnBinding s n \<noteq> None)"

definition hasGlobal :: "scope \<Rightarrow> string \<Rightarrow> bool" where
  "hasGlobal s n = list_ex (\<lambda>a. n \<in> set (globals a)) (chain s)"

definition hasUid :: "scope \<Rightarrow> string \<Rightarrow> bool" where
  "hasUid s n = list_ex (\<lambda>a. n \<in> set (uids a)) (chain s)"

text \<open>\<^verbatim>\<open>scope.hasBinding(name)\<close>: an own binding of the scope or of an ancestor, a
  generated name, or one of the names the package treats as always bound
  (\<^verbatim>\<open>Scope.globals\<close> and \<^verbatim>\<open>Scope.contextVariables\<close>), here the parameter \<open>bg\<close>.\<close>

definition hasBinding :: "string list \<Rightarrow> scope \<Rightarrow> string \<Rightarrow> bool" where
  "hasBinding bg s n =
     (if n = [] then False
      else if list_ex (\<lambda>a. hasOwnBinding a n) (chain s) then True
      else if hasUid s n then True
      else n \<in> set bg)"

text \<open>\<^verbatim>\<open>scope.getBinding(name)\<close>: the nearest own binding on the chain, with the scope
  that owns it (\<^verbatim>\<open>binding.scope\<close>). A binding met when coming out of a parameter
  pattern is passed over unless it is a parameter or a function's own name, and the
  search for \<^verbatim>\<open>arguments\<close> ends at the first ordinary function.\<close>

fun getBindingFrom :: "string \<Rightarrow> node option \<Rightarrow> scope list \<Rightarrow> (scope \<times> binding) option" where
  "getBindingFrom n previousPath [] = None"
| "getBindingFrom n previousPath (s # rest) =
     (case getOwnBinding s n of
        Some b \<Rightarrow>
          if (case previousPath of None \<Rightarrow> False | Some pp \<Rightarrow> isPattern pp)
             \<and> kind b \<noteq> Param \<and> kind b \<noteq> Local
          then getBindingFrom n (Some (block s)) rest
          else Some (s, b)
      | None \<Rightarrow>
          if n = ''arguments'' \<and> isFunction (block s) \<and> \<not> isArrowFunctionExpression (block s)
          then None
          else getBindingFrom n (Some (block s)) rest)"

definition getBinding :: "scope \<Rightarrow> string \<Rightarrow> (scope \<times> binding) option" where
  "getBinding s n = getBindingFrom n None (chain s)"

definition getFunctionParent :: "scope \<Rightarrow> scope option" where
  "getFunctionParent s = find (\<lambda>a. isFunctionParent (block a)) (chain s)"

definition getProgramParent :: "scope \<Rightarrow> error + scope" where
  "getProgramParent s =
     (case find (\<lambda>a. isProgram (block a)) (chain s) of
        None \<Rightarrow> Inl NoProgram | Some p \<Rightarrow> Inr p)"

text \<open>The names of the identifier parameters of the function that opens a scope:
  \<^verbatim>\<open>scope.path.node.params\<close> filtered by \<^verbatim>\<open>t.isIdentifier\<close>.\<close>

definition paramNames :: "scope \<Rightarrow> string list" where
  "paramNames s = map nameOf (filter isIdentifier (childs (block s) ''params''))"

section \<open>Scope resolution\<close>

text \<open>\<^verbatim>\<open>outermostScopeWith(allNames, startPath)\<close> (lib.js 122-213); only
  \<^verbatim>\<open>startPath.scope\<close> is consulted, so the use-site is given by its scope.\<close>

text \<open>\<^verbatim>\<open>scope.getFunctionParent() || scope.getProgramParent()\<close>.\<close>

definition enclosingFunctionOrProgram :: "scope \<Rightarrow> error + scope" where
  "enclosingFunctionOrProgram s =
     (case getFunctionParent s of Some f \<Rightarrow> Inr f | None \<Rightarrow> getProgramParent s)"

text \<open>Lines 133-147: the inner loop that looks one name up along the chain.\<close>

definition foundOnChain :: "scope \<Rightarrow> string \<Rightarrow> bool" where
  "foundOnChain start n = list_ex (\<lambda>sc. hasOwnBinding sc n \<or> hasGlobal sc n) (chain start)"

text \<open>Lines 154-163: the next enclosing function or program above \<open>targetScope\<close>.\<close>

definition nextFunctionOrProgram :: "scope \<Rightarrow> scope option" where
  "nextFunctionOrProgram targetScope =
     (case parent targetScope of
        None \<Rightarrow> None
      | Some searchScope \<Rightarrow>
          find (\<lambda>sc. isFunction (block sc) \<or> isProgram (block sc)) (chain searchScope))"

text \<open>Lines 167-206: the body of the loop over the names, for one name.\<close>

definition visibleFrom :: "scope \<Rightarrow> scope \<Rightarrow> string \<Rightarrow> bool" where
  "visibleFrom start parentFunc n =
     (case getBinding start n of
        None \<Rightarrow> hasGlobal parentFunc n
      | Some (bscope, b) \<Rightarrow>
          if list_ex (\<lambda>s. s = bscope) (chain parentFunc) then True
          else if isFunction (block parentFunc) \<and> n \<in> set (paramNames parentFunc) then True
          else hasGlobal parentFunc n)"

definition canHoistToParent :: "string list \<Rightarrow> scope \<Rightarrow> scope \<Rightarrow> bool" where
  "canHoistToParent allNames start parentFunc = list_all (visibleFrom start parentFunc) allNames"

function widen :: "string list \<Rightarrow> scope \<Rightarrow> scope \<Rightarrow> scope" where
  "widen allNames start targetScope =
     (case nextFunctionOrProgram targetScope of
        None \<Rightarrow> targetScope
      | Some parentFunc \<Rightarrow>
          if canHoistToParent allNames start parentFunc
          then widen allNames start parentFunc
          else targetScope)"
  by pat_completeness auto

lemma chain_unfold:
  "chain s = s # (case parent s of None \<Rightarrow> [] | Some p \<Rightarrow> chain p)"
  by (cases s) simp

lemma chain_member_length:
  "a \<in> set (chain s) \<Longrightarrow> length (chain a) \<le> length (chain s)"
proof (induction s rule: chain.induct)
  case (1 u b bs gs us par)
  show ?case
  proof (cases "a = Scope u b bs gs us par")
    case True
    then show ?thesis by simp
  next
    case False
    with "1.prems" obtain p where p: "par = Some p" "a \<in> set (chain p)"
      by (cases par) auto
    with "1.IH" have "length (chain a) \<le> length (chain p)" by simp
    with p show ?thesis by simp
  qed
qed

lemma find_Some_member: "find P xs = Some x \<Longrightarrow> x \<in> set xs \<and> P x"
  by (induction xs) (auto split: if_splits)

lemma nextFunctionOrProgram_shorter:
  assumes "nextFunctionOrProgram t = Some pf"
  shows "length (chain pf) < length (chain t)"
proof -
  from assms obtain p where p: "parent t = Some p"
    and f: "find (\<lambda>sc. isFunction (block sc) \<or> isProgram (block sc)) (chain p) = Some pf"
    by (auto simp: nextFunctionOrProgram_def split: option.splits)
  from f have "pf \<in> set (chain p)" by (simp add: find_Some_member)
  then have "length (chain pf) \<le> length (chain p)" by (rule chain_member_length)
  moreover have "length (chain t) = Suc (length (chain p))"
    using p by (subst chain_unfold) simp
  ultimately show ?thesis by simp
qed

termination widen
  by (relation "measure (\<lambda>(allNames, start, targetScope). length (chain targetScope))")
     (auto simp: nextFunctionOrProgram_shorter)

text \<open>The whole function. The test \<^verbatim>\<open>if (!currentScope) return null\<close> of line 130
  is kept, although \<^verbatim>\<open>getProgramParent\<close> throws rather than return nothing.\<close>

definition outermostScopeWith :: "string list \<Rightarrow> scope \<Rightarrow> error + scope option" where
  "outermostScopeWith allNames start =
     (if length allNames = 0 then
        (case getProgramParent start of Inl e \<Rightarrow> Inl e | Inr p \<Rightarrow> Inr (Some p))
      else
        (case (case enclosingFunctionOrProgram start of
                 Inl e \<Rightarrow> Inl e | Inr c \<Rightarrow> Inr (Some c)) of
           Inl e \<Rightarrow> Inl e
         | Inr None \<Rightarrow> Inr None
         | Inr (Some currentScope) \<Rightarrow>
             if \<not> list_all (foundOnChain start) allNames then Inr (Some currentScope)
             else Inr (Some (widen allNames start currentScope))))"

subsection \<open>The outward walk as the specification words it\<close>

text \<open>The kinds of scopes the specification speaks of, told apart by the node that opens
  the scope: a function scope is opened by a function or a method, the top-level unit
  by the program. The traversal package counts two more kinds of nodes as parents of
  functions: the static block of a class and the block of a TypeScript module.\<close>

definition functionScope :: "scope \<Rightarrow> bool" where
  "functionScope s =
     (ntype (block s) \<in> set [''FunctionDeclaration'', ''FunctionExpression'',
        ''ArrowFunctionExpression'', ''ObjectMethod'', ''ClassMethod'', ''ClassPrivateMethod''])"

definition topLevelScope :: "scope \<Rightarrow> bool" where
  "topLevelScope s = (ntype (block s) = ''Program'')"

definition staticBlockScope :: "scope \<Rightarrow> bool" where
  "staticBlockScope s = (ntype (block s) \<in> set [''StaticBlock'', ''TSModuleBlock''])"

text \<open>The top-level unit of a use-site, and the first candidate of the walk: the nearest
  scope, from the use-site outward, that is of the kind the walk starts at, or the
  top-level unit when there is none.\<close>

definition topLevelUnit :: "scope \<Rightarrow> error + scope" where
  "topLevelUnit useSite =
     (case find topLevelScope (chain useSite) of None \<Rightarrow> Inl NoProgram | Some p \<Rightarrow> Inr p)"

definition firstCandidate :: "(scope \<Rightarrow> bool) \<Rightarrow> scope \<Rightarrow> error + scope" where
  "firstCandidate startsAt useSite =
     (case find startsAt (chain useSite) of None \<Rightarrow> topLevelUnit useSite | Some f \<Rightarrow> Inr f)"

text \<open>The scopes the walk may widen to, nearest first: the function scopes and the
  top-level unit strictly above the first candidate.\<close>

definition widerCandidates :: "scope \<Rightarrow> scope list" where
  "widerCandidates c = filter (\<lambda>sc. functionScope sc \<or> topLevelScope sc) (tl (chain c))"

text \<open>A name is a parameter of the function of a scope: one of the function's
  parameters is the identifier of that name.\<close>

definition parameterOf :: "scope \<Rightarrow> string \<Rightarrow> bool" where
  "parameterOf wider n =
     (functionScope wider
      \<and> list_ex (\<lambda>p. ntype p = ''Identifier'' \<and> nameOf p = n) (childs (block wider) ''params''))"

text \<open>A name is resolvable from the use-site: some scope from the use-site outward has
  it as an own binding or sees it as a global.\<close>

definition resolvable :: "scope \<Rightarrow> string \<Rightarrow> bool" where
  "resolvable useSite n = list_ex (\<lambda>s. hasOwnBinding s n \<or> hasGlobal s n) (chain useSite)"

text \<open>The acceptance test of one widening: for every free variable, the binding
  resolved from the use-site is owned by the wider scope or an ancestor of it, or the
  name is a parameter of the wider scope's function, or the wider scope sees the name
  as a global.\<close>

definition acceptsWidening :: "string list \<Rightarrow> scope \<Rightarrow> scope \<Rightarrow> bool" where
  "acceptsWidening freeVars useSite wider =
     list_all (\<lambda>n.
        (case getBinding useSite n of None \<Rightarrow> False | Some (owner, b) \<Rightarrow> owner \<in> set (chain wider))
        \<or> parameterOf wider n
        \<or> hasGlobal wider n) freeVars"

text \<open>The walk: the top-level unit for an empty set of free variables; otherwise the
  last scope of the longest run of accepted widenings from the first candidate.\<close>

definition resolveFrom :: "(scope \<Rightarrow> bool) \<Rightarrow> string list \<Rightarrow> scope \<Rightarrow> error + scope option" where
  "resolveFrom startsAt freeVars useSite =
     (if freeVars = [] then map_sum id Some (topLevelUnit useSite)
      else map_sum id
             (\<lambda>c. Some (last (c # takeWhile (acceptsWidening freeVars useSite) (widerCandidates c))))
             (firstCandidate startsAt useSite))"

text \<open>The walk of the specification starts at the nearest enclosing function scope.\<close>

definition resolveSpec :: "string list \<Rightarrow> scope \<Rightarrow> error + scope option" where
  "resolveSpec freeVars useSite = resolveFrom functionScope freeVars useSite"

text \<open>The walk that starts at the nearest enclosing function scope, static block or
  module block.\<close>

definition resolveAmended :: "string list \<Rightarrow> scope \<Rightarrow> error + scope option" where
  "resolveAmended freeVars useSite =
     resolveFrom (\<lambda>s. functionScope s \<or> staticBlockScope s) freeVars useSite"

text \<open>An invariant of the scope facility: every parameter of a function that is an
  identifier is registered as a binding of kind \<open>Param\<close> in the scope the function
  opens.\<close>

definition paramsRegistered :: "scope \<Rightarrow> bool" where
  "paramsRegistered useSite =
     list_all (\<lambda>s. functionScope s \<longrightarrow>
                 list_all (\<lambda>p. ntype p = ''Identifier'' \<longrightarrow>
                             (case getOwnBinding s (nameOf p) of
                                None \<Rightarrow> False | Some b \<Rightarrow> kind b = Param))
                          (childs (block s) ''params''))
              (chain useSite)"

text \<open>A use-site that lies in no static block of a class and in no module block.\<close>

definition outsideStaticBlocks :: "scope \<Rightarrow> bool" where
  "outsideStaticBlocks useSite = list_all (\<lambda>s. \<not> staticBlockScope s) (chain useSite)"


subsection \<open>Notions of the specification about subtrees\<close>

text \<open>The ancestors of a visited path that lie inside the traversed subtree, strictly
  below its root.\<close>

definition innerAncestors :: "'a path_scheme \<Rightarrow> path \<Rightarrow> node list" where
  "innerAncestors root q = take (length (parents q) - Suc (length (parents root))) (parents q)"

definition isOrdinaryFunction :: "node \<Rightarrow> bool" where
  "isOrdinaryFunction n = (isFunction n \<and> \<not> isArrowFunctionExpression n)"

text \<open>Every frame-sensitive reference of the subtree lies inside a nested ordinary
  function of the subtree, and there is such a reference.\<close>

definition onlyInsideOrdinaryFunctions :: "'a path_scheme \<Rightarrow> bool" where
  "onlyInsideOrdinaryFunctions root =
     (filter frameSensitive (traverse root) \<noteq> []
      \<and> list_all (\<lambda>q. list_ex isOrdinaryFunction (innerAncestors root q))
           (filter frameSensitive (traverse root)))"

text \<open>The names a subtree binds itself: the parameters and names of its functions and
  the names its declarators declare.\<close>

definition bindsNames :: "node \<Rightarrow> string list" where
  "bindsNames d =
     (if isFunction d then
        map nameOf (filter isIdentifier (childs d ''params''))
        @ (case child d ''id'' of None \<Rightarrow> [] | Some i \<Rightarrow> [nameOf i])
      else if isVariableDeclarator d then
        (case child d ''id'' of None \<Rightarrow> [] | Some i \<Rightarrow> if isIdentifier i then [nameOf i] else [])
      else [])"

definition namesBoundWithin :: "node \<Rightarrow> string list" where
  "namesBoundWithin n = concat (map bindsNames (subnodes n))"


section \<open>Name allocation\<close>

text \<open>\<^verbatim>\<open>sanitizeBase\<close> (lib.js 215-219): every character outside
  \<^verbatim>\<open>[A-Za-z0-9_$]\<close> becomes an underscore; an empty result becomes \<^verbatim>\<open>fb\<close>.\<close>

definition isDigit :: "char \<Rightarrow> bool" where
  "isDigit c = (48 \<le> (of_char c :: nat) \<and> (of_char c :: nat) \<le> 57)"

definition isIdentChar :: "char \<Rightarrow> bool" where
  "isIdentChar c = (let n = (of_char c :: nat) in
     (65 \<le> n \<and> n \<le> 90) \<or> (97 \<le> n \<and> n \<le> 122) \<or> (48 \<le> n \<and> n \<le> 57)
     \<or> c = CHR ''_'' \<or> c = CHR ''$'')"

definition sanitizeBase :: "string \<Rightarrow> string" where
  "sanitizeBase base =
     (let cleaned = map (\<lambda>c. if isIdentChar c then c else CHR ''_'') base
      in if cleaned = [] then ''fb'' else cleaned)"

text \<open>The decimal numeral of a number, as a template string renders it.\<close>

definition digitChar :: "nat \<Rightarrow> char" where
  "digitChar d = char_of (48 + d)"

fun decimal :: "nat \<Rightarrow> string" where
  "decimal n = (if n < 10 then [digitChar n] else decimal (n div 10) @ [digitChar (n mod 10)])"

declare decimal.simps [simp del]

text \<open>The reserved-names table \<^verbatim>\<open>RESERVED_NAMES\<close>: a weak map from scope objects,
  here from their identities, to sets of names (lib.js 10-19).\<close>

type_synonym reserved = "nat \<Rightarrow> string list option"

definition getReserved :: "reserved \<Rightarrow> scope \<Rightarrow> string list \<times> reserved" where
  "getReserved R sc =
     (case R (uid sc) of
        Some s \<Rightarrow> (s, R)
      | None \<Rightarrow> (let s = foldl setAdd [] (map fst (bindings sc)) in (s, R(uid sc \<mapsto> s))))"

definition isReserved :: "reserved \<Rightarrow> scope \<Rightarrow> string \<Rightarrow> bool" where
  "isReserved R sc n = (case R (uid sc) of None \<Rightarrow> False | Some s \<Rightarrow> n \<in> set s)"

text \<open>The closure \<^verbatim>\<open>taken\<close> of \<^verbatim>\<open>makeUniqueFbName\<close> (lib.js 229-246).\<close>

definition taken :: "string list \<Rightarrow> reserved \<Rightarrow> scope \<Rightarrow> scope \<Rightarrow> string \<Rightarrow> bool" where
  "taken bg R targetScope useSite n =
     (if list_ex (\<lambda>s. isReserved R s n \<or> hasBinding bg s n \<or> hasGlobal s n) (chain targetScope)
      then True
      else list_ex (\<lambda>u. isReserved R u n \<or> hasOwnBinding u n)
             (takeWhile (\<lambda>u. u \<noteq> targetScope) (chain useSite)))"

text \<open>The loop \<^verbatim>\<open>while (taken(`${base}__fb_${i}`)) i++\<close> (line 256).\<close>

partial_function (option) firstUntaken :: "(string \<Rightarrow> bool) \<Rightarrow> string \<Rightarrow> nat \<Rightarrow> nat option" where
  "firstUntaken tk base i =
     (if tk (base @ ''__fb_'' @ decimal i) then firstUntaken tk base (Suc i) else Some i)"

definition makeUniqueFbName ::
  "string list \<Rightarrow> reserved \<Rightarrow> string \<Rightarrow> scope \<Rightarrow> scope \<Rightarrow> (string \<times> reserved) option" where
  "makeUniqueFbName bg R base0 targetScope useSite =
     (let base = sanitizeBase base0;
          (reserved, R1) = getReserved R targetScope;
          tk = taken bg R1 targetScope useSite;
          name = base @ ''__fb''
      in if \<not> tk name then Some (name, R1(uid targetScope \<mapsto> setAdd reserved name))
         else (case firstUntaken tk base 1 of
                 None \<Rightarrow> None
               | Some i \<Rightarrow>
                   (let name = base @ ''__fb_'' @ decimal i
                    in Some (name, R1(uid targetScope \<mapsto> setAdd reserved name)))))"

text \<open>\<^verbatim>\<open>deriveBaseFromCall\<close> (lib.js 262-275).\<close>

fun joinWith :: "string \<Rightarrow> string list \<Rightarrow> string" where
  "joinWith sep [] = []"
| "joinWith sep [x] = x"
| "joinWith sep (x # y # ys) = x @ sep @ joinWith sep (y # ys)"

definition deriveBaseFromCall :: "node \<Rightarrow> string" where
  "deriveBaseFromCall n =
     (let base =
        (case child n ''callee'' of
           None \<Rightarrow> ''fb''
         | Some callee \<Rightarrow>
             if isIdentifier callee then nameOf callee
             else if isCallExpression callee
                     \<and> (case child callee ''callee'' of None \<Rightarrow> False | Some c \<Rightarrow> isIdentifier c)
             then (case child callee ''callee'' of None \<Rightarrow> ''fb'' | Some c \<Rightarrow> nameOf c)
             else ''fb'');
          argNames = joinWith ''_''
             (filter (\<lambda>a. a \<noteq> []) (map nameOf (filter isIdentifier (childs n ''arguments''))))
      in sanitizeBase (if argNames \<noteq> [] then base @ ''_'' @ argNames else base))"

text \<open>The candidate names in the order they are tried: index 0 is \<^verbatim>\<open><base>__fb\<close>,
  index \<open>i > 0\<close> is \<^verbatim>\<open><base>__fb_<i>\<close>.\<close>

definition fbCandidate :: "string \<Rightarrow> nat \<Rightarrow> string" where
  "fbCandidate base i = (if i = 0 then base @ ''__fb'' else base @ ''__fb_'' @ decimal i)"




section \<open>Insertion of the hoisted declaration\<close>

definition setChild :: "node \<Rightarrow> string \<Rightarrow> node \<Rightarrow> node" where
  "setChild n k c =
     Node (ntype n) (attrs n)
       (if k \<in> fst ` set (kids n)
        then map (\<lambda>kc. if fst kc = k then (k, c) else kc) (kids n)
        else kids n @ [(k, c)])"

definition setBody :: "node \<Rightarrow> node list \<Rightarrow> node" where
  "setBody n ss =
     Node (ntype n) (attrs n) (filter (\<lambda>kc. fst kc \<noteq> ''body'') (kids n) @ map (Pair ''body'') ss)"

text \<open>\<^verbatim>\<open>ensureArrowBlock\<close> (lib.js 277-282).\<close>

definition ensureArrowBlock :: "node \<Rightarrow> node" where
  "ensureArrowBlock f =
     (if isArrowFunctionExpression f
         \<and> \<not> (case child f ''body'' of None \<Rightarrow> False | Some b \<Rightarrow> isBlockStatement b)
      then setChild f ''body'' (t_blockStatement [t_returnStatement (child f ''body'')])
      else f)"

text \<open>\<^verbatim>\<open>insertAfterPrologueAndImports\<close> (lib.js 300-325) on the statement list of the
  container. \<open>scanAnchor\<close> is the loop: it returns the position of the last statement
  that set \<^verbatim>\<open>anchor\<close>, if any.\<close>

definition isStringStatement :: "node \<Rightarrow> bool" where
  "isStringStatement p =
     (isExpressionStatement p
      \<and> (case child p ''expression'' of None \<Rightarrow> False | Some e \<Rightarrow> isStringLiteral e))"

fun scanAnchor :: "bool \<Rightarrow> node list \<Rightarrow> nat \<Rightarrow> nat option \<Rightarrow> nat option" where
  "scanAnchor isProg [] i anchor = anchor"
| "scanAnchor isProg (p # ps) i anchor =
     (if isProg \<and> isImportDeclaration p then scanAnchor isProg ps (Suc i) (Some i)
      else if isStringStatement p then scanAnchor isProg ps (Suc i) (Some i)
      else anchor)"

definition insertAfterPrologueAndImports :: "bool \<Rightarrow> node list \<Rightarrow> node \<Rightarrow> node list" where
  "insertAfterPrologueAndImports isProg body nodeToInsert =
     (case scanAnchor isProg body 0 None of
        Some i \<Rightarrow> take (Suc i) body @ nodeToInsert # drop (Suc i) body
      | None \<Rightarrow> nodeToInsert # body)"

text \<open>\<^verbatim>\<open>getHoistInsertionPath\<close> (lib.js 284-298) followed by the insertion of the
  visitors (lines 516-522), on the node that opens the target scope. The result is that
  node after the insertion; \<open>OutsideTarget\<close> stands for the fall-back of lines 295-297
  and 520-521, whose container is not part of the target's node.\<close>

datatype insertion = Inserted node | OutsideTarget

definition insertHoisted :: "node \<Rightarrow> node \<Rightarrow> insertion" where
  "insertHoisted blk decl =
     (if isProgram blk then
        Inserted (setBody blk (insertAfterPrologueAndImports True (childs blk ''body'') decl))
      else if isFunction blk then
        (let f = (if (case child blk ''body'' of None \<Rightarrow> False | Some b \<Rightarrow> isBlockStatement b)
                  then blk else ensureArrowBlock blk)
         in case child f ''body'' of
              None \<Rightarrow> OutsideTarget
            | Some b \<Rightarrow>
                if isBlockStatement b
                then Inserted (setChild f ''body''
                       (setBody b (insertAfterPrologueAndImports False (childs b ''body'') decl)))
                else OutsideTarget)
      else OutsideTarget)"

text \<open>The leading statements after which the declaration goes, as the specification
  words it: import-like statements and literal-only directive statements.\<close>

definition leadingAnchor :: "node \<Rightarrow> bool" where
  "leadingAnchor p = (isImportDeclaration p \<or> isStringStatement p)"


section \<open>The runtime helper\<close>











section \<open>The transform driver\<close>

text \<open>
  A path handed to a visitor carries, besides the node and its ancestors, the identity
  of the node object and of its parent's node object (the marker set \<^verbatim>\<open>GENERATED\<close>
  holds objects), and the scope \<^verbatim>\<open>path.scope\<close>. The state of one run is the marker
  set, the reserved-names table, the helper name stored on the program, and a supply
  of identities for the node objects the run creates.
\<close>

record vpath = path +
  node_id :: nat
  parent_id :: nat
  scope :: scope

record runstate =
  GENERATED :: "nat list"
  RESERVED_NAMES :: reserved
  fbHelperName :: "string option"
  nextId :: nat

text \<open>\<^verbatim>\<open>getHelperName\<close> (lib.js 25-32): the program path is the given path itself
  when that is the program, and is looked up among the ancestors otherwise; reading
  its data fails when there is none.\<close>

definition helperName :: "runstate \<Rightarrow> string" where
  "helperName st =
     (case fbHelperName st of
        None \<Rightarrow> ''floatedBinding''
      | Some h \<Rightarrow> if h = [] then ''floatedBinding'' else h)"

definition getHelperName :: "runstate \<Rightarrow> vpath \<Rightarrow> error + string" where
  "getHelperName st p =
     (if isProgram (node p) \<or> list_ex isProgram (parents p) then Inr (helperName st)
      else Inl TypeError)"

text \<open>\<^verbatim>\<open>isInFloatedBinding\<close> (lib.js 327-332).\<close>

definition isHelperCall :: "string \<Rightarrow> node \<Rightarrow> bool" where
  "isHelperCall h n =
     (isCallExpression n
      \<and> (case child n ''callee'' of None \<Rightarrow> False | Some c \<Rightarrow> isIdentifierNamed h c))"

definition isInFloatedBinding :: "runstate \<Rightarrow> vpath \<Rightarrow> error + bool" where
  "isInFloatedBinding st p =
     (case getHelperName st p of
        Inl e \<Rightarrow> Inl e
      | Inr h \<Rightarrow> Inr (list_ex (isHelperCall h) (parents p)))"

text \<open>The test \<^verbatim>\<open>/__fb(_\d+)?$/\<close> of line 462, read from the end of the name.\<close>

definition fbThunkName :: "string \<Rightarrow> bool" where
  "fbThunkName s =
     (let r = rev s; ds = takeWhile isDigit r; rest = dropWhile isDigit r
      in take 4 r = ''bf__'' \<or> (ds \<noteq> [] \<and> take 5 rest = ''_bf__''))"

text \<open>Lines 490-496.\<close>

definition dependsOnLocalVar :: "scope \<Rightarrow> string list \<Rightarrow> bool" where
  "dependsOnLocalVar sc fvs =
     list_ex (\<lambda>n. case getBinding sc n of
                     None \<Rightarrow> False
                   | Some (owner, b) \<Rightarrow>
                       if kind b = Param then False
                       else if kind b = Var \<or> kind b = Let \<or> kind b = Const then True
                       else False) fvs"

text \<open>What a visitor decides about the node it is called on, before it changes
  anything: the node is no candidate (the visitor returns before the purity analysis),
  it is a candidate that is analysed and left as it is, or it is to be floated to a
  target scope.\<close>

datatype analysis = NotCandidate | Rejected | Accept scope

text \<open>The \<^verbatim>\<open>CallExpression\<close> visitor up to line 497.\<close>

definition CallExpression_analysis :: "runstate \<Rightarrow> vpath \<Rightarrow> error + analysis" where
  "CallExpression_analysis st p =
     (if node_id p \<in> set (GENERATED st) then Inr NotCandidate
      else if (case child (node p) ''callee'' of
                 None \<Rightarrow> False | Some c \<Rightarrow> isIdentifier c \<and> fbThunkName (nameOf c))
      then Inr NotCandidate
      else
        (case getHelperName st p of
           Inl e \<Rightarrow> Inl e
         | Inr h \<Rightarrow>
             if (case child (node p) ''callee'' of
                   None \<Rightarrow> False | Some c \<Rightarrow> isIdentifier c \<and> nameOf c = h)
             then Inr NotCandidate
             else if list_ex (isHelperCall h) (parents p) then Inr NotCandidate
             else if \<not> list_ex isFunction (parents p) then Inr NotCandidate
             else if (case parents p of [] \<Rightarrow> False
                      | par # rest \<Rightarrow> isVariableDeclarator par \<and> key p = ''init'')
             then Inr NotCandidate
             else if \<not> isPureEnoughInit (Some (node p)) then Inr Rejected
             else if containsFrameSensitiveThings p then Inr Rejected
             else
               (let fvs = freeVarsOfNode p in
                case outermostScopeWith fvs (scope p) of
                  Inl e \<Rightarrow> Inl e
                | Inr None \<Rightarrow> Inr Rejected
                | Inr (Some targetScope) \<Rightarrow>
                    (case enclosingFunctionOrProgram (scope p) of
                       Inl e \<Rightarrow> Inl e
                     | Inr currentScope \<Rightarrow>
                         if targetScope = currentScope then Inr Rejected
                         else if dependsOnLocalVar (scope p) fvs then Inr Rejected
                         else Inr (Accept targetScope)))))"

text \<open>The \<^verbatim>\<open>VariableDeclarator\<close> visitor up to line 565.\<close>

definition declaredName :: "node \<Rightarrow> string" where
  "declaredName d = (case child d ''id'' of None \<Rightarrow> ''undefined'' | Some i \<Rightarrow> nameOf i)"

definition VariableDeclarator_analysis :: "runstate \<Rightarrow> vpath \<Rightarrow> error + analysis" where
  "VariableDeclarator_analysis st p =
     (case parents p of
        [] \<Rightarrow> Inl TypeError
      | vd # rest \<Rightarrow>
          if \<not> (case child (node p) ''id'' of None \<Rightarrow> False | Some i \<Rightarrow> isIdentifier i)
          then Inr NotCandidate
          else if \<not> isVariableDeclaration vd then Inr NotCandidate
          else if \<not> (strAttr vd ''kind'' = Some ''const'' \<or> strAttr vd ''kind'' = Some ''let''
                      \<or> strAttr vd ''kind'' = Some ''var'')
          then Inr NotCandidate
          else if node_id p \<in> set (GENERATED st) \<or> parent_id p \<in> set (GENERATED st)
          then Inr NotCandidate
          else if \<not> list_ex isFunction (parents p) then Inr NotCandidate
          else
            (case child (node p) ''init'' of
               None \<Rightarrow> Inr NotCandidate
             | Some init \<Rightarrow>
                 if \<not> isPureEnoughDecl p then Inr Rejected
                 else
                   (case getBinding (scope p) (declaredName (node p)) of
                      None \<Rightarrow> Inr Rejected
                    | Some (owner, b) \<Rightarrow>
                        if referencePaths b < 1 then Inr Rejected
                        else
                          (let fvs = freeVarsOfDecl p in
                           if length fvs = 0 \<and> \<not> isLiteral init then Inr Rejected
                           else
                             (case outermostScopeWith fvs (scope p) of
                                Inl e \<Rightarrow> Inl e
                              | Inr None \<Rightarrow> Inr Rejected
                              | Inr (Some targetScope) \<Rightarrow>
                                  (case enclosingFunctionOrProgram (scope p) of
                                     Inl e \<Rightarrow> Inl e
                                   | Inr currentScope \<Rightarrow>
                                       if targetScope = currentScope then Inr Rejected
                                       else Inr (Accept targetScope)))))))"

text \<open>The hoist itself (lines 499-528 and 567-595): the name, the declaration
  \<^verbatim>\<open>const <name> = <helper>(() => <copy>)\<close>, its insertion into the target, and the
  call \<^verbatim>\<open><name>()\<close> that replaces the original expression. The deep copy of a node
  is a new object with the same content; the copy, the declaration and the
  replacement call are the three objects added to \<^verbatim>\<open>GENERATED\<close>. The name of
  the helper is the one stored on the program (\<^verbatim>\<open>getHelperId\<close>, lines 509 and 576);
  the traversal hands the visitors only paths below the program, and the hoist reads
  the name from the state of the run.\<close>

record hoist =
  targetScope :: scope
  fbName :: string
  cloned :: node
  fbDecl :: node
  inserted :: insertion
  fbCall :: node

definition fbDeclaration :: "string \<Rightarrow> string \<Rightarrow> node \<Rightarrow> node" where
  "fbDeclaration helper name expr =
     t_variableDeclaration ''const''
       [t_variableDeclarator (t_identifier name)
          (Some (t_callExpression (t_identifier helper) [t_arrowFunctionExpression [] expr]))]"

definition performHoist ::
  "string list \<Rightarrow> runstate \<Rightarrow> string \<Rightarrow> node \<Rightarrow> scope \<Rightarrow> scope \<Rightarrow> (hoist \<times> runstate) option" where
  "performHoist bg st base expr target useSite =
     (case makeUniqueFbName bg (RESERVED_NAMES st) base target useSite of
        None \<Rightarrow> None
      | Some (name, R') \<Rightarrow>
          (let fbId = t_identifier name;
               decl = fbDeclaration (helperName st) name expr
           in Some (\<lparr>targetScope = target, fbName = name, cloned = expr, fbDecl = decl,
                      inserted = insertHoisted (block target) decl,
                      fbCall = t_callExpression fbId []\<rparr>,
                    st\<lparr>GENERATED := GENERATED st @ [nextId st, nextId st + 1, nextId st + 2],
                       RESERVED_NAMES := R', nextId := nextId st + 3\<rparr>)))"

datatype verdict = Skipped | Untouched | Floated hoist

definition visitCallExpression ::
  "string list \<Rightarrow> runstate \<Rightarrow> vpath \<Rightarrow> (error + verdict \<times> runstate) option" where
  "visitCallExpression bg st p =
     (case CallExpression_analysis st p of
        Inl e \<Rightarrow> Some (Inl e)
      | Inr NotCandidate \<Rightarrow> Some (Inr (Skipped, st))
      | Inr Rejected \<Rightarrow> Some (Inr (Untouched, st))
      | Inr (Accept target) \<Rightarrow>
          (case performHoist bg st (deriveBaseFromCall (node p)) (node p) target (scope p) of
             None \<Rightarrow> None
           | Some (h, st') \<Rightarrow> Some (Inr (Floated h, st'))))"

definition visitVariableDeclarator ::
  "string list \<Rightarrow> runstate \<Rightarrow> vpath \<Rightarrow> (error + verdict \<times> runstate) option" where
  "visitVariableDeclarator bg st p =
     (case VariableDeclarator_analysis st p of
        Inl e \<Rightarrow> Some (Inl e)
      | Inr NotCandidate \<Rightarrow> Some (Inr (Skipped, st))
      | Inr Rejected \<Rightarrow> Some (Inr (Untouched, st))
      | Inr (Accept target) \<Rightarrow>
          (case child (node p) ''init'' of
             None \<Rightarrow> Some (Inr (Untouched, st))
           | Some init \<Rightarrow>
               (case performHoist bg st (declaredName (node p)) init target (scope p) of
                  None \<Rightarrow> None
                | Some (h, st') \<Rightarrow> Some (Inr (Floated h, st')))))"


subsection \<open>Candidates\<close>

text \<open>A bare call-expression candidate (lines 459-474): a call that is not marked as
  generated, is no call of a hoisted accessor or of the helper, does not lie inside a
  call of the helper, lies inside a function, and is not the initializer of a
  declarator. The name of the helper is read from the program the call belongs to.\<close>

definition bareCallCandidate :: "runstate \<Rightarrow> vpath \<Rightarrow> bool" where
  "bareCallCandidate st p =
     (node_id p \<notin> set (GENERATED st)
      \<and> \<not> (case child (node p) ''callee'' of
               None \<Rightarrow> False | Some c \<Rightarrow> isIdentifier c \<and> fbThunkName (nameOf c))
      \<and> (isProgram (node p) \<or> list_ex isProgram (parents p))
      \<and> \<not> (case child (node p) ''callee'' of
               None \<Rightarrow> False | Some c \<Rightarrow> isIdentifier c \<and> nameOf c = helperName st)
      \<and> \<not> list_ex (isHelperCall (helperName st)) (parents p)
      \<and> list_ex isFunction (parents p)
      \<and> \<not> (case parents p of [] \<Rightarrow> False
               | par # rest \<Rightarrow> isVariableDeclarator par \<and> key p = ''init''))"

text \<open>A declaration candidate (lines 533-542): a declarator with an identifier as its
  name and with an initializer, in a \<^verbatim>\<open>var\<close>, \<^verbatim>\<open>let\<close> or \<^verbatim>\<open>const\<close> declaration
  inside a function, neither of them marked as generated.\<close>

definition declarationCandidate :: "runstate \<Rightarrow> vpath \<Rightarrow> bool" where
  "declarationCandidate st p =
     (case parents p of
        [] \<Rightarrow> False
      | vd # rest \<Rightarrow>
          (case child (node p) ''id'' of None \<Rightarrow> False | Some i \<Rightarrow> isIdentifier i)
          \<and> isVariableDeclaration vd
          \<and> (strAttr vd ''kind'' = Some ''const'' \<or> strAttr vd ''kind'' = Some ''let''
               \<or> strAttr vd ''kind'' = Some ''var'')
          \<and> node_id p \<notin> set (GENERATED st) \<and> parent_id p \<notin> set (GENERATED st)
          \<and> list_ex isFunction (parents p)
          \<and> child (node p) ''init'' \<noteq> None)"

text \<open>The three checks every candidate goes through: the purity analysis, the scope
  resolution, and the test that the target differs from the current scope. The
  result is the target.\<close>

definition passesChecks :: "bool \<Rightarrow> string list \<Rightarrow> scope \<Rightarrow> scope \<Rightarrow> bool" where
  "passesChecks pure fvs useSite target =
     (pure
      \<and> outermostScopeWith fvs useSite = Inr (Some target)
      \<and> (case enclosingFunctionOrProgram useSite of
            Inl e \<Rightarrow> False | Inr currentScope \<Rightarrow> target \<noteq> currentScope))"

definition floats :: "(error + verdict \<times> runstate) option \<Rightarrow> bool" where
  "floats r = (case r of Some (Inr (Floated h, st')) \<Rightarrow> True | _ \<Rightarrow> False)"

text \<open>A free variable resolves, from the use-site, to a binding of kind \<^verbatim>\<open>var\<close>,
  \<^verbatim>\<open>let\<close> or \<^verbatim>\<open>const\<close>, wherever that binding lives.\<close>

definition resolvesToVariable :: "scope \<Rightarrow> string \<Rightarrow> bool" where
  "resolvesToVariable sc n =
     (case getBinding sc n of
        None \<Rightarrow> False
      | Some (owner, b) \<Rightarrow> kind b = Var \<or> kind b = Let \<or> kind b = Const)"

text \<open>The same, restricted to the bindings of the current enclosing function: the
  function (or program) that encloses the owner of the binding is the one that
  encloses the use-site.\<close>

definition resolvesToLocalVariable :: "scope \<Rightarrow> string \<Rightarrow> bool" where
  "resolvesToLocalVariable sc n =
     (case getBinding sc n of
        None \<Rightarrow> False
      | Some (owner, b) \<Rightarrow>
          (kind b = Var \<or> kind b = Let \<or> kind b = Const)
          \<and> enclosingFunctionOrProgram owner = enclosingFunctionOrProgram sc)"

definition declaredNameReferenced :: "vpath \<Rightarrow> bool" where
  "declaredNameReferenced p =
     (case getBinding (scope p) (declaredName (node p)) of
        None \<Rightarrow> False
      | Some (owner, b) \<Rightarrow> 1 \<le> referencePaths b)"

definition initIsLiteral :: "vpath \<Rightarrow> bool" where
  "initIsLiteral p = (case child (node p) ''init'' of None \<Rightarrow> False | Some i \<Rightarrow> isLiteral i)"

section \<open>Example inputs\<close>

text \<open>The call \<^verbatim>\<open>f(function () { return this; })\<close>, as the path of the visitor's node
  inside \<^verbatim>\<open>return f(...)\<close>.\<close>

definition thisInsideFunction :: path where
  "thisInsideFunction =
     \<lparr>node = t_callExpression (t_identifier ''f'')
               [t_functionExpression None []
                  (t_blockStatement [t_returnStatement (Some t_thisExpression)])],
      key = ''argument'',
      parents = []\<rparr>"

text \<open>The call \<^verbatim>\<open>f(function (a) { return a; })\<close>.\<close>

definition identityArgument :: path where
  "identityArgument =
     \<lparr>node = t_callExpression (t_identifier ''f'')
               [t_functionExpression None [t_identifier ''a'']
                  (t_blockStatement [t_returnStatement (Some (t_identifier ''a''))])],
      key = ''argument'',
      parents = []\<rparr>"

text \<open>The declarator \<^verbatim>\<open>x = x || y\<close> of \<^verbatim>\<open>var x = x || y\<close>.\<close>

definition selfReference :: path where
  "selfReference =
     \<lparr>node = t_variableDeclarator (t_identifier ''x'')
               (Some (t_logicalExpression ''||'' (t_identifier ''x'') (t_identifier ''y''))),
      key = ''declarations'',
      parents = []\<rparr>"

text \<open>
  The program of \<^verbatim>\<open>test_data/3/in.js\<close>:
  \<^verbatim>\<open>function add(x) { return function (y) { return x + y } }
function main(x) { return function (y) { return function (z) { return (add(x)(y)) + z } } }\<close>
  with the scopes of \<^verbatim>\<open>main\<close> and of its two nested functions, and the path of the
  call \<^verbatim>\<open>add(x)(y)\<close>. The state is the one after the helper was injected.
\<close>

definition addXY :: node where
  "addXY = t_callExpression (t_callExpression (t_identifier ''add'') [t_identifier ''x''])
             [t_identifier ''y'']"

definition sumZ :: node where
  "sumZ = t_binaryExpression ''+'' addXY (t_identifier ''z'')"

definition fnZ :: node where
  "fnZ = t_functionExpression None [t_identifier ''z'']
           (t_blockStatement [t_returnStatement (Some sumZ)])"

definition fnY :: node where
  "fnY = t_functionExpression None [t_identifier ''y'']
           (t_blockStatement [t_returnStatement (Some fnZ)])"

definition fnMain :: node where
  "fnMain = t_functionDeclaration (t_identifier ''main'') [t_identifier ''x'']
              (t_blockStatement [t_returnStatement (Some fnY)])"

definition fnAdd :: node where
  "fnAdd = t_functionDeclaration (t_identifier ''add'') [t_identifier ''x'']
             (t_blockStatement [t_returnStatement (Some
                (t_functionExpression None [t_identifier ''y'']
                   (t_blockStatement [t_returnStatement (Some
                      (t_binaryExpression ''+'' (t_identifier ''x'') (t_identifier ''y'')))])))])"

definition prog3 :: node where
  "prog3 = t_program [fnAdd, fnMain]"

definition scProgram :: scope where
  "scProgram = Scope 0 prog3
     [(''add'', \<lparr>kind = Hoisted, referencePaths = 1\<rparr>),
      (''main'', \<lparr>kind = Hoisted, referencePaths = 0\<rparr>)] [] [] None"

definition scMain :: scope where
  "scMain = Scope 1 fnMain [(''x'', \<lparr>kind = Param, referencePaths = 1\<rparr>)] [] [] (Some scProgram)"

definition scY :: scope where
  "scY = Scope 2 fnY [(''y'', \<lparr>kind = Param, referencePaths = 1\<rparr>)] [] [] (Some scMain)"

definition scZ :: scope where
  "scZ = Scope 3 fnZ [(''z'', \<lparr>kind = Param, referencePaths = 1\<rparr>)] [] [] (Some scY)"

definition addXYPath :: vpath where
  "addXYPath =
     \<lparr>node = addXY, key = ''left'',
      parents = [sumZ, t_returnStatement (Some sumZ), t_blockStatement [t_returnStatement (Some sumZ)],
                 fnZ, t_returnStatement (Some fnZ), t_blockStatement [t_returnStatement (Some fnZ)],
                 fnY, t_returnStatement (Some fnY), t_blockStatement [t_returnStatement (Some fnY)],
                 fnMain, prog3],
      node_id = 10, parent_id = 11, scope = scZ\<rparr>"

definition afterHelper :: runstate where
  "afterHelper =
     \<lparr>GENERATED = [],
      RESERVED_NAMES = (\<lambda>u. None)(0 \<mapsto> [''add'', ''main'', ''floatedBinding'']),
      fbHelperName = Some ''floatedBinding'',
      nextId = 100\<rparr>"

text \<open>The call \<^verbatim>\<open>g(foo())\<close>, whose argument is a nullary call, and the declarator of
  \<^verbatim>\<open>var k = g(foo())\<close>.\<close>

definition nestedNullary :: node where
  "nestedNullary = t_callExpression (t_identifier ''g'') [t_callExpression (t_identifier ''foo'') []]"

definition nullaryDeclarator :: path where
  "nullaryDeclarator =
     \<lparr>node = t_variableDeclarator (t_identifier ''k'') (Some nestedNullary),
      key = ''declarations'',
      parents = [t_variableDeclaration ''var''
                   [t_variableDeclarator (t_identifier ''k'') (Some nestedNullary)]]\<rparr>"

text \<open>
  The program of \<^verbatim>\<open>test_data/4/in.js\<close>, where the innermost function is
  \<^verbatim>\<open>function (z) { var xy = add(x)(y); return add(xy)(z); }\<close>, with the path of the
  declarator \<^verbatim>\<open>xy = add(x)(y)\<close>.
\<close>

definition xyDeclarator :: node where
  "xyDeclarator = t_variableDeclarator (t_identifier ''xy'') (Some addXY)"

definition xyDeclaration :: node where
  "xyDeclaration = t_variableDeclaration ''var'' [xyDeclarator]"

definition bodyZ4 :: node where
  "bodyZ4 = t_blockStatement
     [xyDeclaration,
      t_returnStatement (Some (t_callExpression
         (t_callExpression (t_identifier ''add'') [t_identifier ''xy'']) [t_identifier ''z'']))]"

definition fnZ4 :: node where
  "fnZ4 = t_functionExpression None [t_identifier ''z''] bodyZ4"

definition fnY4 :: node where
  "fnY4 = t_functionExpression None [t_identifier ''y'']
            (t_blockStatement [t_returnStatement (Some fnZ4)])"

definition fnMain4 :: node where
  "fnMain4 = t_functionDeclaration (t_identifier ''main'') [t_identifier ''x'']
               (t_blockStatement [t_returnStatement (Some fnY4)])"

definition prog4 :: node where
  "prog4 = t_program [fnAdd, fnMain4]"

definition scProgram4 :: scope where
  "scProgram4 = Scope 0 prog4
     [(''add'', \<lparr>kind = Hoisted, referencePaths = 2\<rparr>),
      (''main'', \<lparr>kind = Hoisted, referencePaths = 0\<rparr>)] [] [] None"

definition scMain4 :: scope where
  "scMain4 = Scope 1 fnMain4 [(''x'', \<lparr>kind = Param, referencePaths = 1\<rparr>)] [] [] (Some scProgram4)"

definition scY4 :: scope where
  "scY4 = Scope 2 fnY4 [(''y'', \<lparr>kind = Param, referencePaths = 1\<rparr>)] [] [] (Some scMain4)"

definition scZ4 :: scope where
  "scZ4 = Scope 3 fnZ4
     [(''z'', \<lparr>kind = Param, referencePaths = 1\<rparr>), (''xy'', \<lparr>kind = Var, referencePaths = 1\<rparr>)]
     [] [] (Some scY4)"

definition xyPath :: vpath where
  "xyPath =
     \<lparr>node = xyDeclarator, key = ''declarations'',
      parents = [xyDeclaration, bodyZ4, fnZ4, t_returnStatement (Some fnZ4),
                 t_blockStatement [t_returnStatement (Some fnZ4)],
                 fnY4, t_returnStatement (Some fnY4), t_blockStatement [t_returnStatement (Some fnY4)],
                 fnMain4, prog4],
      node_id = 20, parent_id = 21, scope = scZ4\<rparr>"

text \<open>The hoists that the two visitors perform on these inputs, as
  \<^verbatim>\<open>test_data/3\<close> and \<^verbatim>\<open>test_data/4/out.js\<close> show them.\<close>

definition addXYHoist :: hoist where
  "addXYHoist =
     \<lparr>targetScope = scY, fbName = ''add_y__fb'', cloned = addXY,
      fbDecl = fbDeclaration ''floatedBinding'' ''add_y__fb'' addXY,
      inserted = Inserted (t_functionExpression None [t_identifier ''y'']
         (t_blockStatement [fbDeclaration ''floatedBinding'' ''add_y__fb'' addXY,
                            t_returnStatement (Some fnZ)])),
      fbCall = t_callExpression (t_identifier ''add_y__fb'') []\<rparr>"

definition afterAddXY :: runstate where
  "afterAddXY =
     \<lparr>GENERATED = [100, 101, 102],
      RESERVED_NAMES = ((\<lambda>u. None)(0 \<mapsto> [''add'', ''main'', ''floatedBinding'']))
                         (2 \<mapsto> [''y'', ''add_y__fb'']),
      fbHelperName = Some ''floatedBinding'',
      nextId = 103\<rparr>"

definition xyHoist :: hoist where
  "xyHoist =
     \<lparr>targetScope = scY4, fbName = ''xy__fb'', cloned = addXY,
      fbDecl = fbDeclaration ''floatedBinding'' ''xy__fb'' addXY,
      inserted = Inserted (t_functionExpression None [t_identifier ''y'']
         (t_blockStatement [fbDeclaration ''floatedBinding'' ''xy__fb'' addXY,
                            t_returnStatement (Some fnZ4)])),
      fbCall = t_callExpression (t_identifier ''xy__fb'') []\<rparr>"

definition afterXY :: runstate where
  "afterXY =
     \<lparr>GENERATED = [100, 101, 102],
      RESERVED_NAMES = ((\<lambda>u. None)(0 \<mapsto> [''add'', ''main'', ''floatedBinding'']))
                         (2 \<mapsto> [''y'', ''xy__fb'']),
      fbHelperName = Some ''floatedBinding'',
      nextId = 103\<rparr>"

text \<open>The calls \<^verbatim>\<open>f(() => this)\<close> and \<^verbatim>\<open>f(arguments)\<close>.\<close>

definition thisInsideArrow :: path where
  "thisInsideArrow =
     \<lparr>node = t_callExpression (t_identifier ''f'') [t_arrowFunctionExpression [] t_thisExpression],
      key = ''argument'',
      parents = []\<rparr>"

definition argumentsCall :: path where
  "argumentsCall =
     \<lparr>node = t_callExpression (t_identifier ''f'') [t_identifier ''arguments''],
      key = ''argument'',
      parents = []\<rparr>"

text \<open>The initializer \<^verbatim>\<open>this\<close> of \<^verbatim>\<open>var x = this\<close>, which is the root of the subtree
  that the check of a declarator walks, and the call \<^verbatim>\<open>f(o.arguments)\<close>, where
  \<^verbatim>\<open>arguments\<close> is a property name.\<close>

definition thisInitializer :: path where
  "thisInitializer =
     \<lparr>node = t_thisExpression,
      key = ''init'',
      parents = [t_variableDeclarator (t_identifier ''x'') (Some t_thisExpression)]\<rparr>"

definition argumentsProperty :: path where
  "argumentsProperty =
     \<lparr>node = t_callExpression (t_identifier ''f'')
               [t_memberExpression (t_identifier ''o'') (t_identifier ''arguments'') False],
      key = ''argument'',
      parents = []\<rparr>"

text \<open>The declarator \<^verbatim>\<open>x = y\<close> of \<^verbatim>\<open>var x = y\<close>, whose initializer is a single
  identifier, and the path of that identifier.\<close>

definition bareInitializer :: path where
  "bareInitializer =
     \<lparr>node = t_variableDeclarator (t_identifier ''x'') (Some (t_identifier ''y'')),
      key = ''declarations'',
      parents = []\<rparr>"

definition readY :: path where
  "readY =
     \<lparr>node = t_identifier ''y'',
      key = ''init'',
      parents = [t_variableDeclarator (t_identifier ''x'') (Some (t_identifier ''y''))]\<rparr>"

text \<open>A program body with an import, a string statement and an ordinary statement; the
  arrow function \<^verbatim>\<open>(y) => add(y)\<close>; and some declaration to insert.\<close>

definition leadingStatements :: "node list" where
  "leadingStatements =
     [t_importDeclaration (t_stringLiteral ''m''),
      t_expressionStatement (t_stringLiteral ''use strict''),
      t_expressionStatement (t_callExpression (t_identifier ''run'') [t_numericLiteral ''1'']),
      t_expressionStatement (t_stringLiteral ''late'')]"

definition arrowY :: node where
  "arrowY = t_arrowFunctionExpression [t_identifier ''y'']
              (t_callExpression (t_identifier ''add'') [t_identifier ''y''])"

definition someDeclaration :: node where
  "someDeclaration = fbDeclaration ''floatedBinding'' ''v__fb'' (t_numericLiteral ''1'')"

















text \<open>
  The program
  \<^verbatim>\<open>var add = function (x) { return function (y) { return x + y; }; };
function main(x) { return function (y) { return function (z) { var q = 1 + 2; return add(x)(y) + q + z; }; }; }\<close>
  with its scopes, the path of the call \<^verbatim>\<open>add(x)(y)\<close> and the path of the declarator
  of \<^verbatim>\<open>q\<close>. Here \<^verbatim>\<open>add\<close> is a \<^verbatim>\<open>var\<close> binding of the program scope.
\<close>

definition qDeclarator :: node where
  "qDeclarator = t_variableDeclarator (t_identifier ''q'')
     (Some (t_binaryExpression ''+'' (t_numericLiteral ''1'') (t_numericLiteral ''2'')))"

definition sumQ :: node where
  "sumQ = t_binaryExpression ''+'' addXY (t_identifier ''q'')"

definition sumQZ :: node where
  "sumQZ = t_binaryExpression ''+'' sumQ (t_identifier ''z'')"

definition bodyZ9 :: node where
  "bodyZ9 = t_blockStatement [t_variableDeclaration ''var'' [qDeclarator], t_returnStatement (Some sumQZ)]"

definition fnZ9 :: node where
  "fnZ9 = t_functionExpression None [t_identifier ''z''] bodyZ9"

definition fnY9 :: node where
  "fnY9 = t_functionExpression None [t_identifier ''y'']
            (t_blockStatement [t_returnStatement (Some fnZ9)])"

definition fnMain9 :: node where
  "fnMain9 = t_functionDeclaration (t_identifier ''main'') [t_identifier ''x'']
               (t_blockStatement [t_returnStatement (Some fnY9)])"

definition varAdd :: node where
  "varAdd = t_variableDeclaration ''var''
     [t_variableDeclarator (t_identifier ''add'')
        (Some (t_functionExpression None [t_identifier ''x'']
           (t_blockStatement [t_returnStatement (Some
              (t_functionExpression None [t_identifier ''y'']
                 (t_blockStatement [t_returnStatement (Some
                    (t_binaryExpression ''+'' (t_identifier ''x'') (t_identifier ''y'')))])))])))]"

definition prog9 :: node where
  "prog9 = t_program [varAdd, fnMain9]"

definition scProgram9 :: scope where
  "scProgram9 = Scope 0 prog9
     [(''add'', \<lparr>kind = Var, referencePaths = 1\<rparr>),
      (''main'', \<lparr>kind = Hoisted, referencePaths = 0\<rparr>)] [] [] None"

definition scMain9 :: scope where
  "scMain9 = Scope 1 fnMain9 [(''x'', \<lparr>kind = Param, referencePaths = 1\<rparr>)] [] [] (Some scProgram9)"

definition scY9 :: scope where
  "scY9 = Scope 2 fnY9 [(''y'', \<lparr>kind = Param, referencePaths = 1\<rparr>)] [] [] (Some scMain9)"

definition scZ9 :: scope where
  "scZ9 = Scope 3 fnZ9
     [(''z'', \<lparr>kind = Param, referencePaths = 1\<rparr>), (''q'', \<lparr>kind = Var, referencePaths = 1\<rparr>)]
     [] [] (Some scY9)"

definition outerParents9 :: "node list" where
  "outerParents9 =
     [bodyZ9, fnZ9, t_returnStatement (Some fnZ9), t_blockStatement [t_returnStatement (Some fnZ9)],
      fnY9, t_returnStatement (Some fnY9), t_blockStatement [t_returnStatement (Some fnY9)],
      fnMain9, prog9]"

definition addXYPath9 :: vpath where
  "addXYPath9 =
     \<lparr>node = addXY, key = ''left'',
      parents = sumQ # sumQZ # t_returnStatement (Some sumQZ) # outerParents9,
      node_id = 40, parent_id = 41, scope = scZ9\<rparr>"

definition qPath :: vpath where
  "qPath =
     \<lparr>node = qDeclarator, key = ''declarations'',
      parents = t_variableDeclaration ''var'' [qDeclarator] # outerParents9,
      node_id = 42, parent_id = 43, scope = scZ9\<rparr>"

text \<open>
  The program
  \<^verbatim>\<open>function top(k) { return function (q) { return function (z) {
  return f(function (a) { var q = g(k); return q; }); }; }; }\<close>
  with \<^verbatim>\<open>f\<close> and \<^verbatim>\<open>g\<close> global, its scopes, and the path of the call \<^verbatim>\<open>f(...)\<close>.
  The \<^verbatim>\<open>q\<close> that the call reads resolves, from the use-site, to the parameter of the
  second function; inside the function passed to \<^verbatim>\<open>f\<close> it is the local \<^verbatim>\<open>var q\<close>.
\<close>

definition callGK :: node where
  "callGK = t_callExpression (t_identifier ''g'') [t_identifier ''k'']"

definition innerQ :: node where
  "innerQ = t_variableDeclarator (t_identifier ''q'') (Some callGK)"

definition bodyA :: node where
  "bodyA = t_blockStatement
     [t_variableDeclaration ''var'' [innerQ], t_returnStatement (Some (t_identifier ''q''))]"

definition fnA :: node where
  "fnA = t_functionExpression None [t_identifier ''a''] bodyA"

definition callFA :: node where
  "callFA = t_callExpression (t_identifier ''f'') [fnA]"

definition fnZ7 :: node where
  "fnZ7 = t_functionExpression None [t_identifier ''z'']
            (t_blockStatement [t_returnStatement (Some callFA)])"

definition fnQ7 :: node where
  "fnQ7 = t_functionExpression None [t_identifier ''q'']
            (t_blockStatement [t_returnStatement (Some fnZ7)])"

definition fnTop7 :: node where
  "fnTop7 = t_functionDeclaration (t_identifier ''top'') [t_identifier ''k'']
              (t_blockStatement [t_returnStatement (Some fnQ7)])"

definition prog7 :: node where
  "prog7 = t_program [fnTop7]"

definition scProgram7 :: scope where
  "scProgram7 = Scope 0 prog7 [(''top'', \<lparr>kind = Hoisted, referencePaths = 0\<rparr>)] [''f'', ''g''] [] None"

definition scTop7 :: scope where
  "scTop7 = Scope 1 fnTop7 [(''k'', \<lparr>kind = Param, referencePaths = 1\<rparr>)] [] [] (Some scProgram7)"

definition scQ7 :: scope where
  "scQ7 = Scope 2 fnQ7 [(''q'', \<lparr>kind = Param, referencePaths = 0\<rparr>)] [] [] (Some scTop7)"

definition scZ7 :: scope where
  "scZ7 = Scope 3 fnZ7 [(''z'', \<lparr>kind = Param, referencePaths = 0\<rparr>)] [] [] (Some scQ7)"

definition callFAPath :: vpath where
  "callFAPath =
     \<lparr>node = callFA, key = ''argument'',
      parents = [t_returnStatement (Some callFA), t_blockStatement [t_returnStatement (Some callFA)],
                 fnZ7, t_returnStatement (Some fnZ7), t_blockStatement [t_returnStatement (Some fnZ7)],
                 fnQ7, t_returnStatement (Some fnQ7), t_blockStatement [t_returnStatement (Some fnQ7)],
                 fnTop7, prog7],
      node_id = 50, parent_id = 51, scope = scZ7\<rparr>"

definition afterHelper7 :: runstate where
  "afterHelper7 =
     \<lparr>GENERATED = [],
      RESERVED_NAMES = (\<lambda>u. None)(0 \<mapsto> [''top'', ''floatedBinding'']),
      fbHelperName = Some ''floatedBinding'',
      nextId = 100\<rparr>"

text \<open>
  The first hoist and the tree it leaves:
  \<^verbatim>\<open>function top(k) { return function (q) {
  const f__fb = floatedBinding(() => f(function (a) { var q = g(k); return q; }));
  return function (z) { return f__fb(); }; }; }\<close>
  The three objects in \<^verbatim>\<open>GENERATED\<close> are the copy of the call (100), the declaration
  of \<^verbatim>\<open>f__fb\<close> (101) and the call \<^verbatim>\<open>f__fb()\<close> (102).
\<close>

definition fbDeclF :: node where
  "fbDeclF = fbDeclaration ''floatedBinding'' ''f__fb'' callFA"

definition callFAHoist :: hoist where
  "callFAHoist =
     \<lparr>targetScope = scQ7, fbName = ''f__fb'', cloned = callFA, fbDecl = fbDeclF,
      inserted = Inserted (t_functionExpression None [t_identifier ''q'']
         (t_blockStatement [fbDeclF, t_returnStatement (Some fnZ7)])),
      fbCall = t_callExpression (t_identifier ''f__fb'') []\<rparr>"

definition afterCallFA :: runstate where
  "afterCallFA =
     \<lparr>GENERATED = [100, 101, 102],
      RESERVED_NAMES = ((\<lambda>u. None)(0 \<mapsto> [''top'', ''floatedBinding'']))(2 \<mapsto> [''q'', ''f__fb'']),
      fbHelperName = Some ''floatedBinding'',
      nextId = 103\<rparr>"

definition fnZ7' :: node where
  "fnZ7' = t_functionExpression None [t_identifier ''z'']
             (t_blockStatement [t_returnStatement (Some (t_callExpression (t_identifier ''f__fb'') []))])"

definition bodyQ7' :: node where
  "bodyQ7' = t_blockStatement [fbDeclF, t_returnStatement (Some fnZ7')]"

definition fnQ7' :: node where
  "fnQ7' = t_functionExpression None [t_identifier ''q''] bodyQ7'"

definition fnTop7' :: node where
  "fnTop7' = t_functionDeclaration (t_identifier ''top'') [t_identifier ''k'']
               (t_blockStatement [t_returnStatement (Some fnQ7')])"

definition prog7' :: node where
  "prog7' = t_program [fnTop7']"

text \<open>
  The inserted declaration is visited next, and with it the copy of the declarator
  \<^verbatim>\<open>q = g(k)\<close> below it. The copy and the \<^verbatim>\<open>var\<close> declaration around it are new objects
  (200 and 201) that are not in \<^verbatim>\<open>GENERATED\<close>. The scopes are those of the tree after
  the first hoist: the copied function and the producer arrow open new scopes, the
  former with the parameter \<^verbatim>\<open>a\<close> and the variable \<^verbatim>\<open>q\<close>, read once.
\<close>

definition producerF :: node where
  "producerF = t_arrowFunctionExpression [] callFA"

definition helperCallF :: node where
  "helperCallF = t_callExpression (t_identifier ''floatedBinding'') [producerF]"

definition scProgram7' :: scope where
  "scProgram7' = Scope 0 prog7' [(''top'', \<lparr>kind = Hoisted, referencePaths = 0\<rparr>)] [''f'', ''g''] [] None"

definition scTop7' :: scope where
  "scTop7' = Scope 1 fnTop7' [(''k'', \<lparr>kind = Param, referencePaths = 1\<rparr>)] [] [] (Some scProgram7')"

definition scQ7' :: scope where
  "scQ7' = Scope 2 fnQ7' [(''q'', \<lparr>kind = Param, referencePaths = 0\<rparr>)] [] [] (Some scTop7')"

definition scProducer :: scope where
  "scProducer = Scope 5 producerF [] [] [] (Some scQ7')"

definition scA :: scope where
  "scA = Scope 6 fnA
     [(''a'', \<lparr>kind = Param, referencePaths = 0\<rparr>), (''q'', \<lparr>kind = Var, referencePaths = 1\<rparr>)]
     [] [] (Some scProducer)"

definition innerQPath :: vpath where
  "innerQPath =
     \<lparr>node = innerQ, key = ''declarations'',
      parents = [t_variableDeclaration ''var'' [innerQ], bodyA, fnA, callFA, producerF, helperCallF,
                 t_variableDeclarator (t_identifier ''f__fb'') (Some helperCallF), fbDeclF,
                 bodyQ7', fnQ7', t_returnStatement (Some fnQ7'),
                 t_blockStatement [t_returnStatement (Some fnQ7')], fnTop7', prog7'],
      node_id = 200, parent_id = 201, scope = scA\<rparr>"

definition innerQHoist :: hoist where
  "innerQHoist =
     \<lparr>targetScope = scTop7', fbName = ''q__fb'', cloned = callGK,
      fbDecl = fbDeclaration ''floatedBinding'' ''q__fb'' callGK,
      inserted = Inserted (t_functionDeclaration (t_identifier ''top'') [t_identifier ''k'']
         (t_blockStatement [fbDeclaration ''floatedBinding'' ''q__fb'' callGK,
                            t_returnStatement (Some fnQ7')])),
      fbCall = t_callExpression (t_identifier ''q__fb'') []\<rparr>"

definition afterInnerQ :: runstate where
  "afterInnerQ =
     \<lparr>GENERATED = [100, 101, 102, 103, 104, 105],
      RESERVED_NAMES = (((\<lambda>u. None)(0 \<mapsto> [''top'', ''floatedBinding'']))(2 \<mapsto> [''q'', ''f__fb'']))
                         (1 \<mapsto> [''k'', ''q__fb'']),
      fbHelperName = Some ''floatedBinding'',
      nextId = 106\<rparr>"

text \<open>
  The program
  \<^verbatim>\<open>function top(k) { return function (q) { return function (z) {
  if (z) { let q = g(k); return f(q, k); } }; }; }\<close>
  with \<^verbatim>\<open>f\<close> and \<^verbatim>\<open>g\<close> global. The use-site of the call \<^verbatim>\<open>f(q, k)\<close> is the scope of
  the block of the \<^verbatim>\<open>if\<close>, which binds \<^verbatim>\<open>q\<close>; the second function has a parameter of
  the same name.
\<close>

definition ifBlock :: node where
  "ifBlock = t_blockStatement
     [t_variableDeclaration ''let''
        [t_variableDeclarator (t_identifier ''q'')
           (Some (t_callExpression (t_identifier ''g'') [t_identifier ''k'']))],
      t_returnStatement (Some (t_callExpression (t_identifier ''f'')
                                 [t_identifier ''q'', t_identifier ''k'']))]"

definition fnZ1 :: node where
  "fnZ1 = t_functionExpression None [t_identifier ''z'']
            (t_blockStatement [t_ifStatement (t_identifier ''z'') ifBlock])"

definition fnQ1 :: node where
  "fnQ1 = t_functionExpression None [t_identifier ''q'']
            (t_blockStatement [t_returnStatement (Some fnZ1)])"

definition fnTop1 :: node where
  "fnTop1 = t_functionDeclaration (t_identifier ''top'') [t_identifier ''k'']
              (t_blockStatement [t_returnStatement (Some fnQ1)])"

definition prog1 :: node where
  "prog1 = t_program [fnTop1]"

definition scProgram1 :: scope where
  "scProgram1 = Scope 0 prog1 [(''top'', \<lparr>kind = Hoisted, referencePaths = 0\<rparr>)] [''f'', ''g''] [] None"

definition scTop1 :: scope where
  "scTop1 = Scope 1 fnTop1 [(''k'', \<lparr>kind = Param, referencePaths = 2\<rparr>)] [] [] (Some scProgram1)"

definition scQ1 :: scope where
  "scQ1 = Scope 2 fnQ1 [(''q'', \<lparr>kind = Param, referencePaths = 0\<rparr>)] [] [] (Some scTop1)"

definition scZ1 :: scope where
  "scZ1 = Scope 3 fnZ1 [(''z'', \<lparr>kind = Param, referencePaths = 1\<rparr>)] [] [] (Some scQ1)"

definition scIf1 :: scope where
  "scIf1 = Scope 4 ifBlock [(''q'', \<lparr>kind = Let, referencePaths = 1\<rparr>)] [] [] (Some scZ1)"

text \<open>
  The program
  \<^verbatim>\<open>function top(k) { return class { static { let a = g(k); h(a); } }; }\<close>
  with \<^verbatim>\<open>g\<close> and \<^verbatim>\<open>h\<close> global. The use-site of the call \<^verbatim>\<open>h(a)\<close> is the scope of the
  static block, which binds \<^verbatim>\<open>a\<close>; the nearest enclosing function is \<^verbatim>\<open>top\<close>.
\<close>

definition staticS :: node where
  "staticS = t_staticBlock
     [t_variableDeclaration ''let''
        [t_variableDeclarator (t_identifier ''a'')
           (Some (t_callExpression (t_identifier ''g'') [t_identifier ''k'']))],
      t_expressionStatement (t_callExpression (t_identifier ''h'') [t_identifier ''a''])]"

definition classS :: node where
  "classS = t_classExpression None (t_classBody [staticS])"

definition fnTopS :: node where
  "fnTopS = t_functionDeclaration (t_identifier ''top'') [t_identifier ''k'']
              (t_blockStatement [t_returnStatement (Some classS)])"

definition progS :: node where
  "progS = t_program [fnTopS]"

definition scProgramS :: scope where
  "scProgramS = Scope 0 progS [(''top'', \<lparr>kind = Hoisted, referencePaths = 0\<rparr>)] [''g'', ''h''] [] None"

definition scTopS :: scope where
  "scTopS = Scope 1 fnTopS [(''k'', \<lparr>kind = Param, referencePaths = 1\<rparr>)] [] [] (Some scProgramS)"

definition scClassS :: scope where
  "scClassS = Scope 2 classS [] [] [] (Some scTopS)"

definition scStaticS :: scope where
  "scStaticS = Scope 3 staticS [(''a'', \<lparr>kind = Let, referencePaths = 1\<rparr>)] [] [] (Some scClassS)"


section \<open>Properties of the nullary-call walk\<close>

lemma exprContainsNullaryCall_iff:
  "exprContainsNullaryCall n \<longleftrightarrow> (\<exists>d \<in> set (subnodes n). isNullaryCall d)"
proof (induction n rule: subnodes.induct)
  case (1 t a ks)
  have "list_ex (\<lambda>kc. exprContainsNullaryCall (snd kc)) ks
        \<longleftrightarrow> (\<exists>kc \<in> set ks. \<exists>d \<in> set (subnodes (snd kc)). isNullaryCall d)"
    using "1.IH" by (simp add: list_ex_iff)
  then show ?case by auto
qed



section \<open>Properties of the scope chain and of the outward walk\<close>

lemma chain_suffix:
  "chain s = pre @ a # post \<Longrightarrow> chain a = a # post"
proof (induction s arbitrary: pre rule: chain.induct)
  case (1 u b bs gs us par)
  show ?case
  proof (cases pre)
    case Nil
    with "1.prems" show ?thesis by auto
  next
    case (Cons x pre')
    with "1.prems" obtain p where p: "par = Some p" "chain p = pre' @ a # post"
      by (cases par) auto
    then show ?thesis using "1.IH" by simp
  qed
qed

lemma chain_member_subset:
  assumes "a \<in> set (chain s)"
  shows "set (chain a) \<subseteq> set (chain s)"
proof -
  from assms obtain pre post where sp: "chain s = pre @ a # post"
    by (auto simp: in_set_conv_decomp)
  then have "chain a = a # post" by (rule chain_suffix)
  with sp show ?thesis by auto
qed

lemma find_Some_split:
  "find P xs = Some x \<Longrightarrow> \<exists>pre post. xs = pre @ x # post \<and> P x \<and> (\<forall>y \<in> set pre. \<not> P y)"
proof (induction xs)
  case Nil
  then show ?case by simp
next
  case (Cons y ys)
  show ?case
  proof (cases "P y")
    case True
    with Cons.prems have "y = x" by simp
    with True have "y # ys = [] @ x # ys \<and> P x \<and> (\<forall>z \<in> set []. \<not> P z)" by simp
    then show ?thesis by blast
  next
    case False
    with Cons obtain pre post where "ys = pre @ x # post" "P x" "\<forall>z \<in> set pre. \<not> P z"
      by auto
    with False have "y # ys = (y # pre) @ x # post \<and> P x \<and> (\<forall>z \<in> set (y # pre). \<not> P z)"
      by simp
    then show ?thesis by blast
  qed
qed

lemma find_None_filter: "find P xs = None \<Longrightarrow> filter P xs = []"
  by (induction xs) (auto split: if_splits)

lemma nextFunctionOrProgram_find:
  "nextFunctionOrProgram t
     = find (\<lambda>sc. isFunction (block sc) \<or> isProgram (block sc)) (tl (chain t))"
  by (cases t) (simp add: nextFunctionOrProgram_def split: option.splits)

lemma functionScope_code: "functionScope s = isFunction (block s)"
  by (auto simp: functionScope_def isFunction_def)

lemma topLevelScope_code: "topLevelScope s = isProgram (block s)"
  by (simp add: topLevelScope_def isProgram_def)

lemma functionParent_code: "(functionScope s \<or> staticBlockScope s) = isFunctionParent (block s)"
  by (simp add: functionScope_code staticBlockScope_def isFunctionParent_def)

lemma widerCandidates_code:
  "widerCandidates c = filter (\<lambda>sc. isFunction (block sc) \<or> isProgram (block sc)) (tl (chain c))"
  by (simp add: widerCandidates_def functionScope_code topLevelScope_code)

lemma parameterOf_code:
  "parameterOf w n = (isFunction (block w) \<and> n \<in> set (paramNames w))"
  by (auto simp: parameterOf_def functionScope_code paramNames_def list_ex_iff isIdentifier_def)

lemma acceptsWidening_code:
  "acceptsWidening freeVars useSite w =
     list_all (\<lambda>n.
        (case getBinding useSite n of None \<Rightarrow> False | Some (owner, b) \<Rightarrow> owner \<in> set (chain w))
        \<or> (isFunction (block w) \<and> n \<in> set (paramNames w))
        \<or> hasGlobal w n) freeVars"
  by (simp add: acceptsWidening_def parameterOf_code)

lemma paramsRegistered_code:
  "paramsRegistered useSite =
     list_all (\<lambda>s. isFunction (block s) \<longrightarrow>
                 list_all (\<lambda>n. case getOwnBinding s n of None \<Rightarrow> False | Some b \<Rightarrow> kind b = Param)
                          (paramNames s))
              (chain useSite)"
  by (auto simp: paramsRegistered_def functionScope_code paramNames_def list_all_iff isIdentifier_def)

lemma topLevelUnit_code: "topLevelUnit useSite = getProgramParent useSite"
  by (simp add: topLevelUnit_def getProgramParent_def topLevelScope_code [abs_def])

lemma firstCandidate_code:
  "firstCandidate (\<lambda>s. functionScope s \<or> staticBlockScope s) useSite
     = enclosingFunctionOrProgram useSite"
  by (simp add: firstCandidate_def enclosingFunctionOrProgram_def getFunctionParent_def
        topLevelUnit_code functionParent_code split: option.splits)

lemma resolvable_code: "resolvable useSite n = foundOnChain useSite n"
  by (simp add: resolvable_def foundOnChain_def)

lemma firstCandidate_outside:
  assumes "outsideStaticBlocks useSite"
  shows "firstCandidate functionScope useSite
     = firstCandidate (\<lambda>s. functionScope s \<or> staticBlockScope s) useSite"
proof -
  have "find functionScope (chain useSite)
          = find (\<lambda>s. functionScope s \<or> staticBlockScope s) (chain useSite)"
    using assms by (intro find_cong) (auto simp: outsideStaticBlocks_def list_all_iff)
  then show ?thesis by (simp add: firstCandidate_def)
qed

lemma widerCandidates_None:
  "nextFunctionOrProgram t = None \<Longrightarrow> widerCandidates t = []"
  by (simp add: nextFunctionOrProgram_find widerCandidates_code find_None_filter)

lemma widerCandidates_Some:
  assumes "nextFunctionOrProgram t = Some pf"
  shows "widerCandidates t = pf # widerCandidates pf"
proof -
  let ?P = "\<lambda>sc. isFunction (block sc) \<or> isProgram (block sc)"
  from assms have f: "find ?P (tl (chain t)) = Some pf"
    by (simp add: nextFunctionOrProgram_find)
  obtain pre post where sp: "tl (chain t) = pre @ pf # post" "?P pf" "\<forall>y \<in> set pre. \<not> ?P y"
    using find_Some_split [OF f] by blast
  have "chain t = t # tl (chain t)" by (cases t) simp
  with sp(1) have "chain t = (t # pre) @ pf # post" by simp
  then have "chain pf = pf # post" by (rule chain_suffix)
  then have "tl (chain pf) = post" by simp
  moreover have "filter ?P pre = []" using sp(3) by (simp add: filter_empty_conv)
  ultimately show ?thesis using sp(1,2) by (simp add: widerCandidates_code)
qed

lemma widen_takeWhile:
  "widen names start t
     = last (t # takeWhile (canHoistToParent names start) (widerCandidates t))"
proof (induction names start t rule: widen.induct)
  case (1 names start t)
  show ?case
  proof (cases "nextFunctionOrProgram t")
    case None
    then show ?thesis by (simp add: widerCandidates_None)
  next
    case (Some pf)
    show ?thesis
    proof (cases "canHoistToParent names start pf")
      case True
      with Some "1.IH" show ?thesis by (simp add: widerCandidates_Some)
    next
      case False
      with Some show ?thesis by (simp add: widerCandidates_Some)
    qed
  qed
qed

lemma widerCandidates_on_chain:
  "w \<in> set (widerCandidates c) \<Longrightarrow> w \<in> set (chain c)"
  using list.set_sel(2) [of "chain c" w] by (cases "chain c") (auto simp: widerCandidates_code)

lemma getBindingFrom_finds_param:
  assumes "s \<in> set xs" "getOwnBinding s n = Some b" "kind b = Param" "n \<noteq> ''arguments''"
  shows "getBindingFrom n prev xs \<noteq> None"
  using assms(1)
proof (induction xs arbitrary: prev)
  case Nil
  then show ?case by simp
next
  case (Cons x xs)
  show ?case
  proof (cases "x = s")
    case True
    with assms show ?thesis by simp
  next
    case False
    with Cons have "getBindingFrom n (Some (block x)) xs \<noteq> None" by simp
    with assms(4) show ?thesis by (simp split: option.splits)
  qed
qed

lemma visibleFrom_spec:
  assumes reg: "paramsRegistered start" and w: "w \<in> set (chain start)"
    and n: "n \<noteq> ''arguments''"
  shows "visibleFrom start w n
     \<longleftrightarrow> ((case getBinding start n of None \<Rightarrow> False | Some (owner, b) \<Rightarrow> owner \<in> set (chain w))
          \<or> (isFunction (block w) \<and> n \<in> set (paramNames w))
          \<or> hasGlobal w n)"
proof (cases "getBinding start n")
  case (Some ob)
  then show ?thesis
    by (cases ob) (auto simp: visibleFrom_def list_ex_iff)
next
  case None
  have "\<not> (isFunction (block w) \<and> n \<in> set (paramNames w))"
  proof
    assume a: "isFunction (block w) \<and> n \<in> set (paramNames w)"
    with reg w obtain b where "getOwnBinding w n = Some b" "kind b = Param"
      by (auto simp: paramsRegistered_code list_all_iff split: option.splits)
    then have "getBindingFrom n None (chain start) \<noteq> None"
      using getBindingFrom_finds_param [OF w _ _ n] by blast
    with None show False by (simp add: getBinding_def)
  qed
  with None show ?thesis by (auto simp: visibleFrom_def)
qed

lemma canHoistToParent_spec:
  assumes "paramsRegistered start" "w \<in> set (chain start)" "''arguments'' \<notin> set names"
  shows "canHoistToParent names start w = acceptsWidening names start w"
proof -
  have "visibleFrom start w n
     = ((case getBinding start n of None \<Rightarrow> False | Some (owner, b) \<Rightarrow> owner \<in> set (chain w))
          \<or> (isFunction (block w) \<and> n \<in> set (paramNames w))
          \<or> hasGlobal w n)" if "n \<in> set names" for n
  proof -
    from that assms(3) have "n \<noteq> ''arguments''" by auto
    then show ?thesis by (rule visibleFrom_spec [OF assms(1,2)])
  qed
  then show ?thesis
    unfolding canHoistToParent_def acceptsWidening_code by (simp add: list_all_iff)
qed

lemma enclosingFunctionOrProgram_on_chain:
  "enclosingFunctionOrProgram s = Inr c \<Longrightarrow> c \<in> set (chain s)"
  by (auto simp: enclosingFunctionOrProgram_def getFunctionParent_def getProgramParent_def
           dest: find_Some_member split: option.splits)


section \<open>Properties of the traversal\<close>

lemma subnodes_Cons: "subnodes n = n # tl (subnodes n)"
  by (cases n) simp

lemma node_descend: "map node (descend anc n) = tl (subnodes n)"
proof (induction anc n rule: descend.induct)
  case (1 anc t a ks)
  have step: "snd kc # map node (descend (Node t a ks # anc) (snd kc)) = subnodes (snd kc)"
    if "kc \<in> set ks" for kc
  proof -
    from that have "map node (descend (Node t a ks # anc) (snd kc)) = tl (subnodes (snd kc))"
      by (rule "1.IH")
    then show ?thesis using subnodes_Cons [of "snd kc"] by simp
  qed
  have "map node (descend anc (Node t a ks))
        = concat (map (\<lambda>kc. snd kc # map node (descend (Node t a ks # anc) (snd kc))) ks)"
    by (simp add: map_concat comp_def)
  also have "\<dots> = concat (map (\<lambda>kc. subnodes (snd kc)) ks)"
    by (rule arg_cong [where f = concat], rule map_cong) (simp_all add: step)
  finally show ?case by simp
qed

lemma node_traverse: "map node (traverse p) = tl (subnodes (node p))"
  by (simp add: traverse_def node_descend)

lemma isPureEnoughInit_iff:
  "isPureEnoughInit (Some n) \<longleftrightarrow> \<not> (\<exists>d \<in> set (subnodes n). isNullaryCall d)"
  by (simp add: isPureEnoughInit_def exprContainsNullaryCall_iff)

lemma set_foldl_setAdd: "set (foldl setAdd acc xs) = set acc \<union> set xs"
  by (induction xs arbitrary: acc) (auto simp: setAdd_def)

lemma distinct_foldl_setAdd: "distinct acc \<Longrightarrow> distinct (foldl setAdd acc xs)"
  by (induction xs arbitrary: acc) (auto simp: setAdd_def)

lemma set_freeVarsOfNode:
  "set (freeVarsOfNode p) = (\<lambda>q. nameOf (node q)) ` {q \<in> set (traverse p). isReferencedIdentifier q}"
  by (auto simp: freeVarsOfNode_def set_foldl_setAdd)

lemma containsFrameSensitiveThings_iff:
  "containsFrameSensitiveThings p \<longleftrightarrow> (\<exists>q \<in> set (traverse p). frameSensitive q)"
  by (simp add: containsFrameSensitiveThings_def list_ex_iff)

lemma traverse_node_below:
  "q \<in> set (traverse p) \<Longrightarrow> node q \<in> set (tl (subnodes (node p)))"
  using node_traverse [of p] by (metis image_eqI set_map)

lemma below_traverse:
  "d \<in> set (tl (subnodes (node p))) \<Longrightarrow> \<exists>q \<in> set (traverse p). node q = d"
  using node_traverse [of p] by (metis (no_types, lifting) image_iff set_map)


section \<open>Properties of the name allocation\<close>

lemma decimal_nonempty: "decimal n \<noteq> []"
  by (subst decimal.simps) simp

lemma digitChar_inj: "a < 10 \<Longrightarrow> b < 10 \<Longrightarrow> digitChar a = digitChar b \<Longrightarrow> a = b"
  by (simp add: digitChar_def char_of_eq_iff take_bit_eq_mod)

lemma decimal_inj: "decimal m = decimal n \<Longrightarrow> m = n"
proof (induction m arbitrary: n rule: decimal.induct)
  case (1 m)
  show ?case
  proof (cases "m < 10")
    case small: True
    show ?thesis
    proof (cases "n < 10")
      case True
      with small "1.prems" have "digitChar m = digitChar n"
        by (simp add: decimal.simps [of m] decimal.simps [of n])
      with small True show ?thesis by (rule digitChar_inj)
    next
      case False
      then have "decimal n = decimal (n div 10) @ [digitChar (n mod 10)]"
        by (subst decimal.simps) simp
      with small "1.prems" have "[digitChar m] = decimal (n div 10) @ [digitChar (n mod 10)]"
        by (simp add: decimal.simps [of m])
      then have "decimal (n div 10) = []" by (simp add: Cons_eq_append_conv)
      then show ?thesis by (simp add: decimal_nonempty)
    qed
  next
    case big: False
    then have dm: "decimal m = decimal (m div 10) @ [digitChar (m mod 10)]"
      by (subst decimal.simps) simp
    show ?thesis
    proof (cases "n < 10")
      case True
      then have "decimal n = [digitChar n]" by (subst decimal.simps) simp
      with dm "1.prems" have "decimal (m div 10) @ [digitChar (m mod 10)] = [digitChar n]" by simp
      then have "decimal (m div 10) = []" by (simp add: append_eq_Cons_conv)
      then show ?thesis by (simp add: decimal_nonempty)
    next
      case False
      then have dn: "decimal n = decimal (n div 10) @ [digitChar (n mod 10)]"
        by (subst decimal.simps) simp
      from dm dn "1.prems" have eq: "decimal (m div 10) = decimal (n div 10)"
        and dg: "digitChar (m mod 10) = digitChar (n mod 10)" by simp_all
      from "1.IH" [OF big eq] have "m div 10 = n div 10" .
      moreover from dg have "m mod 10 = n mod 10" by (rule digitChar_inj [rotated 2]) simp_all
      ultimately show ?thesis by (metis div_mult_mod_eq)
    qed
  qed
qed

lemma fbCandidate_inj: "fbCandidate base i = fbCandidate base j \<Longrightarrow> i = j"
proof (cases "i = 0"; cases "j = 0")
  assume "fbCandidate base i = fbCandidate base j" "i \<noteq> 0" "j \<noteq> 0"
  then show ?thesis by (simp add: fbCandidate_def decimal_inj)
next
  assume "fbCandidate base i = fbCandidate base j" "i = 0" "j \<noteq> 0"
  then show ?thesis by (simp add: fbCandidate_def)
next
  assume "fbCandidate base i = fbCandidate base j" "i \<noteq> 0" "j = 0"
  then show ?thesis by (simp add: fbCandidate_def)
qed simp

lemma firstUntaken_least:
  "\<not> tk (base @ ''__fb_'' @ decimal k) \<Longrightarrow> i \<le> k
   \<Longrightarrow> (\<And>j. i \<le> j \<Longrightarrow> j < k \<Longrightarrow> tk (base @ ''__fb_'' @ decimal j))
   \<Longrightarrow> firstUntaken tk base i = Some k"
proof (induction "k - i" arbitrary: i)
  case 0
  then have "i = k" by simp
  with "0.prems"(1) show ?case by (subst firstUntaken.simps) simp
next
  case (Suc d)
  then have lt: "i < k" by simp
  with Suc.prems have tk: "tk (base @ ''__fb_'' @ decimal i)" by simp
  have "firstUntaken tk base (Suc i) = Some k"
  proof (rule Suc.hyps(1))
    show "d = k - Suc i" using Suc.hyps(2) by simp
    show "\<not> tk (base @ ''__fb_'' @ decimal k)" by (rule Suc.prems(1))
    show "Suc i \<le> k" using lt by simp
    show "tk (base @ ''__fb_'' @ decimal j)" if "Suc i \<le> j" "j < k" for j
      using that Suc.prems(3) [of j] by simp
  qed
  with tk show ?case by (subst firstUntaken.simps) simp
qed

lemma finite_taken_has_free:
  assumes "\<And>n. tk n \<Longrightarrow> n \<in> set U"
  shows "\<exists>k \<ge> i. \<not> tk (fbCandidate base k)"
proof (rule ccontr)
  assume "\<not> (\<exists>k \<ge> i. \<not> tk (fbCandidate base k))"
  then have "fbCandidate base ` {i..} \<subseteq> set U" using assms by auto
  then have "finite (fbCandidate base ` {i..})" by (rule finite_subset) simp
  moreover have "inj_on (fbCandidate base) {i..}"
    by (rule inj_onI) (rule fbCandidate_inj)
  ultimately have "finite {i..}" by (rule finite_imageD)
  then show False by (simp add: infinite_Ici)
qed


lemma hasOwnBinding_iff: "hasOwnBinding s n \<longleftrightarrow> n \<in> fst ` set (bindings s)"
  by (simp add: hasOwnBinding_def getOwnBinding_def map_of_eq_None_iff)




lemma finite_hasGlobal: "finite {n. hasGlobal s n}"
proof -
  have "{n. hasGlobal s n} = (\<Union>a \<in> set (chain s). set (globals a))"
    by (auto simp: hasGlobal_def list_ex_iff)
  then show ?thesis by simp
qed

lemma finite_hasUid: "finite {n. hasUid s n}"
proof -
  have "{n. hasUid s n} = (\<Union>a \<in> set (chain s). set (uids a))"
    by (auto simp: hasUid_def list_ex_iff)
  then show ?thesis by simp
qed

lemma finite_hasOwnBinding: "finite {n. hasOwnBinding s n}"
proof -
  have "{n. hasOwnBinding s n} = fst ` set (bindings s)"
    by (auto simp: hasOwnBinding_iff)
  then show ?thesis by simp
qed

lemma finite_hasBinding: "finite {n. hasBinding bg s n}"
proof -
  have "{n. hasBinding bg s n}
          \<subseteq> (\<Union>a \<in> set (chain s). {n. hasOwnBinding a n}) \<union> {n. hasUid s n} \<union> set bg"
    by (auto simp: hasBinding_def list_ex_iff split: if_splits)
  moreover have "finite ((\<Union>a \<in> set (chain s). {n. hasOwnBinding a n}) \<union> {n. hasUid s n} \<union> set bg)"
    by (simp add: finite_hasOwnBinding finite_hasUid)
  ultimately show ?thesis by (rule finite_subset)
qed

lemma finite_isReserved: "finite {n. isReserved R s n}"
  by (cases "R (uid s)") (simp_all add: isReserved_def)

lemma finite_taken: "finite {n. taken bg R t u n}"
proof -
  have "{n. taken bg R t u n}
          = (\<Union>s \<in> set (chain t). {n. isReserved R s n} \<union> {n. hasBinding bg s n} \<union> {n. hasGlobal s n})
            \<union> (\<Union>s \<in> set (takeWhile (\<lambda>x. x \<noteq> t) (chain u)). {n. isReserved R s n} \<union> {n. hasOwnBinding s n})"
    by (auto simp: taken_def list_ex_iff split: if_splits)
  then show ?thesis
    by (simp add: finite_isReserved finite_hasBinding finite_hasGlobal finite_hasOwnBinding)
qed

lemma finite_has_free:
  assumes "finite {n. tk n}"
  shows "\<exists>k. \<not> tk (fbCandidate base k)"
proof -
  obtain U where U: "set U = {n. tk n}" using assms finite_list by blast
  have "\<exists>k \<ge> 0. \<not> tk (fbCandidate base k)"
    by (rule finite_taken_has_free [where U = U]) (simp add: U)
  then show ?thesis by simp
qed

lemma makeUniqueFbName_first_free:
  fixes bg R base0 t u
  defines "b \<equiv> sanitizeBase base0"
    and "R1 \<equiv> snd (getReserved R t)"
    and "rs \<equiv> fst (getReserved R t)"
  shows "\<exists>k. makeUniqueFbName bg R base0 t u
               = Some (fbCandidate b k, R1(uid t \<mapsto> setAdd rs (fbCandidate b k)))
             \<and> \<not> taken bg R1 t u (fbCandidate b k)
             \<and> (\<forall>j < k. taken bg R1 t u (fbCandidate b j))"
proof -
  let ?tk = "taken bg R1 t u"
  have "\<exists>k. \<not> ?tk (fbCandidate b k)"
    by (rule finite_has_free) (rule finite_taken)
  then obtain k where k: "\<not> ?tk (fbCandidate b k)" "\<And>j. j < k \<Longrightarrow> ?tk (fbCandidate b j)"
    using exists_least_iff [of "\<lambda>k. \<not> ?tk (fbCandidate b k)"] by auto
  have gr: "getReserved R t = (rs, R1)" by (simp add: R1_def rs_def)
  have "makeUniqueFbName bg R base0 t u
          = Some (fbCandidate b k, R1(uid t \<mapsto> setAdd rs (fbCandidate b k)))"
  proof (cases "k = 0")
    case True
    with k(1) have "\<not> ?tk (b @ ''__fb'')" by (simp add: fbCandidate_def)
    then show ?thesis
      using True by (simp add: makeUniqueFbName_def Let_def gr b_def [symmetric] fbCandidate_def)
  next
    case False
    then have "?tk (fbCandidate b 0)" using k(2) by simp
    then have t0: "?tk (b @ ''__fb'')" by (simp add: fbCandidate_def)
    have "firstUntaken ?tk b 1 = Some k"
    proof (rule firstUntaken_least)
      show "\<not> ?tk (b @ ''__fb_'' @ decimal k)" using k(1) False by (simp add: fbCandidate_def)
      show "1 \<le> k" using False by simp
      show "?tk (b @ ''__fb_'' @ decimal j)" if "1 \<le> j" "j < k" for j
        using k(2) [OF that(2)] that(1) by (simp add: fbCandidate_def)
    qed
    with t0 False show ?thesis
      by (simp add: makeUniqueFbName_def Let_def gr b_def [symmetric] fbCandidate_def)
  qed
  with k show ?thesis by blast
qed


section \<open>Properties of the visitors\<close>

lemma CallExpression_analysis_candidate:
  assumes "bareCallCandidate st p"
  shows "CallExpression_analysis st p =
     (if \<not> isPureEnoughInit (Some (node p)) \<or> containsFrameSensitiveThings p then Inr Rejected
      else (case outermostScopeWith (freeVarsOfNode p) (scope p) of
              Inl e \<Rightarrow> Inl e
            | Inr None \<Rightarrow> Inr Rejected
            | Inr (Some T) \<Rightarrow>
                (case enclosingFunctionOrProgram (scope p) of
                   Inl e \<Rightarrow> Inl e
                 | Inr cur \<Rightarrow>
                     if T = cur \<or> dependsOnLocalVar (scope p) (freeVarsOfNode p) then Inr Rejected
                     else Inr (Accept T))))"
  using assms
  by (simp add: bareCallCandidate_def CallExpression_analysis_def getHelperName_def Let_def
           split: sum.splits option.splits)

lemma CallExpression_analysis_not_candidate:
  assumes "\<not> bareCallCandidate st p"
  shows "CallExpression_analysis st p = Inr NotCandidate \<or> CallExpression_analysis st p = Inl TypeError"
proof (rule ccontr)
  assume a: "\<not> ?thesis"
  then have "CallExpression_analysis st p \<noteq> Inr NotCandidate"
    and "CallExpression_analysis st p \<noteq> Inl TypeError" by simp_all
  then have "bareCallCandidate st p"
    unfolding bareCallCandidate_def CallExpression_analysis_def getHelperName_def
    by (simp split: if_splits)
  with assms show False by simp
qed

lemma VariableDeclarator_analysis_candidate:
  assumes "declarationCandidate st p"
  shows "VariableDeclarator_analysis st p =
     (if \<not> isPureEnoughDecl p then Inr Rejected
      else (case getBinding (scope p) (declaredName (node p)) of
              None \<Rightarrow> Inr Rejected
            | Some (owner, b) \<Rightarrow>
                if referencePaths b < 1 then Inr Rejected
                else if length (freeVarsOfDecl p) = 0
                        \<and> \<not> (case child (node p) ''init'' of None \<Rightarrow> False | Some i \<Rightarrow> isLiteral i)
                then Inr Rejected
                else (case outermostScopeWith (freeVarsOfDecl p) (scope p) of
                        Inl e \<Rightarrow> Inl e
                      | Inr None \<Rightarrow> Inr Rejected
                      | Inr (Some T) \<Rightarrow>
                          (case enclosingFunctionOrProgram (scope p) of
                             Inl e \<Rightarrow> Inl e
                           | Inr cur \<Rightarrow> if T = cur then Inr Rejected else Inr (Accept T)))))"
proof -
  from assms obtain vd rest where ps: "parents p = vd # rest"
    by (cases "parents p") (simp_all add: declarationCandidate_def)
  from assms ps obtain i where i: "child (node p) ''init'' = Some i"
    by (auto simp: declarationCandidate_def)
  from assms ps have g: "(case child (node p) ''id'' of None \<Rightarrow> False | Some i \<Rightarrow> isIdentifier i)"
    "isVariableDeclaration vd"
    "strAttr vd ''kind'' = Some ''const'' \<or> strAttr vd ''kind'' = Some ''let''
       \<or> strAttr vd ''kind'' = Some ''var''"
    "node_id p \<notin> set (GENERATED st)" "parent_id p \<notin> set (GENERATED st)"
    by (simp_all add: declarationCandidate_def)
  define inFn where "inFn = list_ex isFunction (parents p)"
  from assms ps have f: "inFn" by (simp add: declarationCandidate_def inFn_def)
  show ?thesis
    unfolding VariableDeclarator_analysis_def Let_def inFn_def [symmetric]
    by (cases "freeVarsOfDecl p = []"; cases "isLiteral i") (simp_all add: ps i g f)
qed

lemma VariableDeclarator_analysis_not_candidate:
  assumes "\<not> declarationCandidate st p"
  shows "VariableDeclarator_analysis st p = Inr NotCandidate
         \<or> VariableDeclarator_analysis st p = Inl TypeError"
proof (rule ccontr)
  assume a: "\<not> ?thesis"
  then have n: "VariableDeclarator_analysis st p \<noteq> Inr NotCandidate"
    and e: "VariableDeclarator_analysis st p \<noteq> Inl TypeError" by simp_all
  from e obtain vd rest where ps: "parents p = vd # rest"
    by (cases "parents p") (simp_all add: VariableDeclarator_analysis_def)
  define inFn where "inFn = list_ex isFunction (parents p)"
  from n have "declarationCandidate st p"
    unfolding declarationCandidate_def VariableDeclarator_analysis_def inFn_def [symmetric]
    by (simp add: ps split: if_splits option.splits)
  with assms show False by simp
qed


lemma performHoist_Some:
  "\<exists>h st'. performHoist bg st base expr T u = Some (h, st')
     \<and> cloned h = expr \<and> targetScope h = T
     \<and> GENERATED st' = GENERATED st @ [nextId st, nextId st + 1, nextId st + 2]"
proof -
  obtain k where "makeUniqueFbName bg (RESERVED_NAMES st) base T u
      = Some (fbCandidate (sanitizeBase base) k,
              (snd (getReserved (RESERVED_NAMES st) T))
                (uid T \<mapsto> setAdd (fst (getReserved (RESERVED_NAMES st) T))
                                  (fbCandidate (sanitizeBase base) k)))"
    using makeUniqueFbName_first_free [of bg "RESERVED_NAMES st" base T u] by blast
  then show ?thesis by (simp add: performHoist_def Let_def)
qed

lemma performHoist_fields:
  "performHoist bg st base expr T u = Some (h, st') \<Longrightarrow> cloned h = expr \<and> targetScope h = T"
  using performHoist_Some [of bg st base expr T u] by auto

lemma visitCallExpression_Floated:
  assumes "visitCallExpression bg st p = Some (Inr (Floated h, st'))"
  shows "CallExpression_analysis st p = Inr (Accept (targetScope h)) \<and> cloned h = node p"
proof -
  from assms obtain T where T: "CallExpression_analysis st p = Inr (Accept T)"
    by (auto simp: visitCallExpression_def split: sum.splits analysis.splits option.splits)
  with assms have "performHoist bg st (deriveBaseFromCall (node p)) (node p) T (scope p) = Some (h, st')"
    by (auto simp: visitCallExpression_def split: option.splits)
  with T show ?thesis by (auto dest: performHoist_fields)
qed

lemma visitVariableDeclarator_Floated:
  assumes "visitVariableDeclarator bg st p = Some (Inr (Floated h, st'))"
  shows "VariableDeclarator_analysis st p = Inr (Accept (targetScope h))
         \<and> child (node p) ''init'' = Some (cloned h)"
proof -
  from assms obtain T where T: "VariableDeclarator_analysis st p = Inr (Accept T)"
    by (auto simp: visitVariableDeclarator_def split: sum.splits analysis.splits option.splits)
  with assms obtain i where i: "child (node p) ''init'' = Some i"
    and "performHoist bg st (declaredName (node p)) i T (scope p) = Some (h, st')"
    by (auto simp: visitVariableDeclarator_def split: option.splits)
  with T show ?thesis by (auto dest: performHoist_fields)
qed

lemma CallExpression_Accept_checks:
  assumes "CallExpression_analysis st p = Inr (Accept T)"
  shows "bareCallCandidate st p \<and> isPureEnoughInit (Some (node p))
         \<and> \<not> containsFrameSensitiveThings p
         \<and> outermostScopeWith (freeVarsOfNode p) (scope p) = Inr (Some T)
         \<and> enclosingFunctionOrProgram (scope p) \<noteq> Inr T
         \<and> \<not> dependsOnLocalVar (scope p) (freeVarsOfNode p)"
proof -
  have c: "bareCallCandidate st p"
    using CallExpression_analysis_not_candidate [of st p] assms by auto
  show ?thesis
    using assms unfolding CallExpression_analysis_candidate [OF c]
    by (auto simp: c split: if_splits sum.splits option.splits)
qed

lemma VariableDeclarator_Accept_checks:
  assumes "VariableDeclarator_analysis st p = Inr (Accept T)"
  shows "declarationCandidate st p \<and> isPureEnoughDecl p
         \<and> outermostScopeWith (freeVarsOfDecl p) (scope p) = Inr (Some T)
         \<and> enclosingFunctionOrProgram (scope p) \<noteq> Inr T"
proof -
  have c: "declarationCandidate st p"
    using VariableDeclarator_analysis_not_candidate [of st p] assms by auto
  show ?thesis
    using assms unfolding VariableDeclarator_analysis_candidate [OF c]
    by (auto simp: c split: if_splits sum.splits option.splits)
qed

lemma isPureEnoughDecl_init:
  "isPureEnoughDecl p \<Longrightarrow> child (node p) ''init'' = Some i \<Longrightarrow> isPureEnoughInit (Some i)"
  by (auto simp: isPureEnoughDecl_def get_def split: option.splits if_splits)


section \<open>Properties of the insertion\<close>

lemma scanAnchor_takeWhile:
  "scanAnchor isProg body i anchor =
     (let n = length (takeWhile (\<lambda>p. (isProg \<and> isImportDeclaration p) \<or> isStringStatement p) body)
      in if n = 0 then anchor else Some (i + n - 1))"
proof (induction body arbitrary: i anchor)
  case Nil
  then show ?case by simp
next
  case (Cons p ps)
  let ?P = "\<lambda>p. (isProg \<and> isImportDeclaration p) \<or> isStringStatement p"
  let ?n = "length (takeWhile ?P ps)"
  show ?case
  proof (cases "?P p")
    case True
    then have "scanAnchor isProg (p # ps) i anchor = scanAnchor isProg ps (Suc i) (Some i)"
      by auto
    also have "\<dots> = (if ?n = 0 then Some i else Some (Suc i + ?n - 1))"
      by (simp only: Cons.IH Let_def)
    also have "\<dots> = Some (i + Suc ?n - 1)" by simp
    finally have l: "scanAnchor isProg (p # ps) i anchor = Some (i + Suc ?n - 1)" .
    from True have "length (takeWhile ?P (p # ps)) = Suc ?n" by simp
    then show ?thesis unfolding l Let_def by simp
  next
    case False
    then have "takeWhile ?P (p # ps) = []" by simp
    moreover from False have "scanAnchor isProg (p # ps) i anchor = anchor" by auto
    ultimately show ?thesis by (simp add: Let_def)
  qed
qed

lemma insertAfterPrologueAndImports_takeWhile:
  "insertAfterPrologueAndImports isProg body decl =
     takeWhile (\<lambda>p. (isProg \<and> isImportDeclaration p) \<or> isStringStatement p) body
     @ decl # dropWhile (\<lambda>p. (isProg \<and> isImportDeclaration p) \<or> isStringStatement p) body"
proof -
  let ?P = "\<lambda>p. (isProg \<and> isImportDeclaration p) \<or> isStringStatement p"
  let ?n = "length (takeWhile ?P body)"
  show ?thesis
  proof (cases "?n = 0")
    case True
    then have "takeWhile ?P body = []" by simp
    moreover from this have "dropWhile ?P body = body"
      by (metis append_Nil takeWhile_dropWhile_id)
    ultimately show ?thesis
      using True by (simp add: insertAfterPrologueAndImports_def scanAnchor_takeWhile)
  next
    case False
    then have s: "scanAnchor isProg body 0 None = Some (?n - 1)"
      by (simp add: scanAnchor_takeWhile Let_def)
    from False have n: "Suc (?n - 1) = ?n" by simp
    have t: "take ?n body = takeWhile ?P body" by (rule takeWhile_eq_take [symmetric])
    have d: "drop ?n body = dropWhile ?P body" by (rule dropWhile_eq_drop [symmetric])
    show ?thesis
      unfolding insertAfterPrologueAndImports_def s by (simp only: option.case n t d)
  qed
qed

lemma import_free_anchor:
  assumes "isProg \<or> \<not> list_ex isImportDeclaration body"
  shows "takeWhile (\<lambda>p. (isProg \<and> isImportDeclaration p) \<or> isStringStatement p) body
           = takeWhile leadingAnchor body
         \<and> dropWhile (\<lambda>p. (isProg \<and> isImportDeclaration p) \<or> isStringStatement p) body
           = dropWhile leadingAnchor body"
proof -
  have "\<forall>p \<in> set body. ((isProg \<and> isImportDeclaration p) \<or> isStringStatement p) = leadingAnchor p"
    using assms by (auto simp: leadingAnchor_def list_ex_iff)
  then show ?thesis
    by (metis (no_types, lifting) takeWhile_cong dropWhile_cong)
qed


lemma child_setChild:
  "child (setChild f k c) k = Some c"
proof (cases "k \<in> fst ` set (kids f)")
  case True
  have "map_of (map (\<lambda>kc. if fst kc = k then (k, c) else kc) ks) k = Some c"
    if "k \<in> fst ` set ks" for ks :: "(string \<times> node) list"
    using that by (induction ks) auto
  with True show ?thesis by (simp add: child_def setChild_def)
next
  case False
  then have "map_of (kids f) k = None" by (simp add: map_of_eq_None_iff)
  with False show ?thesis by (simp add: child_def setChild_def map_add_def)
qed

lemma setChild_setChild:
  "child f k \<noteq> None \<Longrightarrow> setChild (setChild f k c1) k c2 = setChild f k c2"
proof -
  assume "child f k \<noteq> None"
  then have m: "k \<in> fst ` set (kids f)"
    by (simp add: child_def map_of_eq_None_iff)
  have "fst \<circ> (\<lambda>kc. if fst kc = k then (k, c1) else kc) = fst"
    by (rule ext) simp
  then have "map fst (map (\<lambda>kc. if fst kc = k then (k, c1) else kc) (kids f)) = map fst (kids f)"
    by simp
  then have "fst ` set (map (\<lambda>kc. if fst kc = k then (k, c1) else kc) (kids f)) = fst ` set (kids f)"
    by (metis set_map)
  with m have m': "k \<in> fst ` set (map (\<lambda>kc. if fst kc = k then (k, c1) else kc) (kids f))"
    by simp
  show ?thesis
    using m m' by (simp add: setChild_def comp_def if_distrib cong: if_cong)
qed

lemma ntype_setChild: "ntype (setChild f k c) = ntype f"
  by (simp add: setChild_def)

lemma insertHoisted_arrow:
  assumes "isArrowFunctionExpression f" "child f ''body'' = Some e" "\<not> isBlockStatement e"
  shows "insertHoisted f decl
     = Inserted (setChild f ''body'' (t_blockStatement [decl, t_returnStatement (Some e)]))"
proof -
  let ?ret = "t_returnStatement (Some e)"
  have np: "\<not> isProgram f" using assms(1)
    by (simp add: isProgram_def isArrowFunctionExpression_def)
  have fn: "isFunction f" using assms(1)
    by (simp add: isFunction_def isArrowFunctionExpression_def)
  have ea: "ensureArrowBlock f = setChild f ''body'' (t_blockStatement [?ret])"
    using assms by (simp add: ensureArrowBlock_def)
  have nr: "\<not> isStringStatement ?ret"
    by (simp add: isStringStatement_def isExpressionStatement_def t_returnStatement_def)
  have ins: "insertAfterPrologueAndImports False [?ret] decl = [decl, ?ret]"
    by (simp add: insertAfterPrologueAndImports_def nr)
  have sb: "setBody (t_blockStatement [?ret]) [decl, ?ret] = t_blockStatement [decl, ?ret]"
    by (simp add: setBody_def t_blockStatement_def)
  have cb: "childs (t_blockStatement [?ret]) ''body'' = [?ret]"
    by (simp add: childs_def t_blockStatement_def)
  have ib: "isBlockStatement (t_blockStatement [?ret])"
    by (simp add: isBlockStatement_def t_blockStatement_def)
  have ss: "setChild (setChild f ''body'' (t_blockStatement [?ret])) ''body''
              (t_blockStatement [decl, ?ret])
            = setChild f ''body'' (t_blockStatement [decl, ?ret])"
    by (rule setChild_setChild) (simp add: assms(2))
  show ?thesis
    unfolding insertHoisted_def
    by (simp add: np fn assms(2,3) ea child_setChild ib cb ins sb ss)
qed


section \<open>Properties of the runtime helper\<close>










section \<open>The resolver in closed form\<close>

lemma outermostScopeWith_walk:
  assumes "freeVars \<noteq> []" "list_all (foundOnChain useSite) freeVars"
  shows "outermostScopeWith freeVars useSite
     = map_sum id (\<lambda>c. Some (last (c # takeWhile (canHoistToParent freeVars useSite) (widerCandidates c))))
         (enclosingFunctionOrProgram useSite)"
  using assms
  by (cases "enclosingFunctionOrProgram useSite")
     (simp_all add: outermostScopeWith_def widen_takeWhile del: widen.simps last.simps)






lemma floats_iff:
  "floats r \<longleftrightarrow> (\<exists>h st'. r = Some (Inr (Floated h, st')))"
  by (auto simp: floats_def split: option.splits sum.splits verdict.splits prod.splits)

lemma visitCallExpression_floats:
  "floats (visitCallExpression bg st p) \<longleftrightarrow> (\<exists>T. CallExpression_analysis st p = Inr (Accept T))"
proof
  assume "floats (visitCallExpression bg st p)"
  then obtain h st' where "visitCallExpression bg st p = Some (Inr (Floated h, st'))"
    by (auto simp: floats_iff)
  then show "\<exists>T. CallExpression_analysis st p = Inr (Accept T)"
    using visitCallExpression_Floated by blast
next
  assume "\<exists>T. CallExpression_analysis st p = Inr (Accept T)"
  then obtain T where T: "CallExpression_analysis st p = Inr (Accept T)" by blast
  obtain h st' where
    "performHoist bg st (deriveBaseFromCall (node p)) (node p) T (scope p) = Some (h, st')"
    using performHoist_Some [of bg st "deriveBaseFromCall (node p)" "node p" T "scope p"] by blast
  with T show "floats (visitCallExpression bg st p)"
    by (simp add: visitCallExpression_def floats_def)
qed

lemma visitVariableDeclarator_floats:
  "floats (visitVariableDeclarator bg st p) \<longleftrightarrow> (\<exists>T. VariableDeclarator_analysis st p = Inr (Accept T))"
proof
  assume "floats (visitVariableDeclarator bg st p)"
  then obtain h st' where "visitVariableDeclarator bg st p = Some (Inr (Floated h, st'))"
    by (auto simp: floats_iff)
  then show "\<exists>T. VariableDeclarator_analysis st p = Inr (Accept T)"
    using visitVariableDeclarator_Floated by blast
next
  assume "\<exists>T. VariableDeclarator_analysis st p = Inr (Accept T)"
  then obtain T where T: "VariableDeclarator_analysis st p = Inr (Accept T)" by blast
  then have "declarationCandidate st p" by (simp add: VariableDeclarator_Accept_checks)
  then obtain i where i: "child (node p) ''init'' = Some i"
    by (auto simp: declarationCandidate_def split: list.splits)
  obtain h st' where
    "performHoist bg st (declaredName (node p)) i T (scope p) = Some (h, st')"
    using performHoist_Some [of bg st "declaredName (node p)" i T "scope p"] by blast
  with T i show "floats (visitVariableDeclarator bg st p)"
    by (simp add: visitVariableDeclarator_def floats_def)
qed

lemma dependsOnLocalVar_iff:
  "dependsOnLocalVar sc fvs = list_ex (resolvesToVariable sc) fvs"
proof -
  have "(case getBinding sc n of None \<Rightarrow> False
         | Some (owner, b) \<Rightarrow> if kind b = Param then False
             else if kind b = Var \<or> kind b = Let \<or> kind b = Const then True else False)
        = resolvesToVariable sc n" for n
    by (auto simp: resolvesToVariable_def split: option.splits)
  then show ?thesis by (simp add: dependsOnLocalVar_def)
qed

section \<open>Evaluation of the example inputs\<close>

lemmas node_eval = t_callExpression_def t_identifier_def t_functionExpression_def
  t_blockStatement_def t_returnStatement_def t_thisExpression_def t_variableDeclarator_def
  t_logicalExpression_def t_arrowFunctionExpression_def t_variableDeclaration_def
  t_functionDeclaration_def t_binaryExpression_def t_memberExpression_def t_numericLiteral_def
  t_stringLiteral_def t_ifStatement_def t_staticBlock_def t_classBody_def t_classExpression_def
  t_expressionStatement_def t_importDeclaration_def t_program_def
  child_def childs_def strAttr_def boolAttr_def nameOf_def
  isIdentifier_def isIdentifierNamed_def isCallExpression_def isVariableDeclarator_def
  isVariableDeclaration_def isBlockStatement_def isExpressionStatement_def
  isImportDeclaration_def isStringLiteral_def isProgram_def isArrowFunctionExpression_def
  isFunction_def isFunctionParent_def isPattern_def isLiteral_def
  isThisExpression_def isSuper_def isNewTarget_def isNullaryCall_def

lemmas traverse_eval = traverse_def get_def isReferenced_def isReferencedIdentifier_def
  frameSensitive_def containsFrameSensitiveThings_def freeVarsOfNode_def freeVarsOfDecl_def
  setAdd_def isPureEnoughInit_def isPureEnoughDecl_def

lemmas scope_eval = getOwnBinding_def hasOwnBinding_def hasGlobal_def hasUid_def hasBinding_def
  foundOnChain_def paramNames_def getBinding_def getFunctionParent_def getProgramParent_def
  enclosingFunctionOrProgram_def nextFunctionOrProgram_def visibleFrom_def canHoistToParent_def
  outermostScopeWith_def

lemmas sc3_defs = scZ_def scY_def scMain_def scProgram_def
lemmas nd3_defs = prog3_def fnAdd_def fnMain_def fnY_def fnZ_def sumZ_def addXY_def

lemma ex3_types: "ntype fnZ = ''FunctionExpression''" "ntype fnY = ''FunctionExpression''"
  "ntype fnMain = ''FunctionDeclaration''" "ntype prog3 = ''Program''"
  by (simp_all add: nd3_defs node_eval)

lemma ex3_params: "childs fnZ ''params'' = [t_identifier ''z'']" "childs fnY ''params'' = [t_identifier ''y'']"
  "childs fnMain ''params'' = [t_identifier ''x'']" "childs prog3 ''params'' = []"
  by (simp_all add: nd3_defs node_eval)

lemmas kind_eval = isIdentifier_def isProgram_def isArrowFunctionExpression_def
  isFunction_def isFunctionParent_def isPattern_def nameOf_def strAttr_def

lemma addXY_freeVars: "freeVarsOfNode addXYPath = [''add'', ''x'', ''y'']"
  by (simp add: addXYPath_def addXY_def node_eval traverse_eval)

lemma addXY_resolve: "outermostScopeWith [''add'', ''x'', ''y''] scZ = Inr (Some scY)"
  by (simp add: sc3_defs scope_eval kind_eval ex3_types ex3_params t_identifier_def)

lemma addXYPath_sel: "node addXYPath = addXY" "scope addXYPath = scZ" "node_id addXYPath = 10"
  "key addXYPath = ''left''"
  by (simp_all add: addXYPath_def)

lemma scZ_current: "enclosingFunctionOrProgram scZ = Inr scZ"
  by (simp add: sc3_defs scope_eval kind_eval ex3_types)

lemma scY_neq_scZ: "scY \<noteq> scZ"
  by (simp add: scY_def scZ_def)

lemma addXY_no_local: "\<not> dependsOnLocalVar scZ [''add'', ''x'', ''y'']"
  by (simp add: dependsOnLocalVar_def sc3_defs scope_eval kind_eval ex3_types)

lemma addXY_pure: "isPureEnoughInit (Some addXY)"
  by (simp add: addXY_def node_eval traverse_eval)

lemma addXY_no_frame: "\<not> containsFrameSensitiveThings addXYPath"
  by (simp add: addXYPath_def addXY_def node_eval traverse_eval)

lemma addXY_candidate: "bareCallCandidate afterHelper addXYPath"
  by (simp add: bareCallCandidate_def helperName_def isHelperCall_def fbThunkName_def isDigit_def
        addXYPath_def afterHelper_def nd3_defs node_eval)

lemma addXY_analysis: "CallExpression_analysis afterHelper addXYPath = Inr (Accept scY)"
  by (simp add: CallExpression_analysis_candidate [OF addXY_candidate] addXYPath_sel addXY_freeVars addXY_resolve
        scZ_current scY_neq_scZ addXY_no_local addXY_pure addXY_no_frame)


lemmas name_eval = makeUniqueFbName_def getReserved_def isReserved_def taken_def sanitizeBase_def
  isIdentChar_def deriveBaseFromCall_def Let_def

lemma addXY_base: "deriveBaseFromCall addXY = ''add_y''"
  by (simp add: deriveBaseFromCall_def sanitizeBase_def isIdentChar_def addXY_def node_eval)

lemma addXY_name:
  "makeUniqueFbName [] (RESERVED_NAMES afterHelper) ''add_y'' scY scZ
     = Some (''add_y__fb'', RESERVED_NAMES afterAddXY)"
  by (simp add: name_eval afterHelper_def afterAddXY_def sc3_defs scope_eval kind_eval setAdd_def)

lemma addXY_insert:
  "insertHoisted fnY (fbDeclaration ''floatedBinding'' ''add_y__fb'' addXY)
     = Inserted (t_functionExpression None [t_identifier ''y'']
         (t_blockStatement [fbDeclaration ''floatedBinding'' ''add_y__fb'' addXY,
                            t_returnStatement (Some fnZ)]))"
  by (simp add: insertHoisted_def ensureArrowBlock_def insertAfterPrologueAndImports_def
        isStringStatement_def setChild_def setBody_def fnY_def fbDeclaration_def node_eval)

lemma addXY_hoist:
  "performHoist [] afterHelper ''add_y'' addXY scY scZ = Some (addXYHoist, afterAddXY)"
proof -
  have b: "block scY = fnY" by (simp add: scY_def)
  have h: "helperName afterHelper = ''floatedBinding''"
    by (simp add: helperName_def afterHelper_def)
  show ?thesis
    by (simp add: performHoist_def addXY_name Let_def h b addXY_insert addXYHoist_def)
       (simp add: afterHelper_def afterAddXY_def)
qed

lemma addXY_visit:
  "visitCallExpression [] afterHelper addXYPath = Some (Inr (Floated addXYHoist, afterAddXY))"
  by (simp add: visitCallExpression_def addXY_analysis addXYPath_sel addXY_base addXY_hoist)


lemmas sc4_defs = scZ4_def scY4_def scMain4_def scProgram4_def
lemmas nd4_defs = prog4_def fnAdd_def fnMain4_def fnY4_def fnZ4_def bodyZ4_def xyDeclaration_def
  xyDeclarator_def addXY_def

lemma ex4_types: "ntype fnZ4 = ''FunctionExpression''" "ntype fnY4 = ''FunctionExpression''"
  "ntype fnMain4 = ''FunctionDeclaration''" "ntype prog4 = ''Program''"
  by (simp_all add: nd4_defs node_eval)

lemma ex4_params: "childs fnZ4 ''params'' = [t_identifier ''z'']"
  "childs fnY4 ''params'' = [t_identifier ''y'']"
  "childs fnMain4 ''params'' = [t_identifier ''x'']" "childs prog4 ''params'' = []"
  by (simp_all add: nd4_defs node_eval)

lemma xyPath_sel: "node xyPath = xyDeclarator" "scope xyPath = scZ4" "node_id xyPath = 20"
  "parent_id xyPath = 21" "key xyPath = ''declarations''"
  by (simp_all add: xyPath_def)

lemma xy_init: "child xyDeclarator ''init'' = Some addXY"
  by (simp add: xyDeclarator_def t_variableDeclarator_def child_def)

lemma xy_declared: "declaredName xyDeclarator = ''xy''"
  by (simp add: declaredName_def xyDeclarator_def node_eval)

lemma xy_freeVars: "freeVarsOfDecl xyPath = [''add'', ''x'', ''y'']"
  by (simp add: xyPath_def xyDeclarator_def addXY_def node_eval traverse_eval)

lemma xy_pure: "isPureEnoughDecl xyPath"
  by (simp add: xyPath_def xyDeclarator_def addXY_def node_eval traverse_eval)

lemma xy_resolve: "outermostScopeWith [''add'', ''x'', ''y''] scZ4 = Inr (Some scY4)"
  by (simp add: sc4_defs scope_eval kind_eval ex4_types ex4_params t_identifier_def)

lemma scZ4_current: "enclosingFunctionOrProgram scZ4 = Inr scZ4"
  by (simp add: sc4_defs scope_eval kind_eval ex4_types)

lemma scY4_neq_scZ4: "scY4 \<noteq> scZ4"
  by (simp add: scY4_def scZ4_def)

lemma xy_binding: "getBinding scZ4 ''xy'' = Some (scZ4, \<lparr>kind = Var, referencePaths = 1\<rparr>)"
  by (simp add: sc4_defs scope_eval kind_eval ex4_types)

lemma xy_candidate: "declarationCandidate afterHelper xyPath"
  by (simp add: declarationCandidate_def xyPath_def afterHelper_def nd4_defs node_eval)

lemma xy_analysis: "VariableDeclarator_analysis afterHelper xyPath = Inr (Accept scY4)"
  by (simp add: VariableDeclarator_analysis_candidate [OF xy_candidate] xyPath_sel xy_init
        xy_declared xy_freeVars xy_pure xy_resolve scZ4_current scY4_neq_scZ4 xy_binding)

lemma xy_name:
  "makeUniqueFbName [] (RESERVED_NAMES afterHelper) ''xy'' scY4 scZ4
     = Some (''xy__fb'', RESERVED_NAMES afterXY)"
  by (simp add: name_eval afterHelper_def afterXY_def sc4_defs scope_eval kind_eval setAdd_def)

lemma xy_insert:
  "insertHoisted fnY4 (fbDeclaration ''floatedBinding'' ''xy__fb'' addXY)
     = Inserted (t_functionExpression None [t_identifier ''y'']
         (t_blockStatement [fbDeclaration ''floatedBinding'' ''xy__fb'' addXY,
                            t_returnStatement (Some fnZ4)]))"
  by (simp add: insertHoisted_def ensureArrowBlock_def insertAfterPrologueAndImports_def
        isStringStatement_def setChild_def setBody_def fnY4_def fbDeclaration_def node_eval)

lemma xy_hoist:
  "performHoist [] afterHelper ''xy'' addXY scY4 scZ4 = Some (xyHoist, afterXY)"
proof -
  have b: "block scY4 = fnY4" by (simp add: scY4_def)
  have h: "helperName afterHelper = ''floatedBinding''"
    by (simp add: helperName_def afterHelper_def)
  show ?thesis
    by (simp add: performHoist_def xy_name Let_def h b xy_insert xyHoist_def)
       (simp add: afterHelper_def afterXY_def)
qed

lemma xy_visit:
  "visitVariableDeclarator [] afterHelper xyPath = Some (Inr (Floated xyHoist, afterXY))"
  by (simp add: visitVariableDeclarator_def xy_analysis xyPath_sel xy_init xy_declared xy_hoist)

lemma nestedNullary_has: "list_ex isNullaryCall (subnodes nestedNullary)"
  by (simp add: nestedNullary_def node_eval)

lemma addXY_none: "list_all (\<lambda>d. \<not> isNullaryCall d) (subnodes addXY)"
  by (simp add: addXY_def node_eval)
















lemmas sc9_defs = scZ9_def scY9_def scMain9_def scProgram9_def
lemmas nd9_defs = prog9_def varAdd_def fnMain9_def fnY9_def fnZ9_def bodyZ9_def sumQZ_def sumQ_def
  qDeclarator_def addXY_def outerParents9_def

lemma ex9_types: "ntype fnZ9 = ''FunctionExpression''" "ntype fnY9 = ''FunctionExpression''"
  "ntype fnMain9 = ''FunctionDeclaration''" "ntype prog9 = ''Program''"
  by (simp_all add: nd9_defs node_eval)

lemma ex9_params: "childs fnZ9 ''params'' = [t_identifier ''z'']"
  "childs fnY9 ''params'' = [t_identifier ''y'']"
  "childs fnMain9 ''params'' = [t_identifier ''x'']" "childs prog9 ''params'' = []"
  by (simp_all add: nd9_defs node_eval)

lemma addXYPath9_sel: "node addXYPath9 = addXY" "scope addXYPath9 = scZ9"
  by (simp_all add: addXYPath9_def)

lemma qPath_sel: "node qPath = qDeclarator" "scope qPath = scZ9"
  by (simp_all add: qPath_def)

lemma addXY9_freeVars: "freeVarsOfNode addXYPath9 = [''add'', ''x'', ''y'']"
  by (simp add: addXYPath9_def addXY_def node_eval traverse_eval)

lemma addXY9_no_frame: "\<not> containsFrameSensitiveThings addXYPath9"
  by (simp add: addXYPath9_def addXY_def node_eval traverse_eval)

lemma addXY9_resolve: "outermostScopeWith [''add'', ''x'', ''y''] scZ9 = Inr (Some scY9)"
  by (simp add: sc9_defs scope_eval kind_eval ex9_types ex9_params t_identifier_def)

lemma scZ9_current: "enclosingFunctionOrProgram scZ9 = Inr scZ9"
  by (simp add: sc9_defs scope_eval kind_eval ex9_types)

lemma scProgram9_current: "enclosingFunctionOrProgram scProgram9 = Inr scProgram9"
  by (simp add: sc9_defs scope_eval kind_eval ex9_types)

lemma scY9_neq_scZ9: "scY9 \<noteq> scZ9" "scProgram9 \<noteq> scZ9"
  by (simp_all add: sc9_defs)

lemma addXY9_bindings:
  "getBinding scZ9 ''add'' = Some (scProgram9, \<lparr>kind = Var, referencePaths = 1\<rparr>)"
  "getBinding scZ9 ''x'' = Some (scMain9, \<lparr>kind = Param, referencePaths = 1\<rparr>)"
  "getBinding scZ9 ''y'' = Some (scY9, \<lparr>kind = Param, referencePaths = 1\<rparr>)"
  by (simp_all add: sc9_defs scope_eval kind_eval ex9_types)

lemma addXY9_candidate: "bareCallCandidate afterHelper addXYPath9"
  by (simp add: bareCallCandidate_def helperName_def isHelperCall_def fbThunkName_def isDigit_def
        addXYPath9_def afterHelper_def nd9_defs node_eval)

lemma q_candidate: "declarationCandidate afterHelper qPath"
  by (simp add: declarationCandidate_def qPath_def afterHelper_def nd9_defs node_eval)

lemma q_pure: "isPureEnoughDecl qPath"
  by (simp add: qPath_def qDeclarator_def node_eval traverse_eval)

lemma q_freeVars: "freeVarsOfDecl qPath = []"
  by (simp add: qPath_def qDeclarator_def node_eval traverse_eval)

lemma q_resolve: "outermostScopeWith [] scZ9 = Inr (Some scProgram9)"
  by (simp add: sc9_defs scope_eval kind_eval ex9_types)

lemma q_not_literal: "\<not> initIsLiteral qPath"
  by (simp add: initIsLiteral_def qPath_def qDeclarator_def node_eval)

lemma addXY9_checks:
  "passesChecks (isPureEnoughInit (Some (node addXYPath9)) \<and> \<not> containsFrameSensitiveThings addXYPath9)
     (freeVarsOfNode addXYPath9) (scope addXYPath9) scY9"
  by (simp add: passesChecks_def addXYPath9_sel addXY_pure addXY9_no_frame addXY9_freeVars
        addXY9_resolve scZ9_current scY9_neq_scZ9)

lemma q_checks:
  "passesChecks (isPureEnoughDecl qPath) (freeVarsOfDecl qPath) (scope qPath) scProgram9"
  by (simp add: passesChecks_def qPath_sel q_pure q_freeVars q_resolve scZ9_current scY9_neq_scZ9)

lemma addXY9_not_local:
  "\<not> list_ex (resolvesToLocalVariable scZ9) [''add'', ''x'', ''y'']"
  by (simp add: resolvesToLocalVariable_def addXY9_bindings scZ9_current scProgram9_current
        scY9_neq_scZ9)

lemma addXY9_variable:
  "list_ex (resolvesToVariable scZ9) [''add'', ''x'', ''y'']"
  by (simp add: resolvesToVariable_def addXY9_bindings)

lemma addXY_checks:
  "passesChecks (isPureEnoughInit (Some (node addXYPath)) \<and> \<not> containsFrameSensitiveThings addXYPath)
     (freeVarsOfNode addXYPath) (scope addXYPath) scY"
  by (simp add: passesChecks_def addXYPath_sel addXY_pure addXY_no_frame addXY_freeVars
        addXY_resolve scZ_current scY_neq_scZ)

lemma xy_checks:
  "passesChecks (isPureEnoughDecl xyPath) (freeVarsOfDecl xyPath) (scope xyPath) scY4"
  by (simp add: passesChecks_def xyPath_sel xy_pure xy_freeVars xy_resolve scZ4_current scY4_neq_scZ4)

lemmas sc7_defs = scZ7_def scQ7_def scTop7_def scProgram7_def
lemmas nd7_defs = prog7_def fnTop7_def fnQ7_def fnZ7_def callFA_def fnA_def bodyA_def innerQ_def
  callGK_def
lemmas sc7'_defs = scA_def scProducer_def scQ7'_def scTop7'_def scProgram7'_def
lemmas nd7'_defs = prog7'_def fnTop7'_def fnQ7'_def bodyQ7'_def fnZ7'_def fbDeclF_def
  helperCallF_def producerF_def fbDeclaration_def

lemma ex7_types: "ntype fnZ7 = ''FunctionExpression''" "ntype fnQ7 = ''FunctionExpression''"
  "ntype fnTop7 = ''FunctionDeclaration''" "ntype prog7 = ''Program''"
  by (simp_all add: nd7_defs node_eval)

lemma ex7_params: "childs fnZ7 ''params'' = [t_identifier ''z'']"
  "childs fnQ7 ''params'' = [t_identifier ''q'']"
  "childs fnTop7 ''params'' = [t_identifier ''k'']" "childs prog7 ''params'' = []"
  by (simp_all add: nd7_defs node_eval)

lemma ex7'_types: "ntype fnA = ''FunctionExpression''" "ntype producerF = ''ArrowFunctionExpression''"
  "ntype fnQ7' = ''FunctionExpression''"
  "ntype fnTop7' = ''FunctionDeclaration''" "ntype prog7' = ''Program''"
  by (simp_all add: nd7_defs nd7'_defs node_eval)

lemma ex7'_params: "childs fnA ''params'' = [t_identifier ''a'']"
  "childs producerF ''params'' = []"
  "childs fnQ7' ''params'' = [t_identifier ''q'']"
  "childs fnTop7' ''params'' = [t_identifier ''k'']" "childs prog7' ''params'' = []"
  by (simp_all add: nd7_defs nd7'_defs node_eval)

lemma callFAPath_sel: "node callFAPath = callFA" "scope callFAPath = scZ7"
  by (simp_all add: callFAPath_def)

lemma innerQPath_sel: "node innerQPath = innerQ" "scope innerQPath = scA"
  by (simp_all add: innerQPath_def)

lemma callFA_freeVars: "freeVarsOfNode callFAPath = [''f'', ''g'', ''k'', ''q'']"
  by (simp add: callFAPath_def nd7_defs node_eval traverse_eval)

lemma callFA_pure: "isPureEnoughInit (Some callFA)"
  by (simp add: nd7_defs node_eval traverse_eval)

lemma callFA_no_frame: "\<not> containsFrameSensitiveThings callFAPath"
  by (simp add: callFAPath_def nd7_defs node_eval traverse_eval)

lemma callFA_resolve: "outermostScopeWith [''f'', ''g'', ''k'', ''q''] scZ7 = Inr (Some scQ7)"
  by (simp add: sc7_defs scope_eval kind_eval ex7_types ex7_params t_identifier_def)

lemma scZ7_current: "enclosingFunctionOrProgram scZ7 = Inr scZ7"
  by (simp add: sc7_defs scope_eval kind_eval ex7_types)

lemma scQ7_neq_scZ7: "scQ7 \<noteq> scZ7"
  by (simp add: sc7_defs)

lemma callFA_no_local: "\<not> dependsOnLocalVar scZ7 [''f'', ''g'', ''k'', ''q'']"
  by (simp add: dependsOnLocalVar_def sc7_defs scope_eval kind_eval ex7_types)

lemma callFA_candidate: "bareCallCandidate afterHelper7 callFAPath"
  by (simp add: bareCallCandidate_def helperName_def isHelperCall_def fbThunkName_def isDigit_def
        callFAPath_def afterHelper7_def nd7_defs node_eval)

lemma callFA_analysis: "CallExpression_analysis afterHelper7 callFAPath = Inr (Accept scQ7)"
  by (simp add: CallExpression_analysis_candidate [OF callFA_candidate] callFAPath_sel
        callFA_pure callFA_no_frame callFA_freeVars callFA_resolve scZ7_current scQ7_neq_scZ7
        callFA_no_local)

lemma callFA_base: "deriveBaseFromCall callFA = ''f''"
  by (simp add: deriveBaseFromCall_def sanitizeBase_def isIdentChar_def nd7_defs node_eval)

lemma callFA_name:
  "makeUniqueFbName [] (RESERVED_NAMES afterHelper7) ''f'' scQ7 scZ7
     = Some (''f__fb'', RESERVED_NAMES afterCallFA)"
  by (simp add: name_eval afterHelper7_def afterCallFA_def sc7_defs scope_eval kind_eval setAdd_def)

lemma callFA_insert:
  "insertHoisted fnQ7 fbDeclF
     = Inserted (t_functionExpression None [t_identifier ''q'']
         (t_blockStatement [fbDeclF, t_returnStatement (Some fnZ7)]))"
  by (simp add: insertHoisted_def ensureArrowBlock_def insertAfterPrologueAndImports_def
        isStringStatement_def setChild_def setBody_def fnQ7_def fbDeclF_def fbDeclaration_def node_eval)

lemma callFA_hoist:
  "performHoist [] afterHelper7 ''f'' callFA scQ7 scZ7 = Some (callFAHoist, afterCallFA)"
proof -
  have b: "block scQ7 = fnQ7" by (simp add: scQ7_def)
  have h: "helperName afterHelper7 = ''floatedBinding''"
    by (simp add: helperName_def afterHelper7_def)
  show ?thesis
    by (simp add: performHoist_def callFA_name Let_def h b callFA_insert [unfolded fbDeclF_def]
          callFAHoist_def fbDeclF_def)
       (simp add: afterHelper7_def afterCallFA_def)
qed

lemma callFA_visit:
  "visitCallExpression [] afterHelper7 callFAPath = Some (Inr (Floated callFAHoist, afterCallFA))"
  by (simp add: visitCallExpression_def callFA_analysis callFAPath_sel callFA_base callFA_hoist)

lemma innerQ_init: "child innerQ ''init'' = Some callGK"
  by (simp add: innerQ_def node_eval)

lemma innerQ_declared: "declaredName innerQ = ''q''"
  by (simp add: declaredName_def innerQ_def node_eval)

lemma innerQ_freeVars: "freeVarsOfDecl innerQPath = [''g'', ''k'']"
  by (simp add: innerQPath_def innerQ_def callGK_def node_eval traverse_eval)

lemma innerQ_pure: "isPureEnoughDecl innerQPath"
  by (simp add: innerQPath_def innerQ_def callGK_def node_eval traverse_eval)

lemma innerQ_resolve: "outermostScopeWith [''g'', ''k''] scA = Inr (Some scTop7')"
  by (simp add: sc7'_defs scope_eval kind_eval ex7'_types ex7'_params t_identifier_def)

lemma scA_current: "enclosingFunctionOrProgram scA = Inr scA"
  by (simp add: sc7'_defs scope_eval kind_eval ex7'_types)

lemma scTop7'_neq_scA: "scTop7' \<noteq> scA"
  by (simp add: sc7'_defs)

lemma innerQ_binding: "getBinding scA ''q'' = Some (scA, \<lparr>kind = Var, referencePaths = 1\<rparr>)"
  by (simp add: sc7'_defs scope_eval kind_eval ex7'_types)

lemma innerQ_candidate: "declarationCandidate afterCallFA innerQPath"
  by (simp add: declarationCandidate_def innerQPath_def afterCallFA_def nd7_defs nd7'_defs node_eval)

lemma innerQ_analysis: "VariableDeclarator_analysis afterCallFA innerQPath = Inr (Accept scTop7')"
  by (simp add: VariableDeclarator_analysis_candidate [OF innerQ_candidate] innerQPath_sel
        innerQ_init innerQ_declared innerQ_freeVars innerQ_pure innerQ_resolve scA_current
        scTop7'_neq_scA innerQ_binding)

lemma innerQ_name:
  "makeUniqueFbName [] (RESERVED_NAMES afterCallFA) ''q'' scTop7' scA
     = Some (''q__fb'', RESERVED_NAMES afterInnerQ)"
  by (simp add: name_eval afterCallFA_def afterInnerQ_def sc7'_defs scope_eval kind_eval setAdd_def)

lemma innerQ_insert:
  "insertHoisted fnTop7' (fbDeclaration ''floatedBinding'' ''q__fb'' callGK)
     = Inserted (t_functionDeclaration (t_identifier ''top'') [t_identifier ''k'']
         (t_blockStatement [fbDeclaration ''floatedBinding'' ''q__fb'' callGK,
                            t_returnStatement (Some fnQ7')]))"
  by (simp add: insertHoisted_def ensureArrowBlock_def insertAfterPrologueAndImports_def
        isStringStatement_def setChild_def setBody_def fnTop7'_def fbDeclaration_def node_eval)

lemma innerQ_hoist:
  "performHoist [] afterCallFA ''q'' callGK scTop7' scA = Some (innerQHoist, afterInnerQ)"
proof -
  have b: "block scTop7' = fnTop7'" by (simp add: scTop7'_def)
  have h: "helperName afterCallFA = ''floatedBinding''"
    by (simp add: helperName_def afterCallFA_def)
  show ?thesis
    by (simp add: performHoist_def innerQ_name Let_def h b innerQ_insert innerQHoist_def)
       (simp add: afterCallFA_def afterInnerQ_def)
qed

lemma innerQ_visit:
  "visitVariableDeclarator [] afterCallFA innerQPath = Some (Inr (Floated innerQHoist, afterInnerQ))"
  by (simp add: visitVariableDeclarator_def innerQ_analysis innerQPath_sel innerQ_init
        innerQ_declared innerQ_hoist)

lemma innerQ_in_copy: "node innerQPath \<in> set (tl (subnodes (cloned callFAHoist)))"
  by (simp add: innerQPath_def callFAHoist_def nd7_defs node_eval)

lemma innerQ_below_decl: "fbDecl callFAHoist \<in> set (parents innerQPath)"
  by (simp add: innerQPath_def callFAHoist_def)

lemmas sc1_defs = scIf1_def scZ1_def scQ1_def scTop1_def scProgram1_def
lemmas scS_defs = scStaticS_def scClassS_def scTopS_def scProgramS_def
lemmas spec_eval = functionScope_def topLevelScope_def staticBlockScope_def topLevelUnit_def
  firstCandidate_def widerCandidates_def parameterOf_def resolvable_def acceptsWidening_def
  resolveFrom_def resolveSpec_def resolveAmended_def paramsRegistered_def outsideStaticBlocks_def

lemma ex1_types: "ntype ifBlock = ''BlockStatement''" "ntype fnZ1 = ''FunctionExpression''"
  "ntype fnQ1 = ''FunctionExpression''" "ntype fnTop1 = ''FunctionDeclaration''"
  "ntype prog1 = ''Program''"
  by (simp_all add: ifBlock_def fnZ1_def fnQ1_def fnTop1_def prog1_def node_eval)

lemma ex1_params: "childs ifBlock ''params'' = []" "childs fnZ1 ''params'' = [t_identifier ''z'']"
  "childs fnQ1 ''params'' = [t_identifier ''q'']"
  "childs fnTop1 ''params'' = [t_identifier ''k'']" "childs prog1 ''params'' = []"
  by (simp_all add: ifBlock_def fnZ1_def fnQ1_def fnTop1_def prog1_def node_eval)

lemma exS_types: "ntype staticS = ''StaticBlock''" "ntype classS = ''ClassExpression''"
  "ntype fnTopS = ''FunctionDeclaration''" "ntype progS = ''Program''"
  by (simp_all add: staticS_def classS_def fnTopS_def progS_def node_eval)

lemma exS_params: "childs staticS ''params'' = []" "childs classS ''params'' = []"
  "childs fnTopS ''params'' = [t_identifier ''k'']" "childs progS ''params'' = []"
  by (simp_all add: staticS_def classS_def fnTopS_def progS_def node_eval)

lemma fqk_resolve: "outermostScopeWith [''f'', ''q'', ''k''] scIf1 = Inr (Some scQ1)"
  by (simp add: sc1_defs scope_eval kind_eval ex1_types ex1_params t_identifier_def)

lemma fqk_resolvable: "list_all (resolvable scIf1) [''f'', ''q'', ''k'']"
  by (simp add: resolvable_def sc1_defs scope_eval)

lemma scIf1_registered: "paramsRegistered scIf1"
  by (simp add: paramsRegistered_def functionScope_def sc1_defs scope_eval ex1_types ex1_params
        t_identifier_def nameOf_def strAttr_def)

lemma scIf1_outside: "outsideStaticBlocks scIf1"
  by (simp add: outsideStaticBlocks_def staticBlockScope_def sc1_defs ex1_types)

lemma scIf1_first: "firstCandidate functionScope scIf1 = Inr scZ1"
  by (simp add: firstCandidate_def functionScope_def sc1_defs ex1_types)

lemma q_parameter: "parameterOf scQ1 ''q''"
  by (simp add: parameterOf_def functionScope_def sc1_defs ex1_types ex1_params t_identifier_def
        nameOf_def strAttr_def)

lemma q_owner: "getBinding scIf1 ''q'' = Some (scIf1, \<lparr>kind = Let, referencePaths = 1\<rparr>)"
  by (simp add: sc1_defs scope_eval kind_eval ex1_types)

lemma scIf1_not_above: "scIf1 \<notin> set (chain scQ1)"
  by (simp add: sc1_defs)

lemma q_no_global: "\<not> hasGlobal scQ1 ''q''"
  by (simp add: sc1_defs scope_eval)

lemma ha_resolve: "outermostScopeWith [''h'', ''a''] scStaticS = Inr (Some scStaticS)"
  by (simp add: scS_defs scope_eval kind_eval exS_types exS_params t_identifier_def)

lemma ha_resolvable: "list_all (resolvable scStaticS) [''h'', ''a'']"
  by (simp add: resolvable_def scS_defs scope_eval)

lemma scStaticS_registered: "paramsRegistered scStaticS"
  by (simp add: paramsRegistered_def functionScope_def scS_defs scope_eval exS_types exS_params
        t_identifier_def nameOf_def strAttr_def)

lemma ha_spec: "resolveSpec [''h'', ''a''] scStaticS = Inr (Some scTopS)"
  by (simp add: spec_eval scS_defs scope_eval kind_eval exS_types exS_params)
section \<open>The claims\<close>

text \<open>
  Claim C3. The purity analysis rejects every subtree that contains a call expression
  with zero arguments at any depth: \<open>isPureEnoughInit\<close> is false for such a subtree and
  \<open>isPureEnoughDecl\<close> is false for a declarator with such an initializer. Hence the
  expression that either visitor copies into a hoisted declaration, which is the
  visited call itself or the declarator's initializer, contains no nullary call,
  itself included.
\<close>

theorem C3_nullary_calls_never_floated:
  "(list_ex isNullaryCall (subnodes n) \<longrightarrow> \<not> isPureEnoughInit (Some n))
   \<and> (child (node dp) ''init'' = Some i \<and> list_ex isNullaryCall (subnodes i)
        \<longrightarrow> \<not> isPureEnoughDecl dp)
   \<and> (visitCallExpression bg st p = Some (Inr (Floated h, st'))
        \<longrightarrow> cloned h = node p \<and> list_all (\<lambda>d. \<not> isNullaryCall d) (subnodes (cloned h)))
   \<and> (visitVariableDeclarator bg st p = Some (Inr (Floated h, st'))
        \<longrightarrow> child (node p) ''init'' = Some (cloned h)
            \<and> list_all (\<lambda>d. \<not> isNullaryCall d) (subnodes (cloned h)))"
proof (intro conjI impI)
  assume "list_ex isNullaryCall (subnodes n)"
  then show "\<not> isPureEnoughInit (Some n)"
    by (simp add: isPureEnoughInit_iff list_ex_iff)
next
  assume a: "child (node dp) ''init'' = Some i \<and> list_ex isNullaryCall (subnodes i)"
  show "\<not> isPureEnoughDecl dp"
  proof
    assume "isPureEnoughDecl dp"
    with a have "isPureEnoughInit (Some i)" by (simp add: isPureEnoughDecl_init)
    with a show False by (simp add: isPureEnoughInit_iff list_ex_iff)
  qed
next
  assume v: "visitCallExpression bg st p = Some (Inr (Floated h, st'))"
  then have acc: "CallExpression_analysis st p = Inr (Accept (targetScope h))"
    and c: "cloned h = node p"
    by (simp_all add: visitCallExpression_Floated)
  from acc have "isPureEnoughInit (Some (node p))"
    by (simp add: CallExpression_Accept_checks)
  with c show "list_all (\<lambda>d. \<not> isNullaryCall d) (subnodes (cloned h))"
    by (simp add: isPureEnoughInit_iff list_all_iff)
  from c show "cloned h = node p" .
next
  assume v: "visitVariableDeclarator bg st p = Some (Inr (Floated h, st'))"
  then have acc: "VariableDeclarator_analysis st p = Inr (Accept (targetScope h))"
    and c: "child (node p) ''init'' = Some (cloned h)"
    by (simp_all add: visitVariableDeclarator_Floated)
  from acc have "isPureEnoughDecl p"
    by (simp add: VariableDeclarator_Accept_checks)
  then have "isPureEnoughInit (Some (cloned h))" using c by (rule isPureEnoughDecl_init)
  then show "list_all (\<lambda>d. \<not> isNullaryCall d) (subnodes (cloned h))"
    by (simp add: isPureEnoughInit_iff list_all_iff)
  from c show "child (node p) ''init'' = Some (cloned h)" .
qed

theorem C3_witness:
  "\<not> isPureEnoughInit (Some nestedNullary)
   \<and> \<not> isPureEnoughDecl nullaryDeclarator
   \<and> visitCallExpression [] afterHelper addXYPath = Some (Inr (Floated addXYHoist, afterAddXY))
   \<and> list_all (\<lambda>d. \<not> isNullaryCall d) (subnodes (cloned addXYHoist))
   \<and> visitVariableDeclarator [] afterHelper xyPath = Some (Inr (Floated xyHoist, afterXY))
   \<and> list_all (\<lambda>d. \<not> isNullaryCall d) (subnodes (cloned xyHoist))"
proof -
  have i: "child (node nullaryDeclarator) ''init'' = Some nestedNullary"
    by (simp add: nullaryDeclarator_def t_variableDeclarator_def child_def)
  note a = C3_nullary_calls_never_floated
    [where n = nestedNullary and dp = nullaryDeclarator and i = nestedNullary and bg = "[]"
       and st = afterHelper and p = addXYPath and h = addXYHoist and st' = afterAddXY]
  note b = C3_nullary_calls_never_floated
    [where n = nestedNullary and dp = nullaryDeclarator and i = nestedNullary and bg = "[]"
       and st = afterHelper and p = xyPath and h = xyHoist and st' = afterXY]
  have 1: "\<not> isPureEnoughInit (Some nestedNullary)"
    using a nestedNullary_has by blast
  have 2: "\<not> isPureEnoughDecl nullaryDeclarator"
    using a i nestedNullary_has by blast
  have 3: "list_all (\<lambda>d. \<not> isNullaryCall d) (subnodes (cloned addXYHoist))"
    using a addXY_visit by blast
  have 4: "list_all (\<lambda>d. \<not> isNullaryCall d) (subnodes (cloned xyHoist))"
    using b xy_visit by blast
  show ?thesis by (intro conjI 1 2 3 4 addXY_visit xy_visit)
qed


text \<open>
  Claim C8, amended. The frame-sensitivity check is a plain traversal of everything
  strictly below the root of the subtree and has no nesting awareness: the subtree is
  ineligible if and only if a \<^verbatim>\<open>this\<close>, a \<^verbatim>\<open>super\<close> or a \<^verbatim>\<open>new.target\<close> occurs
  anywhere below the root, or an identifier \<^verbatim>\<open>arguments\<close> occurs there in reference
  position, whether under arrow functions, under nested ordinary functions, or under
  neither. The root itself is not examined, and an \<^verbatim>\<open>arguments\<close> that is not in
  reference position does not count. The claim as stated fails on
  \<^verbatim>\<open>f(function () { return this; })\<close>, where the only frame-sensitive reference lies
  inside a nested ordinary function and the check still reports it.
\<close>

theorem C8_frame_check_has_no_nesting_awareness:
  "(list_ex (\<lambda>d. isThisExpression d \<or> isSuper d \<or> isNewTarget d) (tl (subnodes (node p)))
      \<longrightarrow> containsFrameSensitiveThings p)
   \<and> (list_ex (\<lambda>q. isIdentifier (node q) \<and> nameOf (node q) = ''arguments''
                      \<and> isReferencedIdentifier q) (traverse p)
      \<longrightarrow> containsFrameSensitiveThings p)
   \<and> (containsFrameSensitiveThings p
      \<longrightarrow> list_ex (\<lambda>d. isThisExpression d \<or> isSuper d \<or> isNewTarget d) (tl (subnodes (node p)))
          \<or> list_ex (\<lambda>q. isIdentifier (node q) \<and> nameOf (node q) = ''arguments''
                          \<and> isReferencedIdentifier q) (traverse p))"
proof (intro conjI impI)
  assume "list_ex (\<lambda>d. isThisExpression d \<or> isSuper d \<or> isNewTarget d) (tl (subnodes (node p)))"
  then obtain d where d: "d \<in> set (tl (subnodes (node p)))"
    "isThisExpression d \<or> isSuper d \<or> isNewTarget d"
    by (auto simp: list_ex_iff)
  from d(1) obtain q where q: "q \<in> set (traverse p)" "node q = d"
    using below_traverse by blast
  with d(2) have "frameSensitive q" by (auto simp: frameSensitive_def)
  with q(1) show "containsFrameSensitiveThings p"
    by (auto simp: containsFrameSensitiveThings_iff)
next
  assume "list_ex (\<lambda>q. isIdentifier (node q) \<and> nameOf (node q) = ''arguments''
                      \<and> isReferencedIdentifier q) (traverse p)"
  then show "containsFrameSensitiveThings p"
    by (auto simp: containsFrameSensitiveThings_iff list_ex_iff frameSensitive_def)
next
  assume "containsFrameSensitiveThings p"
  then obtain q where q: "q \<in> set (traverse p)" "frameSensitive q"
    by (auto simp: containsFrameSensitiveThings_iff)
  from q(1) have m: "node q \<in> set (tl (subnodes (node p)))" by (rule traverse_node_below)
  from q(2) consider
    (node) "isThisExpression (node q) \<or> isSuper (node q) \<or> isNewTarget (node q)"
    | (ident) "isIdentifier (node q) \<and> nameOf (node q) = ''arguments'' \<and> isReferencedIdentifier q"
    by (auto simp: frameSensitive_def)
  then show "list_ex (\<lambda>d. isThisExpression d \<or> isSuper d \<or> isNewTarget d) (tl (subnodes (node p)))
          \<or> list_ex (\<lambda>q. isIdentifier (node q) \<and> nameOf (node q) = ''arguments''
                          \<and> isReferencedIdentifier q) (traverse p)"
  proof cases
    case node
    with m have "list_ex (\<lambda>d. isThisExpression d \<or> isSuper d \<or> isNewTarget d)
                   (tl (subnodes (node p)))"
      unfolding list_ex_iff by blast
    then show ?thesis by simp
  next
    case ident
    with q(1) have "list_ex (\<lambda>q. isIdentifier (node q) \<and> nameOf (node q) = ''arguments''
                          \<and> isReferencedIdentifier q) (traverse p)"
      unfolding list_ex_iff by blast
    then show ?thesis by simp
  qed
qed

theorem C8_witness:
  "containsFrameSensitiveThings thisInsideArrow
   \<and> containsFrameSensitiveThings argumentsCall
   \<and> \<not> containsFrameSensitiveThings thisInitializer
   \<and> \<not> containsFrameSensitiveThings argumentsProperty"
proof -
  have h1: "list_ex (\<lambda>d. isThisExpression d \<or> isSuper d \<or> isNewTarget d)
              (tl (subnodes (node thisInsideArrow)))"
    by (simp add: thisInsideArrow_def node_eval)
  have h2: "list_ex (\<lambda>q. isIdentifier (node q) \<and> nameOf (node q) = ''arguments''
                      \<and> isReferencedIdentifier q) (traverse argumentsCall)"
    by (simp add: argumentsCall_def node_eval traverse_eval)
  have 1: "containsFrameSensitiveThings thisInsideArrow"
    using C8_frame_check_has_no_nesting_awareness [of thisInsideArrow] h1 by blast
  have 2: "containsFrameSensitiveThings argumentsCall"
    using C8_frame_check_has_no_nesting_awareness [of argumentsCall] h2 by blast
  have n3: "\<not> list_ex (\<lambda>d. isThisExpression d \<or> isSuper d \<or> isNewTarget d)
                 (tl (subnodes (node thisInitializer)))"
    "\<not> list_ex (\<lambda>q. isIdentifier (node q) \<and> nameOf (node q) = ''arguments''
                      \<and> isReferencedIdentifier q) (traverse thisInitializer)"
    by (simp_all add: thisInitializer_def node_eval traverse_eval)
  have 3: "\<not> containsFrameSensitiveThings thisInitializer"
    using C8_frame_check_has_no_nesting_awareness [of thisInitializer] n3 by blast
  have n4: "\<not> list_ex (\<lambda>d. isThisExpression d \<or> isSuper d \<or> isNewTarget d)
                 (tl (subnodes (node argumentsProperty)))"
    "\<not> list_ex (\<lambda>q. isIdentifier (node q) \<and> nameOf (node q) = ''arguments''
                      \<and> isReferencedIdentifier q) (traverse argumentsProperty)"
    by (simp_all add: argumentsProperty_def node_eval traverse_eval
          isThisExpression_def isSuper_def isNewTarget_def)
  have 4: "\<not> containsFrameSensitiveThings argumentsProperty"
    using C8_frame_check_has_no_nesting_awareness [of argumentsProperty] n4 by blast
  show ?thesis by (intro conjI 1 2 3 4)
qed

theorem C8_counterexample:
  "onlyInsideOrdinaryFunctions thisInsideFunction \<and> containsFrameSensitiveThings thisInsideFunction"
  by (simp add: thisInsideFunction_def onlyInsideOrdinaryFunctions_def innerAncestors_def
        isOrdinaryFunction_def node_eval traverse_eval)


text \<open>
  Claim C7, amended. The free variables of a subtree are exactly the names of the
  identifiers that stand in reference position strictly below its root, each once:
  every such identifier contributes its name, every reported name is the name of an
  identifier in reference position strictly below the root, and names that the
  subtree binds itself are not removed. The free variables of a declaration are those
  of the subtree of its initializer, so the initializer itself, the root, is not
  reported; the declared name is not removed either: when an identifier below the
  initializer reads it, it is among the free variables. The claim as stated fails on
  \<^verbatim>\<open>f(function (a) { return a; })\<close>, where \<^verbatim>\<open>a\<close> is bound inside the subtree and is
  reported, and on \<^verbatim>\<open>var x = y\<close>, where \<^verbatim>\<open>y\<close> is read and is not reported.
\<close>

theorem C7_free_variables_are_referenced_identifiers:
  "list_all (\<lambda>q. isReferencedIdentifier q \<longrightarrow> nameOf (node q) \<in> set (freeVarsOfNode p)) (traverse p)
   \<and> list_all (\<lambda>n. list_ex (\<lambda>q. isReferencedIdentifier q \<and> nameOf (node q) = n) (traverse p))
        (freeVarsOfNode p)
   \<and> distinct (freeVarsOfNode p)
   \<and> (get dp ''init'' = Some ip \<longrightarrow> freeVarsOfDecl dp = freeVarsOfNode ip)
   \<and> (get dp ''init'' = Some ip
        \<and> list_ex (\<lambda>q. isReferencedIdentifier q \<and> nameOf (node q) = declaredName (node dp))
             (traverse ip)
      \<longrightarrow> declaredName (node dp) \<in> set (freeVarsOfDecl dp))"
proof (intro conjI impI)
  show "list_all (\<lambda>q. isReferencedIdentifier q \<longrightarrow> nameOf (node q) \<in> set (freeVarsOfNode p)) (traverse p)"
    by (auto simp: list_all_iff set_freeVarsOfNode)
  show "list_all (\<lambda>n. list_ex (\<lambda>q. isReferencedIdentifier q \<and> nameOf (node q) = n) (traverse p))
        (freeVarsOfNode p)"
    by (auto simp: list_all_iff list_ex_iff set_freeVarsOfNode)
  show "distinct (freeVarsOfNode p)"
    by (simp add: freeVarsOfNode_def distinct_foldl_setAdd)
next
  assume "get dp ''init'' = Some ip"
  then show "freeVarsOfDecl dp = freeVarsOfNode ip"
    by (simp add: freeVarsOfDecl_def)
next
  assume a: "get dp ''init'' = Some ip
        \<and> list_ex (\<lambda>q. isReferencedIdentifier q \<and> nameOf (node q) = declaredName (node dp))
             (traverse ip)"
  then obtain q where q: "q \<in> set (traverse ip)" "isReferencedIdentifier q"
    "nameOf (node q) = declaredName (node dp)"
    by (auto simp: list_ex_iff)
  have "nameOf (node q) \<in> (\<lambda>q. nameOf (node q)) ` {q \<in> set (traverse ip). isReferencedIdentifier q}"
    using q(1,2) by (intro imageI) simp
  then have "declaredName (node dp) \<in> set (freeVarsOfNode ip)"
    by (simp add: set_freeVarsOfNode q(3))
  with a show "declaredName (node dp) \<in> set (freeVarsOfDecl dp)"
    by (simp add: freeVarsOfDecl_def)
qed

theorem C7_witness:
  "''x'' \<in> set (freeVarsOfDecl selfReference)
   \<and> freeVarsOfDecl selfReference = [''x'', ''y'']
   \<and> distinct (freeVarsOfNode identityArgument)
   \<and> list_all (\<lambda>q. isReferencedIdentifier q \<longrightarrow> nameOf (node q) \<in> set (freeVarsOfNode identityArgument))
        (traverse identityArgument)"
proof -
  define ip where "ip = \<lparr>node = t_logicalExpression ''||'' (t_identifier ''x'') (t_identifier ''y''),
     key = ''init'', parents = [node selfReference]\<rparr>"
  have g: "get selfReference ''init'' = Some ip"
    by (simp add: ip_def selfReference_def get_def node_eval)
  have r: "list_ex (\<lambda>q. isReferencedIdentifier q \<and> nameOf (node q) = declaredName (node selfReference))
             (traverse ip)"
    by (simp add: ip_def selfReference_def declaredName_def node_eval traverse_eval)
  have d: "declaredName (node selfReference) = ''x''"
    by (simp add: selfReference_def declaredName_def node_eval)
  note c = C7_free_variables_are_referenced_identifiers
    [where p = identityArgument and dp = selfReference and ip = ip]
  have "declaredName (node selfReference) \<in> set (freeVarsOfDecl selfReference)"
    using c g r by blast
  then have 1: "''x'' \<in> set (freeVarsOfDecl selfReference)" by (simp only: d)
  have "freeVarsOfNode ip = [''x'', ''y'']"
    by (simp add: ip_def selfReference_def node_eval traverse_eval)
  moreover have "freeVarsOfDecl selfReference = freeVarsOfNode ip" using c g by blast
  ultimately have e1: "freeVarsOfDecl selfReference = [''x'', ''y'']" by simp
  have 2: "distinct (freeVarsOfNode identityArgument)" using c by blast
  have 3: "list_all (\<lambda>q. isReferencedIdentifier q \<longrightarrow> nameOf (node q) \<in> set (freeVarsOfNode identityArgument))
        (traverse identityArgument)" using c by blast
  show ?thesis by (intro conjI 1 e1 2 3)
qed

theorem C7_counterexample:
  "''a'' \<in> set (namesBoundWithin (node identityArgument))
   \<and> ''a'' \<in> set (freeVarsOfNode identityArgument)
   \<and> get bareInitializer ''init'' = Some readY
   \<and> isReferencedIdentifier readY
   \<and> freeVarsOfDecl bareInitializer = []"
  by (simp add: identityArgument_def bareInitializer_def readY_def namesBoundWithin_def
        bindsNames_def node_eval traverse_eval)


text \<open>
  Claim C10. An arrow function whose body is an expression gets a block body whose sole
  statement returns that expression, and the declaration is inserted into this block.
  In the statement list of the container (the program body, or the body block of a
  function) the declaration is placed immediately after the leading run of import
  declarations and string-literal expression statements, and at the very front when
  the list does not begin with such a statement. (Import declarations count only in a
  program body; a block cannot contain one.)
\<close>

theorem C10_insertion_after_leading_anchors:
  "(isArrowFunctionExpression f \<and> child f ''body'' = Some e \<and> \<not> isBlockStatement e
      \<longrightarrow> child (ensureArrowBlock f) ''body'' = Some (t_blockStatement [t_returnStatement (Some e)])
          \<and> insertHoisted f decl
              = Inserted (setChild f ''body'' (t_blockStatement [decl, t_returnStatement (Some e)])))
   \<and> (isProgram blk
      \<longrightarrow> insertHoisted blk decl
            = Inserted (setBody blk (insertAfterPrologueAndImports True (childs blk ''body'') decl)))
   \<and> (isFunction blk \<and> child blk ''body'' = Some b \<and> isBlockStatement b
      \<longrightarrow> insertHoisted blk decl
            = Inserted (setChild blk ''body''
                (setBody b (insertAfterPrologueAndImports False (childs b ''body'') decl))))
   \<and> (isProg \<or> \<not> list_ex isImportDeclaration body
      \<longrightarrow> insertAfterPrologueAndImports isProg body decl
            = takeWhile leadingAnchor body @ decl # dropWhile leadingAnchor body)
   \<and> (\<not> list_ex leadingAnchor (take 1 body)
      \<longrightarrow> insertAfterPrologueAndImports isProg body decl = decl # body)"
proof (intro conjI impI)
  assume a: "isArrowFunctionExpression f \<and> child f ''body'' = Some e \<and> \<not> isBlockStatement e"
  then show "child (ensureArrowBlock f) ''body'' = Some (t_blockStatement [t_returnStatement (Some e)])"
    by (simp add: ensureArrowBlock_def child_setChild)
  from a show "insertHoisted f decl
      = Inserted (setChild f ''body'' (t_blockStatement [decl, t_returnStatement (Some e)]))"
    by (simp add: insertHoisted_arrow)
next
  assume "isProgram blk"
  then show "insertHoisted blk decl
      = Inserted (setBody blk (insertAfterPrologueAndImports True (childs blk ''body'') decl))"
    by (simp add: insertHoisted_def)
next
  assume a: "isFunction blk \<and> child blk ''body'' = Some b \<and> isBlockStatement b"
  then have "\<not> isProgram blk" by (auto simp: isFunction_def isProgram_def)
  with a show "insertHoisted blk decl
      = Inserted (setChild blk ''body''
          (setBody b (insertAfterPrologueAndImports False (childs b ''body'') decl)))"
    by (simp add: insertHoisted_def)
next
  assume "isProg \<or> \<not> list_ex isImportDeclaration body"
  then show "insertAfterPrologueAndImports isProg body decl
      = takeWhile leadingAnchor body @ decl # dropWhile leadingAnchor body"
    using import_free_anchor [of isProg body]
    by (simp add: insertAfterPrologueAndImports_takeWhile)
next
  assume a: "\<not> list_ex leadingAnchor (take 1 body)"
  let ?P = "\<lambda>p. (isProg \<and> isImportDeclaration p) \<or> isStringStatement p"
  have "takeWhile ?P body = []"
    using a by (cases body) (auto simp: leadingAnchor_def)
  moreover from this have "dropWhile ?P body = body"
    by (metis append_Nil takeWhile_dropWhile_id)
  ultimately show "insertAfterPrologueAndImports isProg body decl = decl # body"
    by (simp add: insertAfterPrologueAndImports_takeWhile)
qed


theorem C10_witness:
  "insertHoisted arrowY someDeclaration
     = Inserted (t_arrowFunctionExpression [t_identifier ''y'']
         (t_blockStatement [someDeclaration,
            t_returnStatement (Some (t_callExpression (t_identifier ''add'') [t_identifier ''y'']))]))
   \<and> insertAfterPrologueAndImports True leadingStatements someDeclaration
       = take 2 leadingStatements @ someDeclaration # drop 2 leadingStatements
   \<and> insertAfterPrologueAndImports False (drop 2 leadingStatements) someDeclaration
       = someDeclaration # drop 2 leadingStatements
   \<and> insertHoisted prog3 someDeclaration = Inserted (t_program [someDeclaration, fnAdd, fnMain])
   \<and> insertHoisted fnY someDeclaration
       = Inserted (t_functionExpression None [t_identifier ''y'']
           (t_blockStatement [someDeclaration, t_returnStatement (Some fnZ)]))"
proof -
  let ?e = "t_callExpression (t_identifier ''add'') [t_identifier ''y'']"
  let ?b = "t_blockStatement [t_returnStatement (Some fnZ)]"
  note c1 = C10_insertion_after_leading_anchors
    [where f = arrowY and e = ?e and decl = someDeclaration and blk = prog3
       and isProg = True and body = leadingStatements]
  note c2 = C10_insertion_after_leading_anchors
    [where f = arrowY and e = ?e and decl = someDeclaration and blk = fnY and b = ?b
       and isProg = False and body = "drop 2 leadingStatements"]
  have h1: "isArrowFunctionExpression arrowY \<and> child arrowY ''body'' = Some ?e \<and> \<not> isBlockStatement ?e"
    by (simp add: arrowY_def node_eval)
  have s1: "setChild arrowY ''body''
              (t_blockStatement [someDeclaration, t_returnStatement (Some ?e)])
            = t_arrowFunctionExpression [t_identifier ''y'']
                (t_blockStatement [someDeclaration, t_returnStatement (Some ?e)])"
    by (simp add: setChild_def arrowY_def t_arrowFunctionExpression_def)
  have 1: "insertHoisted arrowY someDeclaration
     = Inserted (t_arrowFunctionExpression [t_identifier ''y'']
         (t_blockStatement [someDeclaration, t_returnStatement (Some ?e)]))"
    using c1 h1 s1 by simp
  have t2: "takeWhile leadingAnchor leadingStatements = take 2 leadingStatements"
    and d2: "dropWhile leadingAnchor leadingStatements = drop 2 leadingStatements"
    by (simp_all add: leadingStatements_def leadingAnchor_def isStringStatement_def node_eval)
  have 2: "insertAfterPrologueAndImports True leadingStatements someDeclaration
       = take 2 leadingStatements @ someDeclaration # drop 2 leadingStatements"
    using c1 t2 d2 by simp
  have h3: "\<not> list_ex leadingAnchor (take 1 (drop 2 leadingStatements))"
    by (simp add: leadingStatements_def leadingAnchor_def isStringStatement_def node_eval)
  have 3: "insertAfterPrologueAndImports False (drop 2 leadingStatements) someDeclaration
       = someDeclaration # drop 2 leadingStatements"
    using c2 h3 by blast
  have h4: "isProgram prog3" by (simp add: prog3_def node_eval)
  have e4: "setBody prog3 (insertAfterPrologueAndImports True (childs prog3 ''body'') someDeclaration)
             = t_program [someDeclaration, fnAdd, fnMain]"
    by (simp add: setBody_def insertAfterPrologueAndImports_def isStringStatement_def
          prog3_def fnAdd_def fnMain_def node_eval)
  have 4: "insertHoisted prog3 someDeclaration = Inserted (t_program [someDeclaration, fnAdd, fnMain])"
    using c1 h4 e4 by simp
  have h5: "isFunction fnY \<and> child fnY ''body'' = Some ?b \<and> isBlockStatement ?b"
    by (simp add: fnY_def node_eval)
  have e5: "setChild fnY ''body''
              (setBody ?b (insertAfterPrologueAndImports False (childs ?b ''body'') someDeclaration))
            = t_functionExpression None [t_identifier ''y'']
                (t_blockStatement [someDeclaration, t_returnStatement (Some fnZ)])"
    by (simp add: setChild_def setBody_def insertAfterPrologueAndImports_def isStringStatement_def
          fnY_def node_eval)
  have 5: "insertHoisted fnY someDeclaration
       = Inserted (t_functionExpression None [t_identifier ''y'']
           (t_blockStatement [someDeclaration, t_returnStatement (Some fnZ)]))"
    using c2 h5 e5 by simp
  show ?thesis by (intro conjI 1 2 3 4 5)
qed






text \<open>
  Claim C1, amended. For scope chains as the scope facility builds them (every
  identifier parameter of a function is registered as a parameter binding of the
  function's scope) and free variables other than \<^verbatim>\<open>arguments\<close>, which no candidate
  that reaches the resolver reads: when every free variable is resolvable from the
  use-site, \<open>outermostScopeWith\<close> returns the top-level unit for an empty set of free
  variables, and otherwise the last scope of the longest run of accepted widenings.
  The run starts at the nearest enclosing scope that the traversal package counts as a
  parent of functions, which is a function scope, the static block of a class or a
  module block (or at the top-level unit if there is none), and proceeds through the
  enclosing function scopes and the top-level unit. A widening is accepted exactly
  when every free variable has its binding, as resolved from the use-site, owned by
  the wider scope or an ancestor of it, or is an identifier parameter of the wider
  scope's function, or is seen as a global by the wider scope. For a use-site outside
  static blocks and module blocks this is the walk of the specification, which starts
  at the nearest enclosing function scope. The claim as stated fails on
  \<^verbatim>\<open>function top(k) { return class { static { let a = g(k); h(a); } }; }\<close>: for the
  call \<^verbatim>\<open>h(a)\<close> the nearest enclosing function scope is that of \<^verbatim>\<open>top\<close>, which the
  walk of the specification returns, and the code starts at the scope of the static
  block and returns it.
\<close>

theorem C1_outward_walk:
  assumes "list_all (resolvable useSite) freeVars"
    and "paramsRegistered useSite"
    and "''arguments'' \<notin> set freeVars"
  shows "outermostScopeWith freeVars useSite = resolveAmended freeVars useSite
         \<and> (outsideStaticBlocks useSite
              \<longrightarrow> outermostScopeWith freeVars useSite = resolveSpec freeVars useSite)"
proof -
  have found: "list_all (foundOnChain useSite) freeVars"
    using assms(1) by (simp add: list_all_iff resolvable_code)
  have a: "outermostScopeWith freeVars useSite = resolveAmended freeVars useSite"
  proof (cases "freeVars = []")
    case True
    then show ?thesis
      by (cases "getProgramParent useSite")
         (simp_all add: outermostScopeWith_def resolveAmended_def resolveFrom_def topLevelUnit_code)
  next
    case False
    show ?thesis
    proof (cases "enclosingFunctionOrProgram useSite")
      case (Inl e)
      with False found show ?thesis
        by (simp add: outermostScopeWith_walk resolveAmended_def resolveFrom_def firstCandidate_code)
    next
      case (Inr c)
      then have c: "c \<in> set (chain useSite)" by (rule enclosingFunctionOrProgram_on_chain)
      have "canHoistToParent freeVars useSite w = acceptsWidening freeVars useSite w"
        if "w \<in> set (widerCandidates c)" for w
      proof -
        from that have "w \<in> set (chain c)" by (rule widerCandidates_on_chain)
        with c have w: "w \<in> set (chain useSite)" using chain_member_subset by blast
        show ?thesis by (rule canHoistToParent_spec [OF assms(2) w assms(3)])
      qed
      then have "takeWhile (canHoistToParent freeVars useSite) (widerCandidates c)
                 = takeWhile (acceptsWidening freeVars useSite) (widerCandidates c)"
        by (intro takeWhile_cong) simp_all
      with False found Inr show ?thesis
        by (simp add: outermostScopeWith_walk resolveAmended_def resolveFrom_def
              firstCandidate_code del: last.simps)
    qed
  qed
  have b: "outermostScopeWith freeVars useSite = resolveSpec freeVars useSite"
    if "outsideStaticBlocks useSite"
    using a firstCandidate_outside [OF that]
    by (simp add: resolveSpec_def resolveAmended_def resolveFrom_def)
  from a b show ?thesis by blast
qed

theorem C1_witness:
  "firstCandidate functionScope scIf1 = Inr scZ1
   \<and> parameterOf scQ1 ''q''
   \<and> getBinding scIf1 ''q'' = Some (scIf1, \<lparr>kind = Let, referencePaths = 1\<rparr>)
   \<and> scIf1 \<notin> set (chain scQ1)
   \<and> \<not> hasGlobal scQ1 ''q''
   \<and> resolveSpec [''f'', ''q'', ''k''] scIf1 = Inr (Some scQ1)
   \<and> resolveAmended [''f'', ''q'', ''k''] scIf1 = Inr (Some scQ1)
   \<and> resolveAmended [''h'', ''a''] scStaticS = Inr (Some scStaticS)
   \<and> resolveSpec [] scIf1 = Inr (Some scProgram1)"
proof -
  have n: "''arguments'' \<notin> set [''f'', ''q'', ''k'']" "''arguments'' \<notin> set [''h'', ''a'']"
    "''arguments'' \<notin> set ([] :: string list)"
    by simp_all
  note c1 = C1_outward_walk [OF fqk_resolvable scIf1_registered n(1)]
  note c2 = C1_outward_walk [OF ha_resolvable scStaticS_registered n(2)]
  have r0: "list_all (resolvable scIf1) []" by simp
  note c3 = C1_outward_walk [OF r0 scIf1_registered n(3)]
  from c1 scIf1_outside
  have "outermostScopeWith [''f'', ''q'', ''k''] scIf1 = resolveSpec [''f'', ''q'', ''k''] scIf1"
    by blast
  then have 5: "resolveSpec [''f'', ''q'', ''k''] scIf1 = Inr (Some scQ1)"
    by (simp only: fqk_resolve)
  from c1
  have "outermostScopeWith [''f'', ''q'', ''k''] scIf1 = resolveAmended [''f'', ''q'', ''k''] scIf1"
    by blast
  then have 6: "resolveAmended [''f'', ''q'', ''k''] scIf1 = Inr (Some scQ1)"
    by (simp only: fqk_resolve)
  from c2
  have "outermostScopeWith [''h'', ''a''] scStaticS = resolveAmended [''h'', ''a''] scStaticS"
    by blast
  then have 7: "resolveAmended [''h'', ''a''] scStaticS = Inr (Some scStaticS)"
    by (simp only: ha_resolve)
  have e: "outermostScopeWith [] scIf1 = Inr (Some scProgram1)"
    by (simp add: sc1_defs scope_eval kind_eval ex1_types)
  from c3 scIf1_outside
  have "outermostScopeWith [] scIf1 = resolveSpec [] scIf1"
    by blast
  then have 8: "resolveSpec [] scIf1 = Inr (Some scProgram1)"
    by (simp only: e)
  show ?thesis
    by (intro conjI scIf1_first q_parameter q_owner scIf1_not_above q_no_global 5 6 7 8)
qed

theorem C1_counterexample:
  "list_all (resolvable scStaticS) [''h'', ''a'']
   \<and> firstCandidate functionScope scStaticS = Inr scTopS
   \<and> resolveSpec [''h'', ''a''] scStaticS = Inr (Some scTopS)
   \<and> outermostScopeWith [''h'', ''a''] scStaticS = Inr (Some scStaticS)
   \<and> scStaticS \<noteq> scTopS"
proof -
  have 2: "firstCandidate functionScope scStaticS = Inr scTopS"
    by (simp add: firstCandidate_def functionScope_def scS_defs exS_types)
  have 5: "scStaticS \<noteq> scTopS" by (simp add: scS_defs)
  show ?thesis by (intro conjI ha_resolvable 2 ha_spec ha_resolve 5)
qed









text \<open>
  Claim C9, amended. For a candidate that passes the purity analysis, the scope
  resolution and the test that the target differs from the current scope, each visitor
  applies further restrictions. A bare call is floated if and only if no free variable
  resolves to a binding of kind \<^verbatim>\<open>var\<close>, \<^verbatim>\<open>let\<close> or \<^verbatim>\<open>const\<close>, in whichever scope that
  binding lives (not only in the current enclosing function). A declaration is floated
  if and only if the declared name has a binding with at least one reference and,
  besides, the initializer has a free variable or is a literal. The claim as stated
  fails on the function
  \<^verbatim>\<open>function (z) { var q = 1 + 2; return add(x)(y) + q + z; }\<close> nested in
  \<^verbatim>\<open>function (y)\<close> and \<^verbatim>\<open>function main(x)\<close> below a program-level \<^verbatim>\<open>var add\<close>: no free
  variable of the call \<^verbatim>\<open>add(x)(y)\<close> is a local variable of the current function, and
  the call is not floated; the declarator of \<^verbatim>\<open>q\<close> passes the three listed checks, and
  it is not floated.
\<close>

theorem C9_additional_restrictions:
  "(bareCallCandidate st p
      \<and> passesChecks (isPureEnoughInit (Some (node p)) \<and> \<not> containsFrameSensitiveThings p)
           (freeVarsOfNode p) (scope p) T
      \<longrightarrow> floats (visitCallExpression bg st p)
            = (\<not> list_ex (resolvesToVariable (scope p)) (freeVarsOfNode p)))
   \<and> (declarationCandidate st p
      \<and> passesChecks (isPureEnoughDecl p) (freeVarsOfDecl p) (scope p) T
      \<longrightarrow> floats (visitVariableDeclarator bg st p)
            = (declaredNameReferenced p \<and> (freeVarsOfDecl p \<noteq> [] \<or> initIsLiteral p)))"
proof (intro conjI impI)
  assume a: "bareCallCandidate st p
      \<and> passesChecks (isPureEnoughInit (Some (node p)) \<and> \<not> containsFrameSensitiveThings p)
           (freeVarsOfNode p) (scope p) T"
  then have c: "bareCallCandidate st p" by simp
  from a obtain cur where cur: "enclosingFunctionOrProgram (scope p) = Inr cur" "T \<noteq> cur"
    by (auto simp: passesChecks_def split: sum.splits)
  from a cur have "CallExpression_analysis st p
      = (if dependsOnLocalVar (scope p) (freeVarsOfNode p) then Inr Rejected else Inr (Accept T))"
    by (simp add: CallExpression_analysis_candidate [OF c] passesChecks_def)
  then show "floats (visitCallExpression bg st p)
            = (\<not> list_ex (resolvesToVariable (scope p)) (freeVarsOfNode p))"
    by (simp add: visitCallExpression_floats dependsOnLocalVar_iff)
next
  assume a: "declarationCandidate st p
      \<and> passesChecks (isPureEnoughDecl p) (freeVarsOfDecl p) (scope p) T"
  then have c: "declarationCandidate st p" by simp
  from a obtain cur where cur: "enclosingFunctionOrProgram (scope p) = Inr cur" "T \<noteq> cur"
    by (auto simp: passesChecks_def split: sum.splits)
  from a have pc: "isPureEnoughDecl p" "outermostScopeWith (freeVarsOfDecl p) (scope p) = Inr (Some T)"
    by (simp_all add: passesChecks_def)
  show "floats (visitVariableDeclarator bg st p)
            = (declaredNameReferenced p \<and> (freeVarsOfDecl p \<noteq> [] \<or> initIsLiteral p))"
  proof (cases "getBinding (scope p) (declaredName (node p))")
    case None
    then show ?thesis
      by (simp add: visitVariableDeclarator_floats VariableDeclarator_analysis_candidate [OF c]
            pc declaredNameReferenced_def)
  next
    case (Some ob)
    obtain owner b where ob: "ob = (owner, b)" by (cases ob)
    show ?thesis
      using Some ob cur pc
      by (cases "referencePaths b < 1"; cases "freeVarsOfDecl p = []"; cases "initIsLiteral p")
         (simp_all add: visitVariableDeclarator_floats VariableDeclarator_analysis_candidate [OF c]
            declaredNameReferenced_def initIsLiteral_def)
  qed
qed

theorem C9_witness:
  "floats (visitCallExpression [] afterHelper addXYPath)
   \<and> \<not> list_ex (resolvesToVariable (scope addXYPath)) (freeVarsOfNode addXYPath)
   \<and> floats (visitVariableDeclarator [] afterHelper xyPath)
   \<and> declaredNameReferenced xyPath
   \<and> \<not> floats (visitCallExpression [] afterHelper addXYPath9)
   \<and> \<not> floats (visitVariableDeclarator [] afterHelper qPath)"
proof -
  note c1 = C9_additional_restrictions
    [where st = afterHelper and p = addXYPath and T = scY and bg = "[]"]
  note c2 = C9_additional_restrictions
    [where st = afterHelper and p = xyPath and T = scY4 and bg = "[]"]
  note c3 = C9_additional_restrictions
    [where st = afterHelper and p = addXYPath9 and T = scY9 and bg = "[]"]
  note c4 = C9_additional_restrictions
    [where st = afterHelper and p = qPath and T = scProgram9 and bg = "[]"]
  have 2: "\<not> list_ex (resolvesToVariable (scope addXYPath)) (freeVarsOfNode addXYPath)"
    by (simp add: addXYPath_sel addXY_freeVars resolvesToVariable_def sc3_defs scope_eval
          kind_eval ex3_types)
  have 1: "floats (visitCallExpression [] afterHelper addXYPath)"
    using c1 addXY_candidate addXY_checks 2 by blast
  have 4: "declaredNameReferenced xyPath"
    by (simp add: declaredNameReferenced_def xyPath_sel xy_declared xy_binding)
  have "freeVarsOfDecl xyPath \<noteq> []" by (simp add: xy_freeVars)
  then have 3: "floats (visitVariableDeclarator [] afterHelper xyPath)"
    using c2 xy_candidate xy_checks 4 by blast
  have "list_ex (resolvesToVariable (scope addXYPath9)) (freeVarsOfNode addXYPath9)"
    using addXY9_variable by (simp add: addXYPath9_sel addXY9_freeVars)
  then have 5: "\<not> floats (visitCallExpression [] afterHelper addXYPath9)"
    using c3 addXY9_candidate addXY9_checks by blast
  have "freeVarsOfDecl qPath = [] \<and> \<not> initIsLiteral qPath"
    by (simp add: q_freeVars q_not_literal)
  then have 6: "\<not> floats (visitVariableDeclarator [] afterHelper qPath)"
    using c4 q_candidate q_checks by blast
  show ?thesis by (intro conjI 1 2 3 4 5 6)
qed

theorem C9_counterexample:
  "bareCallCandidate afterHelper addXYPath9
   \<and> passesChecks (isPureEnoughInit (Some (node addXYPath9)) \<and> \<not> containsFrameSensitiveThings addXYPath9)
        (freeVarsOfNode addXYPath9) (scope addXYPath9) scY9
   \<and> \<not> list_ex (resolvesToLocalVariable (scope addXYPath9)) (freeVarsOfNode addXYPath9)
   \<and> \<not> floats (visitCallExpression [] afterHelper addXYPath9)
   \<and> declarationCandidate afterHelper qPath
   \<and> passesChecks (isPureEnoughDecl qPath) (freeVarsOfDecl qPath) (scope qPath) scProgram9
   \<and> \<not> floats (visitVariableDeclarator [] afterHelper qPath)"
proof -
  have 1: "\<not> list_ex (resolvesToLocalVariable (scope addXYPath9)) (freeVarsOfNode addXYPath9)"
    using addXY9_not_local by (simp add: addXYPath9_sel addXY9_freeVars)
  have "CallExpression_analysis afterHelper addXYPath9 = Inr Rejected"
    using addXY9_variable
    by (simp add: CallExpression_analysis_candidate [OF addXY9_candidate] addXYPath9_sel
          addXY_pure addXY9_no_frame addXY9_freeVars addXY9_resolve scZ9_current scY9_neq_scZ9
          dependsOnLocalVar_iff)
  then have 2: "\<not> floats (visitCallExpression [] afterHelper addXYPath9)"
    by (simp add: visitCallExpression_floats)
  have "VariableDeclarator_analysis afterHelper qPath = Inr Rejected"
    using q_not_literal
    by (simp add: VariableDeclarator_analysis_candidate [OF q_candidate] q_pure q_freeVars
          initIsLiteral_def split: option.splits)
  then have 3: "\<not> floats (visitVariableDeclarator [] afterHelper qPath)"
    by (simp add: visitVariableDeclarator_floats)
  show ?thesis by (intro conjI addXY9_candidate addXY9_checks 1 2 q_candidate q_checks 3)
qed


text \<open>
  Claim C4. The claim does not hold of the code. A hoist adds three objects to
  \<^verbatim>\<open>GENERATED\<close>: the root of the copied expression, the hoisted declaration and the
  replacement call. The nodes below the root of the copy are new objects as well, and
  they are not marked. The \<^verbatim>\<open>CallExpression\<close> visitor skips every call below a helper
  call (\<^verbatim>\<open>isInFloatedBinding\<close>); the \<^verbatim>\<open>VariableDeclarator\<close> visitor has no such test.
  In the function
  \<^verbatim>\<open>function top(k) { return function (q) { return function (z) {
  return f(function (a) { var q = g(k); return q; }); }; }; }\<close>
  the call \<^verbatim>\<open>f(...)\<close> is floated into the function of \<^verbatim>\<open>q\<close>. The declarator
  \<^verbatim>\<open>q = g(k)\<close> of the copy, which lies below the inserted declaration, is then a
  declaration candidate, is analysed, and is floated in its turn, into \<^verbatim>\<open>top\<close>, under
  the name \<^verbatim>\<open>q__fb\<close>.
\<close>

theorem C4_copied_declarator_is_floated:
  "visitCallExpression [] afterHelper7 callFAPath = Some (Inr (Floated callFAHoist, afterCallFA))
   \<and> node innerQPath \<in> set (tl (subnodes (cloned callFAHoist)))
   \<and> fbDecl callFAHoist \<in> set (parents innerQPath)
   \<and> declarationCandidate afterCallFA innerQPath
   \<and> VariableDeclarator_analysis afterCallFA innerQPath = Inr (Accept scTop7')
   \<and> visitVariableDeclarator [] afterCallFA innerQPath
       = Some (Inr (Floated innerQHoist, afterInnerQ))"
  by (intro conjI callFA_visit innerQ_in_copy innerQ_below_decl innerQ_candidate innerQ_analysis
        innerQ_visit)

end
